theory Spec2Isabelle
  imports Main "HOL-Library.Word" "HOL-Library.Finite_Map"
begin

unbundle bit_operations_syntax

section \<open>Machine types\<close>

type_synonym byte = "8 word"
type_synonym u32 = "32 word"
type_synonym u64 = "64 word"

section \<open>Runtime configuration (config.go)\<close>

subsection \<open>Feature set\<close>

type_synonym Features = "64 word"

text \<open>
  Modelled from the spec: the methods \<open>Features.Set\<close> and \<open>Features.Get\<close> of package
  \<open>wasm\<close> are called by config.go but their file is not among the sources. The spec
  describes the feature set as a "bitset of enabled post-1.0 proposals": a feature is a
  mask, setting it to true ors the mask in, setting it to false clears the mask's bits,
  and a feature is enabled when some bit of its mask is present.
\<close>

definition Features_Set :: "Features \<Rightarrow> Features \<Rightarrow> bool \<Rightarrow> Features" where
  "Features_Set f feature val = (if val then f OR feature else f AND NOT feature)"

definition Features_Get :: "Features \<Rightarrow> Features \<Rightarrow> bool" where
  "Features_Get f feature = (f AND feature \<noteq> 0)"

text \<open>
  The constants of package \<open>wasm\<close> that config.go names but that are declared in files
  not among the sources. They are a parameter of every function that uses them.
\<close>

record wasm_consts =
  FeatureBulkMemoryOperations :: Features
  FeatureMultiValue :: Features
  FeatureMutableGlobal :: Features
  FeatureNonTrappingFloatToIntConversion :: Features
  FeatureReferenceTypes :: Features
  FeatureSignExtensionOps :: Features
  Features20191205 :: Features
  Features20220419 :: Features
  MemoryLimitPages :: u32

subsection \<open>runtimeConfig\<close>

text \<open>\<open>newEngine\<close> holds one of the two engine constructors, or nil in \<open>engineLessConfig\<close>.\<close>

datatype engine_ctor = jit_NewEngine | interpreter_NewEngine

text \<open>
  A Go function value may be nil: \<open>memoryCapacityPages\<close> is an option. Its second
  argument \<open>maxPages *uint32\<close> may be nil as well.
\<close>

type_synonym capacity_fn = "u32 \<Rightarrow> u32 option \<Rightarrow> u32"

record runtimeConfig =
  enabledFeatures :: Features
  newEngine :: "engine_ctor option"
  memoryLimitPages :: u32
  memoryCapacityPages :: "capacity_fn option"

definition engineLessConfig :: "wasm_consts \<Rightarrow> runtimeConfig" where
  "engineLessConfig K =
     \<lparr> enabledFeatures = Features20191205 K,
       newEngine = None,
       memoryLimitPages = MemoryLimitPages K,
       memoryCapacityPages = Some (\<lambda>minPages maxPages. minPages) \<rparr>"

definition NewRuntimeConfigJIT :: "wasm_consts \<Rightarrow> runtimeConfig" where
  "NewRuntimeConfigJIT K = (engineLessConfig K)\<lparr> newEngine := Some jit_NewEngine \<rparr>"

definition NewRuntimeConfigInterpreter :: "wasm_consts \<Rightarrow> runtimeConfig" where
  "NewRuntimeConfigInterpreter K =
     (engineLessConfig K)\<lparr> newEngine := Some interpreter_NewEngine \<rparr>"

text \<open>
  Every field of \<open>runtimeConfig\<close> is a scalar or a function value, so the Go copy
  \<open>ret := *c\<close> shares no mutable memory with \<open>c\<close>: the methods are modelled on values.
\<close>

definition WithFeatureBulkMemoryOperations ::
    "wasm_consts \<Rightarrow> runtimeConfig \<Rightarrow> bool \<Rightarrow> runtimeConfig" where
  "WithFeatureBulkMemoryOperations K c enabled =
     (let ret = c;
          ret = ret\<lparr> enabledFeatures :=
                  Features_Set (enabledFeatures ret) (FeatureBulkMemoryOperations K) enabled \<rparr>;
          ret = ret\<lparr> enabledFeatures :=
                  Features_Set (enabledFeatures ret) (FeatureReferenceTypes K) enabled \<rparr>
      in ret)"

definition WithFeatureMultiValue :: "wasm_consts \<Rightarrow> runtimeConfig \<Rightarrow> bool \<Rightarrow> runtimeConfig" where
  "WithFeatureMultiValue K c enabled =
     c\<lparr> enabledFeatures := Features_Set (enabledFeatures c) (FeatureMultiValue K) enabled \<rparr>"

definition WithFeatureMutableGlobal :: "wasm_consts \<Rightarrow> runtimeConfig \<Rightarrow> bool \<Rightarrow> runtimeConfig" where
  "WithFeatureMutableGlobal K c enabled =
     c\<lparr> enabledFeatures := Features_Set (enabledFeatures c) (FeatureMutableGlobal K) enabled \<rparr>"

definition WithFeatureNonTrappingFloatToIntConversion ::
    "wasm_consts \<Rightarrow> runtimeConfig \<Rightarrow> bool \<Rightarrow> runtimeConfig" where
  "WithFeatureNonTrappingFloatToIntConversion K c enabled =
     c\<lparr> enabledFeatures :=
          Features_Set (enabledFeatures c) (FeatureNonTrappingFloatToIntConversion K) enabled \<rparr>"

definition WithFeatureReferenceTypes ::
    "wasm_consts \<Rightarrow> runtimeConfig \<Rightarrow> bool \<Rightarrow> runtimeConfig" where
  "WithFeatureReferenceTypes K c enabled =
     (let ret = c;
          ret = ret\<lparr> enabledFeatures :=
                  Features_Set (enabledFeatures ret) (FeatureReferenceTypes K) enabled \<rparr>;
          ret = ret\<lparr> enabledFeatures :=
                  Features_Set (enabledFeatures ret) (FeatureBulkMemoryOperations K) enabled \<rparr>
      in ret)"

definition WithFeatureSignExtensionOps ::
    "wasm_consts \<Rightarrow> runtimeConfig \<Rightarrow> bool \<Rightarrow> runtimeConfig" where
  "WithFeatureSignExtensionOps K c enabled =
     c\<lparr> enabledFeatures :=
          Features_Set (enabledFeatures c) (FeatureSignExtensionOps K) enabled \<rparr>"

definition WithMemoryCapacityPages ::
    "runtimeConfig \<Rightarrow> capacity_fn option \<Rightarrow> runtimeConfig" where
  "WithMemoryCapacityPages c maxCapacityPages =
     (case maxCapacityPages of
        None \<Rightarrow> c
      | Some f \<Rightarrow> c\<lparr> memoryCapacityPages := Some f \<rparr>)"

definition WithMemoryLimitPages :: "runtimeConfig \<Rightarrow> u32 \<Rightarrow> runtimeConfig" where
  "WithMemoryLimitPages c limit = c\<lparr> memoryLimitPages := limit \<rparr>"

definition WithWasmCore1 :: "wasm_consts \<Rightarrow> runtimeConfig \<Rightarrow> runtimeConfig" where
  "WithWasmCore1 K c = c\<lparr> enabledFeatures := Features20191205 K \<rparr>"

definition WithWasmCore2 :: "wasm_consts \<Rightarrow> runtimeConfig \<Rightarrow> runtimeConfig" where
  "WithWasmCore2 K c = c\<lparr> enabledFeatures := Features20220419 K \<rparr>"

text \<open>One call of a method of the \<open>RuntimeConfig\<close> interface, and a chain of calls.\<close>

datatype runtime_option =
    OptFeatureBulkMemoryOperations bool
  | OptFeatureMultiValue bool
  | OptFeatureMutableGlobal bool
  | OptFeatureNonTrappingFloatToIntConversion bool
  | OptFeatureReferenceTypes bool
  | OptFeatureSignExtensionOps bool
  | OptMemoryCapacityPages "capacity_fn option"
  | OptMemoryLimitPages u32
  | OptWasmCore1
  | OptWasmCore2

fun applyOption :: "wasm_consts \<Rightarrow> runtimeConfig \<Rightarrow> runtime_option \<Rightarrow> runtimeConfig" where
  "applyOption K c (OptFeatureBulkMemoryOperations v) = WithFeatureBulkMemoryOperations K c v"
| "applyOption K c (OptFeatureMultiValue v) = WithFeatureMultiValue K c v"
| "applyOption K c (OptFeatureMutableGlobal v) = WithFeatureMutableGlobal K c v"
| "applyOption K c (OptFeatureNonTrappingFloatToIntConversion v) =
     WithFeatureNonTrappingFloatToIntConversion K c v"
| "applyOption K c (OptFeatureReferenceTypes v) = WithFeatureReferenceTypes K c v"
| "applyOption K c (OptFeatureSignExtensionOps v) = WithFeatureSignExtensionOps K c v"
| "applyOption K c (OptMemoryCapacityPages f) = WithMemoryCapacityPages c f"
| "applyOption K c (OptMemoryLimitPages n) = WithMemoryLimitPages c n"
| "applyOption K c OptWasmCore1 = WithWasmCore1 K c"
| "applyOption K c OptWasmCore2 = WithWasmCore2 K c"

definition applyOptions ::
    "wasm_consts \<Rightarrow> runtimeConfig \<Rightarrow> runtime_option list \<Rightarrow> runtimeConfig" where
  "applyOptions K c opts = foldl (applyOption K) c opts"

text \<open>
  Sample values of the constants, for running the model on concrete inputs: one bit per
  feature, mutable globals alone in the 1.0 set, every feature in the 2.0 set.
\<close>

definition sample_consts :: wasm_consts where
  "sample_consts =
     \<lparr> FeatureBulkMemoryOperations = 1,
       FeatureMultiValue = 2,
       FeatureMutableGlobal = 4,
       FeatureNonTrappingFloatToIntConversion = 8,
       FeatureReferenceTypes = 16,
       FeatureSignExtensionOps = 32,
       Features20191205 = 4,
       Features20220419 = 63,
       MemoryLimitPages = 65536 \<rparr>"

section \<open>The store (package wasm)\<close>

subsection \<open>Data model\<close>

text \<open>
  The struct declarations of the decoded module (\<open>Module\<close>, \<open>Import\<close>, \<open>Export\<close>,
  \<open>Table\<close>, \<open>Memory\<close>, \<open>GlobalType\<close>, \<open>FunctionType\<close>, \<open>DataSegment\<close>,
  \<open>ConstantExpression\<close>) and of \<open>TableInstance\<close> and \<open>MemoryInstance\<close> are in files
  not among the sources; the records below have the fields that store.go and config.go
  read and write, with the types those uses show. Go lets two structs share a field
  name; here a field carries a prefix for its struct (\<open>imp_\<close> Import, \<open>exp_\<close> Export,
  \<open>tab_\<close> Table, \<open>mem_\<close> Memory, \<open>ti_\<close> TableInstance, \<open>mi_\<close> MemoryInstance,
  \<open>gi_\<close> GlobalInstance, \<open>fi_\<close> FunctionInstance, \<open>ei_\<close> ExportInstance,
  \<open>mod_\<close> ModuleInstance). A Go pointer that may be nil is an option.
\<close>

type_synonym Index = u32
type_synonym FunctionTypeID = u32

datatype ValueType =
  ValueTypeI32 | ValueTypeI64 | ValueTypeF32 | ValueTypeF64 | ValueTypeFuncref | ValueTypeExternref

datatype RefType = RefTypeFuncref | RefTypeExternref

datatype ExternType = ExternTypeFunc | ExternTypeTable | ExternTypeMemory | ExternTypeGlobal

record FunctionType =
  Params :: "ValueType list"
  Results :: "ValueType list"

record GlobalType =
  ValType :: ValueType
  Mutable :: bool

text \<open>
  Modelled from the spec: the declarations of \<open>Table\<close> and \<open>TableInstance\<close> are not among
  the sources. The spec gives a table "element type (funcref/externref), vector of
  references, Min, optional Max"; store.go reads \<open>Min\<close> (a uint32) and \<open>Max\<close> (a
  *uint32). The vector of references is not read by the code modelled here.
\<close>

record Table =
  tab_Type :: RefType
  tab_Min :: u32
  tab_Max :: "u32 option"

record Memory =
  mem_Min :: u32
  mem_Max :: u32

record Import =
  imp_Type :: ExternType
  imp_Module :: string
  imp_Name :: string
  imp_DescFunc :: Index
  imp_DescTable :: "Table option"
  imp_DescMem :: "Memory option"
  imp_DescGlobal :: "GlobalType option"

record Export =
  exp_Type :: ExternType
  exp_Name :: string
  exp_Index :: Index

datatype Opcode =
    OpcodeI32Const | OpcodeI64Const | OpcodeF32Const | OpcodeF64Const | OpcodeGlobalGet
  | OpcodeOther byte

record ConstantExpression =
  ce_Opcode :: Opcode
  ce_Data :: "byte list"

record DataSegment =
  OffsetExpression :: "ConstantExpression option"
  Init :: "byte list"

text \<open>
  Modelled from the spec: \<open>DataSegment.IsPassive\<close> is not among the sources. The spec
  separates active segments, "applied at instantiation", from passive ones; an active
  segment is one that has an offset expression.
\<close>

definition IsPassive :: "DataSegment \<Rightarrow> bool" where
  "IsPassive d = (OffsetExpression d = None)"

text \<open>
  A decoded module. \<open>ImportSection\<close> is a slice that may be nil. The table, memory,
  global, code, element and name sections are read only by the \<open>build\<close> methods, which
  are not among the sources.
\<close>

record Module =
  TypeSection :: "FunctionType list"
  ImportSection :: "Import list option"
  FunctionSection :: "Index list"
  ExportSection :: "Export list"
  StartSection :: "Index option"
  DataSection :: "DataSegment list"
  HostFunctionSection :: "unit option"

record TableInstance =
  ti_Type :: RefType
  ti_Min :: u32
  ti_Max :: "u32 option"

record MemoryInstance =
  mi_Buffer :: "byte list"
  mi_Min :: u32
  mi_Max :: u32

record FunctionInstance =
  fi_DebugName :: string
  fi_Type :: FunctionType
  fi_TypeID :: FunctionTypeID
  fi_Idx :: Index

record GlobalInstance =
  gi_Type :: GlobalType
  gi_Val :: u64

text \<open>
  Memory instances are shared between the module that defines one and the modules that
  import it, and instantiation writes into them: they live in a heap, a list indexed by
  address, and the instances refer to them by address. Functions, globals and tables are
  only read by the code modelled here and are held by value.
\<close>

type_synonym mem_addr = nat
type_synonym mem_heap = "MemoryInstance list"

record ExportInstance =
  ei_Type :: ExternType
  ei_Function :: "FunctionInstance option"
  ei_Global :: "GlobalInstance option"
  ei_Memory :: "mem_addr option"
  ei_Table :: "TableInstance option"

record ModuleInstance =
  mod_Name :: string
  mod_Exports :: "string \<rightharpoonup> ExportInstance"
  mod_Functions :: "FunctionInstance list"
  mod_Globals :: "GlobalInstance list"
  mod_Memory :: "mem_addr option"
  mod_Tables :: "TableInstance list"
  mod_Types :: "FunctionType list"
  mod_TypeIDs :: "FunctionTypeID list"
  mod_DataInstances :: "byte list list"

text \<open>
  \<open>moduleNames\<close> is a Go \<open>map[string]struct{}\<close>, a set of names; \<open>typeIDs\<close> is a Go map
  whose \<open>len\<close> the code reads, a finite map. The mutex guards against concurrent calls
  and is not modelled: every method runs alone.
\<close>

record Store =
  EnabledFeatures :: Features
  moduleNames :: "string set"
  modules :: "string \<rightharpoonup> ModuleInstance"
  typeIDs :: "(string, FunctionTypeID) fmap"
  functionMaxTypes :: u32

subsection \<open>Errors\<close>

text \<open>
  Each \<open>fmt.Errorf\<close> of store.go is a constructor that keeps the values the message is
  formatted from. A Go panic (nil dereference, index out of range, failed type
  assertion) is the constructor \<open>Panic\<close>. \<open>External\<close> is an error returned by code that
  is not among the sources (\<open>buildTables\<close>, the engine).
\<close>

datatype panic = NilDereference | IndexOutOfRange | TypeAssertion | NilMapWrite

datatype import_problem =
    FunctionTypeOutOfRange
  | SignatureMismatch FunctionType FunctionType
  | MinimumSizeMismatch u32 u32
  | MaximumSizeNoMax u32
  | MaximumSizeMismatch u32 u32
  | MutabilityMismatch bool bool
  | ValueTypeMismatch ValueType ValueType

datatype error =
    ModuleAlreadyInstantiated string
  | TooManyFunctionTypes
  | ModuleNotInstantiated string
  | NotExported string string
  | ExportWrongType string string ExternType ExternType
  | InvalidImport nat Import import_problem
  | OutOfBoundsMemoryAccess
  | CompilationFailed error
  | StartFailed Index error
  | External string
  | Panic panic

subsection \<open>Module names\<close>

definition maximumFunctionTypes :: u32 where
  "maximumFunctionTypes = push_bit 27 1"

definition NewStore :: "Features \<Rightarrow> Store" where
  "NewStore features =
     \<lparr> EnabledFeatures = features,
       moduleNames = {},
       modules = Map.empty,
       typeIDs = fmempty,
       functionMaxTypes = maximumFunctionTypes \<rparr>"

definition deleteModule :: "Store \<Rightarrow> string \<Rightarrow> Store" where
  "deleteModule s moduleName =
     s\<lparr> modules := (modules s)(moduleName := None),
        moduleNames := moduleNames s - {moduleName} \<rparr>"

text \<open>The store after the call is returned with the error, nil (\<open>None\<close>) on success.\<close>

definition requireModuleName :: "Store \<Rightarrow> string \<Rightarrow> Store \<times> error option" where
  "requireModuleName s moduleName =
     (if moduleName \<in> moduleNames s then (s, Some (ModuleAlreadyInstantiated moduleName))
      else (s\<lparr> moduleNames := insert moduleName (moduleNames s) \<rparr>, None))"

definition addModule :: "Store \<Rightarrow> ModuleInstance \<Rightarrow> Store" where
  "addModule s m = s\<lparr> modules := (modules s)(mod_Name m \<mapsto> m) \<rparr>"

subsection \<open>Function type interning\<close>

text \<open>
  \<open>FunctionType.String\<close>, the canonical textual form of a type, is not among the
  sources: it is the parameter \<open>String\<close>. \<open>uint32(len(s.typeIDs))\<close> is the conversion of
  the number of keys to 32 bits. The store is returned with the result, as the Go method
  mutates it also when a later type of the same call fails.
\<close>

definition getFunctionTypeID ::
    "(FunctionType \<Rightarrow> string) \<Rightarrow> Store \<Rightarrow> FunctionType \<Rightarrow> Store \<times> (error + FunctionTypeID)" where
  "getFunctionTypeID String s t =
     (let key = String t in
      case fmlookup (typeIDs s) key of
        Some id' \<Rightarrow> (s, Inr id')
      | None \<Rightarrow>
          (let l = (word_of_nat (fcard (fmdom (typeIDs s))) :: u32) in
           if l \<ge> functionMaxTypes s then (s, Inl TooManyFunctionTypes)
           else (let id' = (word_of_nat (fcard (fmdom (typeIDs s))) :: FunctionTypeID) in
                 (s\<lparr> typeIDs := fmupd key id' (typeIDs s) \<rparr>, Inr id'))))"

fun getFunctionTypeIDs ::
    "(FunctionType \<Rightarrow> string) \<Rightarrow> Store \<Rightarrow> FunctionType list
       \<Rightarrow> Store \<times> (error + FunctionTypeID list)" where
  "getFunctionTypeIDs String s [] = (s, Inr [])"
| "getFunctionTypeIDs String s (t # ts) =
     (case getFunctionTypeID String s t of
        (s', Inl err) \<Rightarrow> (s', Inl err)
      | (s', Inr inst) \<Rightarrow>
          (case getFunctionTypeIDs String s' ts of
             (s'', Inl err) \<Rightarrow> (s'', Inl err)
           | (s'', Inr ret) \<Rightarrow> (s'', Inr (inst # ret))))"

text \<open>
  The invariant of the interning map: at most \<open>functionMaxTypes\<close> keys, every identifier
  below the number of keys, and no identifier given to two keys.
\<close>

definition typeIDs_inv :: "Store \<Rightarrow> bool" where
  "typeIDs_inv s \<longleftrightarrow>
     fcard (fmdom (typeIDs s)) \<le> unat (functionMaxTypes s)
   \<and> (\<forall>k i. fmlookup (typeIDs s) k = Some i \<longrightarrow> unat i < fcard (fmdom (typeIDs s)))
   \<and> (\<forall>k k' i. fmlookup (typeIDs s) k = Some i \<and> fmlookup (typeIDs s) k' = Some i \<longrightarrow> k = k')"

text \<open>
  Every instantiated module's name is reserved. \<open>NewStore\<close> establishes this and the
  methods of the store keep it.
\<close>

definition names_inv :: "Store \<Rightarrow> bool" where
  "names_inv s \<longleftrightarrow> dom (modules s) \<subseteq> moduleNames s"

text \<open>
  A sample canonical form, for running the model on concrete types: it tells an empty
  list of parameters or results from a non-empty one.
\<close>

definition sample_String :: "FunctionType \<Rightarrow> string" where
  "sample_String t =
     (if Params t = [] then ''v'' else ''i32'') @ ''_'' @ (if Results t = [] then ''v'' else ''i32'')"

subsection \<open>Constant expressions and data segments\<close>

text \<open>
  The LEB128 and IEEE-754 decoders (packages \<open>leb128\<close> and \<open>ieee754\<close>) are not among
  the sources: they are the parameter \<open>D\<close>. \<open>executeConstExpression\<close> drops their
  errors, so each is a total function of the bytes. Floats are kept as their bit
  patterns; \<open>api.DecodeF32\<close> reads the low 32 bits of the slot.

  \<open>D\<close> also carries what the source leaves to the platform it is compiled for: the
  number of bits of Go's \<open>int\<close> (\<open>strconv.IntSize\<close>, 32 or 64). It is read where the
  code adds two \<open>int\<close>, in \<open>validateData\<close>. The conversion of the \<open>int32\<close> offset to
  \<open>int\<close> keeps the value at either size; \<open>int(typeIndex)\<close> in \<open>resolveImports\<close>, of a
  \<open>uint32\<close>, is modelled as keeping it, as it does where \<open>int\<close> has 64 bits.
\<close>

record codec =
  DecodeInt32 :: "byte list \<Rightarrow> u32"
  DecodeInt64 :: "byte list \<Rightarrow> u64"
  DecodeFloat32 :: "byte list \<Rightarrow> u32"
  DecodeFloat64 :: "byte list \<Rightarrow> u64"
  DecodeUint32 :: "byte list \<Rightarrow> u32"
  IntSize :: nat

text \<open>The \<open>interface{}\<close> that \<open>executeConstExpression\<close> returns: a typed value, or nil.\<close>

datatype const_value = ValueI32 u32 | ValueI64 u64 | ValueF32 u32 | ValueF64 u64 | ValueNil

definition executeConstExpression ::
    "codec \<Rightarrow> GlobalInstance list \<Rightarrow> ConstantExpression \<Rightarrow> panic + const_value" where
  "executeConstExpression D globals expr =
     (case ce_Opcode expr of
        OpcodeI32Const \<Rightarrow> Inr (ValueI32 (DecodeInt32 D (ce_Data expr)))
      | OpcodeI64Const \<Rightarrow> Inr (ValueI64 (DecodeInt64 D (ce_Data expr)))
      | OpcodeF32Const \<Rightarrow> Inr (ValueF32 (DecodeFloat32 D (ce_Data expr)))
      | OpcodeF64Const \<Rightarrow> Inr (ValueF64 (DecodeFloat64 D (ce_Data expr)))
      | OpcodeGlobalGet \<Rightarrow>
          (let id' = DecodeUint32 D (ce_Data expr) in
           if unat id' < length globals then
             (let g = globals ! unat id' in
              case ValType (gi_Type g) of
                ValueTypeI32 \<Rightarrow> Inr (ValueI32 (ucast (gi_Val g)))
              | ValueTypeI64 \<Rightarrow> Inr (ValueI64 (gi_Val g))
              | ValueTypeF32 \<Rightarrow> Inr (ValueF32 (ucast (gi_Val g)))
              | ValueTypeF64 \<Rightarrow> Inr (ValueF64 (gi_Val g))
              | _ \<Rightarrow> Inr ValueNil)
           else Inl IndexOutOfRange)
      | OpcodeOther b \<Rightarrow> Inr ValueNil)"

text \<open>
  Go's \<open>+\<close> on two \<open>int\<close> of \<open>bits\<close> bits: the sum wraps around in two's complement.
\<close>

definition int_add :: "nat \<Rightarrow> int \<Rightarrow> int \<Rightarrow> int" where
  "int_add bits a b = signed_take_bit (bits - 1) (a + b)"

text \<open>
  \<open>validateData\<close>. The offset is the \<open>int32\<close> converted to \<open>int\<close>, a signed number;
  \<open>ceil\<close> is the \<open>int\<close> sum of the offset and \<open>len(d.Init)\<close>, which wraps around
  at the size of \<open>int\<close>. The condition
  \<open>offset < 0 || ceil > len(m.Memory.Buffer)\<close> reads the memory only when the offset
  is not negative. The result is the error, \<open>None\<close> for nil.
\<close>

fun validateData ::
    "codec \<Rightarrow> mem_heap \<Rightarrow> ModuleInstance \<Rightarrow> DataSegment list \<Rightarrow> error option" where
  "validateData D h m [] = None"
| "validateData D h m (d # ds) =
     (if \<not> IsPassive d then
        (case OffsetExpression d of
           None \<Rightarrow> Some (Panic NilDereference)
         | Some expr \<Rightarrow>
             (case executeConstExpression D (mod_Globals m) expr of
                Inl p \<Rightarrow> Some (Panic p)
              | Inr (ValueI32 w) \<Rightarrow>
                  (let offset = sint w;
                       ceil = int_add (IntSize D) offset (int (length (Init d))) in
                   if offset < 0 then Some OutOfBoundsMemoryAccess
                   else (case mod_Memory m of
                           None \<Rightarrow> Some (Panic NilDereference)
                         | Some a \<Rightarrow>
                             if a < length h then
                               (if ceil > int (length (mi_Buffer (h ! a)))
                                then Some OutOfBoundsMemoryAccess
                                else validateData D h m ds)
                             else Some (Panic NilDereference)))
              | Inr _ \<Rightarrow> Some (Panic TypeAssertion)))
      else validateData D h m ds)"

text \<open>
  Go's \<open>copy(buf[offset:], src)\<close>: it copies as many bytes as fit, the smaller of
  \<open>len(buf) - offset\<close> and \<open>len(src)\<close>, and leaves the length of \<open>buf\<close> as it is. It is
  applied where \<open>offset \<le> len(buf)\<close>; the slice expression panics otherwise.
\<close>

definition copy_at :: "byte list \<Rightarrow> nat \<Rightarrow> byte list \<Rightarrow> byte list" where
  "copy_at buf offset src =
     (let n = min (length buf - offset) (length src) in
      take offset buf @ take n src @ drop (offset + n) buf)"

text \<open>
  \<open>applyData\<close> returns nothing; a panic inside it leaves the bytes written so far. The
  result is the heap after the call and the panic, if any.
\<close>

fun applyData ::
    "codec \<Rightarrow> mem_heap \<Rightarrow> ModuleInstance \<Rightarrow> DataSegment list \<Rightarrow> mem_heap \<times> panic option" where
  "applyData D h m [] = (h, None)"
| "applyData D h m (d # ds) =
     (if \<not> IsPassive d then
        (case OffsetExpression d of
           None \<Rightarrow> (h, Some NilDereference)
         | Some expr \<Rightarrow>
             (case executeConstExpression D (mod_Globals m) expr of
                Inl p \<Rightarrow> (h, Some p)
              | Inr (ValueI32 offset) \<Rightarrow>
                  (case mod_Memory m of
                     None \<Rightarrow> (h, Some NilDereference)
                   | Some a \<Rightarrow>
                       if a < length h then
                         (let buf = mi_Buffer (h ! a) in
                          if sint offset < 0 \<or> int (length buf) < sint offset
                          then (h, Some IndexOutOfRange)
                          else applyData D
                                 (h[a := (h ! a)\<lparr> mi_Buffer := copy_at buf (nat (sint offset)) (Init d) \<rparr>])
                                 m ds)
                       else (h, Some NilDereference))
              | Inr _ \<Rightarrow> (h, Some TypeAssertion)))
      else applyData D h m ds)"

subsection \<open>Exports and import resolution\<close>

definition getExport :: "ModuleInstance \<Rightarrow> string \<Rightarrow> ExternType \<Rightarrow> error + ExportInstance" where
  "getExport m name et =
     (case mod_Exports m name of
        None \<Rightarrow> Inl (NotExported name (mod_Name m))
      | Some exp \<Rightarrow>
          if ei_Type exp \<noteq> et then Inl (ExportWrongType name (mod_Name m) (ei_Type exp) et)
          else Inr exp)"

text \<open>
  Modelled from the spec: \<open>FunctionType.EqualsSignature\<close> is not among the sources. The
  spec asks for "function signature equality" and gives function types "structural
  equality": the parameter lists are equal and the result lists are equal.
\<close>

definition EqualsSignature :: "FunctionType \<Rightarrow> ValueType list \<Rightarrow> ValueType list \<Rightarrow> bool" where
  "EqualsSignature t params results = (Params t = params \<and> Results t = results)"

definition errorInvalidImport :: "Import \<Rightarrow> nat \<Rightarrow> import_problem \<Rightarrow> error" where
  "errorInvalidImport i idx err = InvalidImport idx i err"

definition errorMinSizeMismatch :: "Import \<Rightarrow> nat \<Rightarrow> u32 \<Rightarrow> u32 \<Rightarrow> error" where
  "errorMinSizeMismatch i idx expected actual =
     errorInvalidImport i idx (MinimumSizeMismatch expected actual)"

definition errorNoMax :: "Import \<Rightarrow> nat \<Rightarrow> u32 \<Rightarrow> error" where
  "errorNoMax i idx expected = errorInvalidImport i idx (MaximumSizeNoMax expected)"

definition errorMaxSizeMismatch :: "Import \<Rightarrow> nat \<Rightarrow> u32 \<Rightarrow> u32 \<Rightarrow> error" where
  "errorMaxSizeMismatch i idx expected actual =
     errorInvalidImport i idx (MaximumSizeMismatch expected actual)"

text \<open>
  What \<open>resolveImports\<close> has collected so far: the imported functions, globals and
  tables, and the imported memory (the last one seen).
\<close>

type_synonym resolved =
  "FunctionInstance list \<times> GlobalInstance list \<times> TableInstance list \<times> mem_addr option"

text \<open>The body of the loop of \<open>resolveImports\<close>, for the import \<open>i\<close> at index \<open>idx\<close>.\<close>

definition resolveImport ::
    "Store \<Rightarrow> mem_heap \<Rightarrow> Module \<Rightarrow> nat \<Rightarrow> Import \<Rightarrow> resolved \<Rightarrow> error + resolved" where
  "resolveImport s h module idx i acc =
     (case acc of (importedFunctions, importedGlobals, importedTables, importedMemory) \<Rightarrow>
      case modules s (imp_Module i) of
        None \<Rightarrow> Inl (ModuleNotInstantiated (imp_Module i))
      | Some m \<Rightarrow>
         (case getExport m (imp_Name i) (imp_Type i) of
            Inl err \<Rightarrow> Inl err
          | Inr imported \<Rightarrow>
             (case imp_Type i of
                ExternTypeFunc \<Rightarrow>
                  (let typeIndex = imp_DescFunc i in
                   if unat typeIndex \<ge> length (TypeSection module)
                   then Inl (errorInvalidImport i idx FunctionTypeOutOfRange)
                   else
                     (let expectedType = TypeSection module ! unat (imp_DescFunc i) in
                      case ei_Function imported of
                        None \<Rightarrow> Inl (Panic NilDereference)
                      | Some importedFunction \<Rightarrow>
                          (let actualType = fi_Type importedFunction in
                           if \<not> EqualsSignature expectedType (Params actualType) (Results actualType)
                           then Inl (errorInvalidImport i idx
                                       (SignatureMismatch expectedType actualType))
                           else Inr (importedFunctions @ [importedFunction], importedGlobals,
                                     importedTables, importedMemory))))
              | ExternTypeTable \<Rightarrow>
                  (case (imp_DescTable i, ei_Table imported) of
                     (Some expected, Some importedTable) \<Rightarrow>
                       if tab_Min expected > ti_Min importedTable
                       then Inl (errorMinSizeMismatch i idx (tab_Min expected) (ti_Min importedTable))
                       else
                         (case tab_Max expected of
                            Some expectedMax \<Rightarrow>
                              (case ti_Max importedTable of
                                 None \<Rightarrow> Inl (errorNoMax i idx expectedMax)
                               | Some actualMax \<Rightarrow>
                                   if expectedMax < actualMax
                                   then Inl (errorMaxSizeMismatch i idx expectedMax actualMax)
                                   else Inr (importedFunctions, importedGlobals,
                                             importedTables @ [importedTable], importedMemory))
                          | None \<Rightarrow> Inr (importedFunctions, importedGlobals,
                                          importedTables @ [importedTable], importedMemory))
                   | _ \<Rightarrow> Inl (Panic NilDereference))
              | ExternTypeMemory \<Rightarrow>
                  (case (imp_DescMem i, ei_Memory imported) of
                     (Some expected, Some a) \<Rightarrow>
                       if a < length h then
                         (let importedMemory' = h ! a in
                          if mem_Min expected > mi_Min importedMemory'
                          then Inl (errorMinSizeMismatch i idx (mem_Min expected) (mi_Min importedMemory'))
                          else if mem_Max expected < mi_Max importedMemory'
                          then Inl (errorMaxSizeMismatch i idx (mem_Max expected) (mi_Max importedMemory'))
                          else Inr (importedFunctions, importedGlobals, importedTables, Some a))
                       else Inl (Panic NilDereference)
                   | _ \<Rightarrow> Inl (Panic NilDereference))
              | ExternTypeGlobal \<Rightarrow>
                  (case (imp_DescGlobal i, ei_Global imported) of
                     (Some expected, Some importedGlobal) \<Rightarrow>
                       if Mutable expected \<noteq> Mutable (gi_Type importedGlobal)
                       then Inl (errorInvalidImport i idx
                                   (MutabilityMismatch (Mutable expected)
                                      (Mutable (gi_Type importedGlobal))))
                       else if ValType expected \<noteq> ValType (gi_Type importedGlobal)
                       then Inl (errorInvalidImport i idx
                                   (ValueTypeMismatch (ValType expected)
                                      (ValType (gi_Type importedGlobal))))
                       else Inr (importedFunctions, importedGlobals @ [importedGlobal],
                                 importedTables, importedMemory)
                   | _ \<Rightarrow> Inl (Panic NilDereference)))))"

fun resolveImports_loop ::
    "Store \<Rightarrow> mem_heap \<Rightarrow> Module \<Rightarrow> nat \<Rightarrow> Import list \<Rightarrow> resolved \<Rightarrow> error + resolved" where
  "resolveImports_loop s h module idx [] acc = Inr acc"
| "resolveImports_loop s h module idx (i # rest) acc =
     (case resolveImport s h module idx i acc of
        Inl err \<Rightarrow> Inl err
      | Inr acc' \<Rightarrow> resolveImports_loop s h module (Suc idx) rest acc')"

text \<open>A \<open>range\<close> over a nil slice runs no iteration.\<close>

definition resolveImports :: "Store \<Rightarrow> mem_heap \<Rightarrow> Module \<Rightarrow> error + resolved" where
  "resolveImports s h module =
     resolveImports_loop s h module 0
       (case ImportSection module of None \<Rightarrow> [] | Some imports \<Rightarrow> imports)
       ([], [], [], None)"

subsection \<open>Building the module instance\<close>

text \<open>
  The loop of \<open>addSections\<close> over the module's own functions: function \<open>i\<close> gets the
  identifier of its type, \<open>typeIDs[module.FunctionSection[i]]\<close>. Both index expressions
  panic out of range. The back-pointer \<open>f.Module\<close> is not modelled.
\<close>

fun addFunctions ::
    "Module \<Rightarrow> FunctionTypeID list \<Rightarrow> nat \<Rightarrow> FunctionInstance list
       \<Rightarrow> panic + FunctionInstance list" where
  "addFunctions module typeIDs' i [] = Inr []"
| "addFunctions module typeIDs' i (f # fs) =
     (if i < length (FunctionSection module) then
        (let typeIndex = unat (FunctionSection module ! i) in
         if typeIndex < length typeIDs' then
           (case addFunctions module typeIDs' (Suc i) fs of
              Inl p \<Rightarrow> Inl p
            | Inr fs' \<Rightarrow> Inr (f\<lparr> fi_TypeID := typeIDs' ! typeIndex \<rparr> # fs'))
         else Inl IndexOutOfRange)
      else Inl IndexOutOfRange)"

fun buildExports_loop ::
    "ModuleInstance \<Rightarrow> Export list \<Rightarrow> (string \<rightharpoonup> ExportInstance)
       \<Rightarrow> panic + (string \<rightharpoonup> ExportInstance)" where
  "buildExports_loop m [] exports = Inr exports"
| "buildExports_loop m (exp # rest) exports =
     (let index = unat (exp_Index exp) in
      case exp_Type exp of
        ExternTypeFunc \<Rightarrow>
          if index < length (mod_Functions m) then
            buildExports_loop m rest
              (exports(exp_Name exp \<mapsto>
                 \<lparr> ei_Type = exp_Type exp, ei_Function = Some (mod_Functions m ! index),
                   ei_Global = None, ei_Memory = None, ei_Table = None \<rparr>))
          else Inl IndexOutOfRange
      | ExternTypeGlobal \<Rightarrow>
          if index < length (mod_Globals m) then
            buildExports_loop m rest
              (exports(exp_Name exp \<mapsto>
                 \<lparr> ei_Type = exp_Type exp, ei_Function = None,
                   ei_Global = Some (mod_Globals m ! index), ei_Memory = None, ei_Table = None \<rparr>))
          else Inl IndexOutOfRange
      | ExternTypeMemory \<Rightarrow>
          buildExports_loop m rest
            (exports(exp_Name exp \<mapsto>
               \<lparr> ei_Type = exp_Type exp, ei_Function = None, ei_Global = None,
                 ei_Memory = mod_Memory m, ei_Table = None \<rparr>))
      | ExternTypeTable \<Rightarrow>
          if index < length (mod_Tables m) then
            buildExports_loop m rest
              (exports(exp_Name exp \<mapsto>
                 \<lparr> ei_Type = exp_Type exp, ei_Function = None, ei_Global = None,
                   ei_Memory = None, ei_Table = Some (mod_Tables m ! index) \<rparr>))
          else Inl IndexOutOfRange)"

definition buildExports :: "ModuleInstance \<Rightarrow> Export list \<Rightarrow> panic + ModuleInstance" where
  "buildExports m exports =
     (case buildExports_loop m exports Map.empty of
        Inl p \<Rightarrow> Inl p
      | Inr e \<Rightarrow> Inr (m\<lparr> mod_Exports := e \<rparr>))"

definition buildDataInstances :: "ModuleInstance \<Rightarrow> DataSegment list \<Rightarrow> ModuleInstance" where
  "buildDataInstances m segments =
     m\<lparr> mod_DataInstances := mod_DataInstances m @ map Init segments \<rparr>"

text \<open>The parameters are in the order of the Go declaration: \<open>memory\<close>, then \<open>importedMemory\<close>.\<close>

definition addSections ::
    "ModuleInstance \<Rightarrow> Module \<Rightarrow> FunctionInstance list \<Rightarrow> FunctionInstance list
       \<Rightarrow> GlobalInstance list \<Rightarrow> GlobalInstance list \<Rightarrow> TableInstance list
       \<Rightarrow> mem_addr option \<Rightarrow> mem_addr option \<Rightarrow> FunctionType list \<Rightarrow> FunctionTypeID list
       \<Rightarrow> panic + ModuleInstance" where
  "addSections m module importedFunctions functions importedGlobals globals tables
       memory importedMemory types typeIDs' =
     (let m = m\<lparr> mod_Types := types, mod_TypeIDs := typeIDs' \<rparr>;
          m = m\<lparr> mod_Functions := mod_Functions m @ importedFunctions \<rparr> in
      case addFunctions module typeIDs' 0 functions of
        Inl p \<Rightarrow> Inl p
      | Inr fs \<Rightarrow>
          (let m = m\<lparr> mod_Functions := mod_Functions m @ fs \<rparr>;
               m = m\<lparr> mod_Globals := mod_Globals m @ importedGlobals \<rparr>;
               m = m\<lparr> mod_Globals := mod_Globals m @ globals \<rparr>;
               m = m\<lparr> mod_Tables := tables \<rparr>;
               m = (if importedMemory \<noteq> None then m\<lparr> mod_Memory := importedMemory \<rparr>
                    else m\<lparr> mod_Memory := memory \<rparr>) in
           case buildExports m (ExportSection module) of
             Inl p \<Rightarrow> Inl p
           | Inr m \<Rightarrow> Inr (buildDataInstances m (DataSection module))))"

subsection \<open>Instantiate\<close>

text \<open>
  What the code that is not among the sources returns during one call of \<open>Instantiate\<close>:
  \<open>Module.buildTables\<close>, \<open>buildGlobals\<close>, \<open>buildMemory\<close>, \<open>buildFunctions\<close> or
  \<open>buildHostFunctions\<close>, \<open>Engine.NewModuleEngine\<close>, and the engine's call of the start
  function, which may write to memories and returns an error or nil. The start function
  is taken not to call back into the store.
\<close>

record outcomes =
  buildTables_result :: "error + TableInstance list"
  buildGlobals_result :: "GlobalInstance list"
  buildMemory_result :: "MemoryInstance option"
  buildFunctions_result :: "FunctionInstance list"
  NewModuleEngine_result :: "error option"
  Call_result :: "FunctionInstance \<Rightarrow> mem_heap \<Rightarrow> mem_heap \<times> error option"

text \<open>
  The error paths of \<open>Instantiate\<close> that call \<open>s.deleteModule(name)\<close> before they
  return. A panic is not one of them: it unwinds past the call.
\<close>

definition release_on_error :: "Store \<Rightarrow> string \<Rightarrow> error \<Rightarrow> Store" where
  "release_on_error s name err = (case err of Panic p \<Rightarrow> s | _ \<Rightarrow> deleteModule s name)"

definition new_ModuleInstance :: "string \<Rightarrow> ModuleInstance" where
  "new_ModuleInstance name =
     \<lparr> mod_Name = name, mod_Exports = Map.empty, mod_Functions = [], mod_Globals = [],
       mod_Memory = None, mod_Tables = [], mod_Types = [], mod_TypeIDs = [],
       mod_DataInstances = [] \<rparr>"

text \<open>
  \<open>Instantiate\<close> in two parts. The first is its body up to the call of \<open>addSections\<close>:
  it reserves the name, interns the types, resolves the imports, takes the tables,
  globals, memory and functions built outside, and assembles the instance. A memory
  built for the module is allocated at the end of the heap. The call passes
  \<open>importedMemory\<close> where \<open>addSections\<close> declares \<open>memory\<close>, and \<open>memory\<close> where it
  declares \<open>importedMemory\<close>.
\<close>

definition Instantiate_build ::
    "(FunctionType \<Rightarrow> string) \<Rightarrow> outcomes \<Rightarrow> Store \<Rightarrow> mem_heap \<Rightarrow> Module \<Rightarrow> string
       \<Rightarrow> Store \<times> mem_heap \<times> (error + ModuleInstance)" where
  "Instantiate_build String O' s h module name =
     (case requireModuleName s name of
        (s, Some err) \<Rightarrow> (s, h, Inl err)
      | (s, None) \<Rightarrow>
     (case getFunctionTypeIDs String s (TypeSection module) of
        (s, Inl err) \<Rightarrow> (deleteModule s name, h, Inl err)
      | (s, Inr typeIDs') \<Rightarrow>
     (case resolveImports s h module of
        Inl err \<Rightarrow> (release_on_error s name err, h, Inl err)
      | Inr (importedFunctions, importedGlobals, importedTables, importedMemory) \<Rightarrow>
     (case buildTables_result O' of
        Inl err \<Rightarrow> (deleteModule s name, h, Inl err)
      | Inr tables \<Rightarrow>
     (let globals = buildGlobals_result O';
          (memory, h) = (case buildMemory_result O' of
                           None \<Rightarrow> (None, h)
                         | Some mi \<Rightarrow> (Some (length h), h @ [mi]));
          functions = buildFunctions_result O';
          m = new_ModuleInstance name in
      case addSections m module importedFunctions functions importedGlobals globals tables
             importedMemory memory (TypeSection module) typeIDs' of
        Inl p \<Rightarrow> (s, h, Inl (Panic p))
      | Inr m \<Rightarrow> (s, h, Inr m))))))"

text \<open>
  The second part, from \<open>validateData\<close> on: validate the data segments, create the
  module engine, apply the data segments, call the start function, add the module.
  (Between the engine and the data, \<open>buildElementInstances\<close> fills the element instances
  from the engine; they are not modelled.)
\<close>

definition Instantiate_finish ::
    "codec \<Rightarrow> outcomes \<Rightarrow> Store \<Rightarrow> mem_heap \<Rightarrow> Module \<Rightarrow> string \<Rightarrow> ModuleInstance
       \<Rightarrow> Store \<times> mem_heap \<times> (error + ModuleInstance)" where
  "Instantiate_finish D O' s h module name m =
     (case validateData D h m (DataSection module) of
        Some err \<Rightarrow> (release_on_error s name err, h, Inl err)
      | None \<Rightarrow>
     (case NewModuleEngine_result O' of
        Some err \<Rightarrow> (s, h, Inl (CompilationFailed err))
      | None \<Rightarrow>
     (case applyData D h m (DataSection module) of
        (h, Some p) \<Rightarrow> (s, h, Inl (Panic p))
      | (h, None) \<Rightarrow>
     (case StartSection module of
        None \<Rightarrow> (addModule s m, h, Inr m)
      | Some funcIdx \<Rightarrow>
          if unat funcIdx < length (mod_Functions m) then
            (let f = mod_Functions m ! unat funcIdx in
             case Call_result O' f h of
               (h, Some err) \<Rightarrow> (deleteModule s name, h, Inl (StartFailed funcIdx err))
             | (h, None) \<Rightarrow> (addModule s m, h, Inr m))
          else (s, h, Inl (Panic IndexOutOfRange))))))"

definition Instantiate ::
    "codec \<Rightarrow> (FunctionType \<Rightarrow> string) \<Rightarrow> outcomes \<Rightarrow> Store \<Rightarrow> mem_heap \<Rightarrow> Module \<Rightarrow> string
       \<Rightarrow> Store \<times> mem_heap \<times> (error + ModuleInstance)" where
  "Instantiate D String O' s h module name =
     (case Instantiate_build String O' s h module name of
        (s, h, Inl err) \<Rightarrow> (s, h, Inl err)
      | (s, h, Inr m) \<Rightarrow> Instantiate_finish D O' s h module name m)"

subsection \<open>Data segments, in the words of the specification\<close>

text \<open>
  An active segment is in bounds when its destination range
  \<open>[offset, offset + len(init))\<close> lies inside the buffer of the instance's memory; a
  passive segment has no destination.
\<close>

definition data_in_bounds :: "codec \<Rightarrow> mem_heap \<Rightarrow> ModuleInstance \<Rightarrow> DataSegment \<Rightarrow> bool" where
  "data_in_bounds D h m d =
     (case OffsetExpression d of
        None \<Rightarrow> True
      | Some expr \<Rightarrow>
          (case executeConstExpression D (mod_Globals m) expr of
             Inr (ValueI32 w) \<Rightarrow>
               (case mod_Memory m of
                  Some a \<Rightarrow> a < length h \<and> 0 \<le> sint w
                           \<and> sint w + int (length (Init d)) \<le> int (length (mi_Buffer (h ! a)))
                | None \<Rightarrow> False)
           | _ \<Rightarrow> False))"

text \<open>
  What validation of the module ensures for the data segments of an instance: the
  instance has a memory and the offset of every active segment is an \<open>i32\<close> constant
  expression.
\<close>

definition data_well_formed :: "codec \<Rightarrow> mem_heap \<Rightarrow> ModuleInstance \<Rightarrow> DataSegment \<Rightarrow> bool" where
  "data_well_formed D h m d =
     (case OffsetExpression d of
        None \<Rightarrow> True
      | Some expr \<Rightarrow>
          (case executeConstExpression D (mod_Globals m) expr of
             Inr (ValueI32 w) \<Rightarrow> (case mod_Memory m of Some a \<Rightarrow> a < length h | None \<Rightarrow> False)
           | _ \<Rightarrow> False))"

text \<open>
  The bytes of a data segment are fewer than \<open>2 ^ 62\<close>: with 64 bits of \<open>int\<close>, the sum
  of an \<open>int32\<close> offset and their number does not wrap around. A slice that a 64-bit
  platform can hold is far shorter.
\<close>

definition data_length_fits :: "DataSegment \<Rightarrow> bool" where
  "data_length_fits d = (length (Init d) < 2 ^ 62)"

text \<open>Storing all the bytes \<open>bs\<close> at \<open>offset\<close>, and doing so for every active segment in turn.\<close>

definition store_bytes :: "byte list \<Rightarrow> nat \<Rightarrow> byte list \<Rightarrow> byte list" where
  "store_bytes buf offset bs = take offset buf @ bs @ drop (offset + length bs) buf"

fun write_segments :: "codec \<Rightarrow> ModuleInstance \<Rightarrow> mem_heap \<Rightarrow> DataSegment list \<Rightarrow> mem_heap" where
  "write_segments D m h [] = h"
| "write_segments D m h (d # ds) =
     (case (OffsetExpression d, mod_Memory m) of
        (Some expr, Some a) \<Rightarrow>
          (case executeConstExpression D (mod_Globals m) expr of
             Inr (ValueI32 w) \<Rightarrow>
               write_segments D m
                 (h[a := (h ! a)\<lparr> mi_Buffer := store_bytes (mi_Buffer (h ! a)) (nat (sint w)) (Init d) \<rparr>])
                 ds
           | _ \<Rightarrow> write_segments D m h ds)
      | _ \<Rightarrow> write_segments D m h ds)"

subsection \<open>Table imports, in the words of the specification\<close>

text \<open>
  The limits of an exported table match a declared table import when the table's min is
  at least the declared min and, where a max is declared, the table has a max and it is
  at most the declared one.
\<close>

definition table_limits_match :: "Table \<Rightarrow> TableInstance \<Rightarrow> bool" where
  "table_limits_match expected actual =
     (tab_Min expected \<le> ti_Min actual
      \<and> (case tab_Max expected of
           None \<Rightarrow> True
         | Some expectedMax \<Rightarrow>
             (case ti_Max actual of None \<Rightarrow> False | Some actualMax \<Rightarrow> actualMax \<le> expectedMax)))"

text \<open>The three errors of the table case of \<open>resolveImports\<close>, for an import and its index.\<close>

definition table_link_error :: "nat \<Rightarrow> Import \<Rightarrow> Table \<Rightarrow> TableInstance \<Rightarrow> error \<Rightarrow> bool" where
  "table_link_error idx i expected actual err =
     (err = InvalidImport idx i (MinimumSizeMismatch (tab_Min expected) (ti_Min actual))
      \<or> (case tab_Max expected of
            None \<Rightarrow> False
          | Some expectedMax \<Rightarrow>
              err = InvalidImport idx i (MaximumSizeNoMax expectedMax)
              \<or> (case ti_Max actual of
                    None \<Rightarrow> False
                  | Some actualMax \<Rightarrow>
                      err = InvalidImport idx i (MaximumSizeMismatch expectedMax actualMax))))"

section \<open>Module configuration (config.go)\<close>

subsection \<open>The Go heap of a module configuration\<close>

text \<open>
  A \<open>moduleConfig\<close> holds maps and a slice, and \<open>ret := *c\<close> copies the struct but not
  what its maps and slices point to. The maps, the backing arrays of the slices, and the
  \<open>Module\<close> and \<open>Import\<close> structs that \<open>replaceImports\<close> reads through pointers are
  objects of a heap: one list per Go type, an address being an index, and allocation
  appending to the list. A field that holds a map or a pointer holds an address, or
  \<open>None\<close> for nil.
\<close>

type_synonym addr = nat

text \<open>\<open>wasm.FileEntry\<close> with its fields \<open>Path\<close> and \<open>FS\<close>; an \<open>fs.FS\<close> is a handle, or nil.\<close>

record FileEntry =
  fe_Path :: string
  fe_FS :: "nat option"

text \<open>
  A \<open>*wasm.Module\<close> as \<open>replaceImports\<close> sees it: the \<open>ImportSection\<close>, a slice of
  pointers to \<open>Import\<close> (the address of its backing array, \<open>None\<close> for a nil slice),
  and the other fields, which the shallow copy \<open>ret := *module\<close> carries over.
\<close>

record 'r Module_obj =
  obj_ImportSection :: "addr option"
  obj_rest :: 'r

record 'r heap =
  h_strings :: "string list list"
  h_environKeys :: "(string, nat) fmap list"
  h_preopens :: "(u32, FileEntry) fmap list"
  h_preopenPaths :: "(string, u32) fmap list"
  h_replacedImports :: "(string, string \<times> string) fmap list"
  h_replacedImportModules :: "(string, string) fmap list"
  h_modules :: "'r Module_obj list"
  h_importArrays :: "addr list list"
  h_imports :: "Import list"

definition empty_heap :: "'r heap" where
  "empty_heap =
     \<lparr> h_strings = [], h_environKeys = [], h_preopens = [], h_preopenPaths = [],
       h_replacedImports = [], h_replacedImportModules = [], h_modules = [],
       h_importArrays = [], h_imports = [] \<rparr>"

text \<open>
  A \<open>[]string\<close>: the address of the backing array (\<open>None\<close> for a nil slice) and the
  length. The slices of config.go start at the first element of their array, so the
  capacity is the length of the array.
\<close>

record string_slice =
  sl_array :: "addr option"
  sl_len :: nat

text \<open>
  The fields of \<open>moduleConfig\<close>, with the prefix \<open>mc_\<close>. The readers and writers
  \<open>stdin\<close>, \<open>stdout\<close> and \<open>stderr\<close> are handles.
\<close>

record moduleConfig =
  mc_name :: string
  mc_startFunctions :: "string list"
  mc_stdin :: "nat option"
  mc_stdout :: "nat option"
  mc_stderr :: "nat option"
  mc_args :: "string list"
  mc_environ :: string_slice
  mc_environKeys :: "addr option"
  mc_preopenFD :: u32
  mc_preopens :: "addr option"
  mc_preopenPaths :: "addr option"
  mc_replacedImports :: "addr option"
  mc_replacedImportModules :: "addr option"

text \<open>\<open>&moduleConfig{}\<close>, the zero value that the tests start from.\<close>

definition zero_moduleConfig :: moduleConfig where
  "zero_moduleConfig =
     \<lparr> mc_name = [], mc_startFunctions = [], mc_stdin = None, mc_stdout = None,
       mc_stderr = None, mc_args = [], mc_environ = \<lparr> sl_array = None, sl_len = 0 \<rparr>,
       mc_environKeys = None, mc_preopenFD = 0, mc_preopens = None, mc_preopenPaths = None,
       mc_replacedImports = None, mc_replacedImportModules = None \<rparr>"

definition NewModuleConfig :: "'r heap \<Rightarrow> moduleConfig \<times> 'r heap" where
  "NewModuleConfig h =
     (zero_moduleConfig
        \<lparr> mc_startFunctions := [''_start''],
          mc_environKeys := Some (length (h_environKeys h)),
          mc_preopenFD := 3,
          mc_preopens := Some (length (h_preopens h)),
          mc_preopenPaths := Some (length (h_preopenPaths h)) \<rparr>,
      h\<lparr> h_environKeys := h_environKeys h @ [fmempty],
         h_preopens := h_preopens h @ [fmempty],
         h_preopenPaths := h_preopenPaths h @ [fmempty] \<rparr>)"

subsection \<open>The options of a module configuration\<close>

text \<open>The options that set a scalar or replace a slice: the copy shares nothing they touch.\<close>

definition WithArgs :: "moduleConfig \<Rightarrow> string list \<Rightarrow> 'r heap \<Rightarrow> moduleConfig \<times> 'r heap" where
  "WithArgs c args h = (c\<lparr> mc_args := args \<rparr>, h)"

definition WithName :: "moduleConfig \<Rightarrow> string \<Rightarrow> 'r heap \<Rightarrow> moduleConfig \<times> 'r heap" where
  "WithName c n h = (c\<lparr> mc_name := n \<rparr>, h)"

definition WithStartFunctions ::
    "moduleConfig \<Rightarrow> string list \<Rightarrow> 'r heap \<Rightarrow> moduleConfig \<times> 'r heap" where
  "WithStartFunctions c startFunctions h = (c\<lparr> mc_startFunctions := startFunctions \<rparr>, h)"

text \<open>
  \<open>append(s, key, value)\<close>. With room in the backing array the two strings are written
  after the slice's last element, in place. Otherwise a larger array is allocated, the
  elements are copied and the rest is filled with empty strings; how much larger is the
  runtime's choice, the parameter \<open>grow\<close> (of the old capacity and the needed length),
  never less than needed.
\<close>

definition append2 ::
    "(nat \<Rightarrow> nat \<Rightarrow> nat) \<Rightarrow> string_slice \<Rightarrow> string \<Rightarrow> string \<Rightarrow> 'r heap \<Rightarrow> string_slice \<times> 'r heap" where
  "append2 grow s key val h =
     (let arr = (case sl_array s of None \<Rightarrow> [] | Some a \<Rightarrow> h_strings h ! a);
          needed = sl_len s + 2 in
      if needed \<le> length arr then
        (case sl_array s of
           None \<Rightarrow> (s, h)
         | Some a \<Rightarrow>
             (s\<lparr> sl_len := needed \<rparr>,
              h\<lparr> h_strings := (h_strings h)[a := arr[sl_len s := key, Suc (sl_len s) := val]] \<rparr>))
      else
        (let newcap = max needed (grow (length arr) needed);
             arr' = take (sl_len s) arr @ [key, val] @ replicate (newcap - needed) [] in
         (\<lparr> sl_array = Some (length (h_strings h)), sl_len = needed \<rparr>,
          h\<lparr> h_strings := h_strings h @ [arr'] \<rparr>)))"

text \<open>
  \<open>WithEnv\<close>. Reading a nil map finds nothing; writing to one panics. The index
  expression \<open>ret.environ[i+1]\<close> is checked against the slice's length.
\<close>

definition WithEnv ::
    "(nat \<Rightarrow> nat \<Rightarrow> nat) \<Rightarrow> moduleConfig \<Rightarrow> string \<Rightarrow> string \<Rightarrow> 'r heap
       \<Rightarrow> panic + (moduleConfig \<times> 'r heap)" where
  "WithEnv grow c key val h =
     (let ret = c in
      case (case mc_environKeys ret of
              None \<Rightarrow> None
            | Some m \<Rightarrow> fmlookup (h_environKeys h ! m) key) of
        Some i \<Rightarrow>
          (case sl_array (mc_environ ret) of
             Some a \<Rightarrow>
               if i + 1 < sl_len (mc_environ ret) then
                 Inr (ret, h\<lparr> h_strings := (h_strings h)[a := (h_strings h ! a)[i + 1 := val]] \<rparr>)
               else Inl IndexOutOfRange
           | None \<Rightarrow> Inl IndexOutOfRange)
      | None \<Rightarrow>
          (case mc_environKeys ret of
             None \<Rightarrow> Inl NilMapWrite
           | Some m \<Rightarrow>
               (let h = h\<lparr> h_environKeys :=
                           (h_environKeys h)[m := fmupd key (sl_len (mc_environ ret))
                                                    (h_environKeys h ! m)] \<rparr>;
                    (s, h) = append2 grow (mc_environ ret) key val h in
                Inr (ret\<lparr> mc_environ := s \<rparr>, h))))"

text \<open>\<open>setFS\<close>, on the copy \<open>ret\<close>: it returns the copy, whose \<open>preopenFD\<close> it may advance.\<close>

definition setFS ::
    "moduleConfig \<Rightarrow> string \<Rightarrow> nat option \<Rightarrow> 'r heap \<Rightarrow> panic + (moduleConfig \<times> 'r heap)" where
  "setFS c path fs h =
     (let entry = \<lparr> fe_Path = path, fe_FS = fs \<rparr> in
      case (case mc_preopenPaths c of
              None \<Rightarrow> None
            | Some m \<Rightarrow> fmlookup (h_preopenPaths h ! m) path) of
        Some fd \<Rightarrow>
          (case mc_preopens c of
             None \<Rightarrow> Inl NilMapWrite
           | Some p \<Rightarrow>
               Inr (c, h\<lparr> h_preopens := (h_preopens h)[p := fmupd fd entry (h_preopens h ! p)] \<rparr>))
      | None \<Rightarrow>
          (case (mc_preopens c, mc_preopenPaths c) of
             (Some p, Some m) \<Rightarrow>
               Inr (c\<lparr> mc_preopenFD := mc_preopenFD c + 1 \<rparr>,
                    h\<lparr> h_preopens :=
                         (h_preopens h)[p := fmupd (mc_preopenFD c) entry (h_preopens h ! p)],
                       h_preopenPaths :=
                         (h_preopenPaths h)[m := fmupd path (mc_preopenFD c) (h_preopenPaths h ! m)] \<rparr>)
           | _ \<Rightarrow> Inl NilMapWrite))"

definition WithFS ::
    "moduleConfig \<Rightarrow> nat option \<Rightarrow> 'r heap \<Rightarrow> panic + (moduleConfig \<times> 'r heap)" where
  "WithFS c fs h = setFS c ''/'' fs h"

definition WithWorkDirFS ::
    "moduleConfig \<Rightarrow> nat option \<Rightarrow> 'r heap \<Rightarrow> panic + (moduleConfig \<times> 'r heap)" where
  "WithWorkDirFS c fs h = setFS c ''.'' fs h"

text \<open>The key of \<open>replacedImports\<close>: the module, a NUL character, the name.\<close>

definition NUL :: char where
  "NUL = CHR 0x00"

definition import_key :: "string \<Rightarrow> string \<Rightarrow> string" where
  "import_key oldModule oldName = oldModule @ [NUL] @ oldName"

definition WithImport ::
    "moduleConfig \<Rightarrow> string \<Rightarrow> string \<Rightarrow> string \<Rightarrow> string \<Rightarrow> 'r heap \<Rightarrow> moduleConfig \<times> 'r heap" where
  "WithImport c oldModule oldName newModule newName h =
     (let (ret, h) =
            (case mc_replacedImports c of
               None \<Rightarrow> (c\<lparr> mc_replacedImports := Some (length (h_replacedImports h)) \<rparr>,
                         h\<lparr> h_replacedImports := h_replacedImports h @ [fmempty] \<rparr>)
             | Some m \<Rightarrow> (c, h)) in
      case mc_replacedImports ret of
        None \<Rightarrow> (ret, h)
      | Some m \<Rightarrow>
          (ret, h\<lparr> h_replacedImports :=
                    (h_replacedImports h)[m := fmupd (import_key oldModule oldName)
                                               (newModule, newName) (h_replacedImports h ! m)] \<rparr>))"

definition WithImportModule ::
    "moduleConfig \<Rightarrow> string \<Rightarrow> string \<Rightarrow> 'r heap \<Rightarrow> moduleConfig \<times> 'r heap" where
  "WithImportModule c oldModule newModule h =
     (let (ret, h) =
            (case mc_replacedImportModules c of
               None \<Rightarrow> (c\<lparr> mc_replacedImportModules := Some (length (h_replacedImportModules h)) \<rparr>,
                         h\<lparr> h_replacedImportModules := h_replacedImportModules h @ [fmempty] \<rparr>)
             | Some m \<Rightarrow> (c, h)) in
      case mc_replacedImportModules ret of
        None \<Rightarrow> (ret, h)
      | Some m \<Rightarrow>
          (ret, h\<lparr> h_replacedImportModules :=
                    (h_replacedImportModules h)[m := fmupd oldModule newModule
                                                     (h_replacedImportModules h ! m)] \<rparr>))"

text \<open>
  What a configuration shows of its environment and of its preopened file systems: the
  elements of its \<open>environ\<close> slice, and its \<open>preopens\<close> map.
\<close>

definition environ_of :: "'r heap \<Rightarrow> moduleConfig \<Rightarrow> string list" where
  "environ_of h c =
     (case sl_array (mc_environ c) of
        None \<Rightarrow> []
      | Some a \<Rightarrow> take (sl_len (mc_environ c)) (h_strings h ! a))"

definition preopens_of :: "'r heap \<Rightarrow> moduleConfig \<Rightarrow> (u32, FileEntry) fmap" where
  "preopens_of h c = (case mc_preopens c of None \<Rightarrow> fmempty | Some p \<Rightarrow> h_preopens h ! p)"

definition replacedImports_of :: "'r heap \<Rightarrow> moduleConfig \<Rightarrow> (string, string \<times> string) fmap" where
  "replacedImports_of h c =
     (case mc_replacedImports c of None \<Rightarrow> fmempty | Some m \<Rightarrow> h_replacedImports h ! m)"

subsection \<open>replaceImports\<close>

text \<open>
  \<open>strings.IndexByte(s, 0)\<close>: the index of the first NUL of \<open>s\<close>, \<open>None\<close> for -1. The
  slice expressions \<open>oldImport[0:nulIdx]\<close> and \<open>oldImport[nulIdx+1:]\<close> panic for -1.
\<close>

definition IndexByte :: "string \<Rightarrow> char \<Rightarrow> nat option" where
  "IndexByte s c = (if c \<in> set s then Some (length (takeWhile (\<lambda>x. x \<noteq> c) s)) else None)"

text \<open>
  The inner loops, \<open>for i, imp := range replacedImports\<close>. An iteration reads element
  \<open>i\<close> and then writes element \<open>i\<close>, so the model walks the elements \<open>ps\<close> in order and
  returns the new elements. \<open>cp := *imp\<close> with \<open>&cp\<close> stored allocates an \<open>Import\<close>; the
  \<open>Import\<close> objects \<open>objs\<close> grow by it. A nil or dangling \<open>imp\<close> panics when its field is
  read.
\<close>

fun replaceModule_loop ::
    "string \<Rightarrow> string \<Rightarrow> addr list \<Rightarrow> Import list \<Rightarrow> bool
       \<Rightarrow> panic + (addr list \<times> Import list \<times> bool)" where
  "replaceModule_loop oldModule newModule [] objs changed = Inr ([], objs, changed)"
| "replaceModule_loop oldModule newModule (p # ps) objs changed =
     (if p < length objs then
        (let imp = objs ! p in
         if imp_Module imp = oldModule then
           (let cp = imp\<lparr> imp_Module := newModule \<rparr> in
            case replaceModule_loop oldModule newModule ps (objs @ [cp]) True of
              Inl e \<Rightarrow> Inl e
            | Inr (qs, objs', changed') \<Rightarrow> Inr (length objs # qs, objs', changed'))
         else
           (case replaceModule_loop oldModule newModule ps objs changed of
              Inl e \<Rightarrow> Inl e
            | Inr (qs, objs', changed') \<Rightarrow> Inr (p # qs, objs', changed')))
      else Inl NilDereference)"

fun replaceImport_loop ::
    "string \<Rightarrow> string \<times> string \<Rightarrow> addr list \<Rightarrow> Import list \<Rightarrow> bool
       \<Rightarrow> panic + (addr list \<times> Import list \<times> bool)" where
  "replaceImport_loop oldImport newImport [] objs changed = Inr ([], objs, changed)"
| "replaceImport_loop oldImport newImport (p # ps) objs changed =
     (case IndexByte oldImport NUL of
        None \<Rightarrow> Inl IndexOutOfRange
      | Some nulIdx \<Rightarrow>
          (let oldModule = take nulIdx oldImport;
               oldName = drop (nulIdx + 1) oldImport in
           if p < length objs then
             (let imp = objs ! p in
              if imp_Module imp = oldModule \<and> imp_Name imp = oldName then
                (let cp = imp\<lparr> imp_Module := fst newImport, imp_Name := snd newImport \<rparr> in
                 case replaceImport_loop oldImport newImport ps (objs @ [cp]) True of
                   Inl e \<Rightarrow> Inl e
                 | Inr (qs, objs', changed') \<Rightarrow> Inr (length objs # qs, objs', changed'))
              else
                (case replaceImport_loop oldImport newImport ps objs changed of
                   Inl e \<Rightarrow> Inl e
                 | Inr (qs, objs', changed') \<Rightarrow> Inr (p # qs, objs', changed')))
           else Inl NilDereference))"

text \<open>
  The outer loops range over a Go map, whose iteration order is not specified: the keys
  come in the order \<open>ks\<close>, a parameter, and a string that is not a key of the map is
  not visited.
\<close>

fun replaceModules_pass ::
    "(string, string) fmap \<Rightarrow> string list \<Rightarrow> addr list \<Rightarrow> Import list \<Rightarrow> bool
       \<Rightarrow> panic + (addr list \<times> Import list \<times> bool)" where
  "replaceModules_pass m [] arr objs changed = Inr (arr, objs, changed)"
| "replaceModules_pass m (k # ks) arr objs changed =
     (case fmlookup m k of
        None \<Rightarrow> replaceModules_pass m ks arr objs changed
      | Some newModule \<Rightarrow>
          (case replaceModule_loop k newModule arr objs changed of
             Inl e \<Rightarrow> Inl e
           | Inr (arr', objs', changed') \<Rightarrow> replaceModules_pass m ks arr' objs' changed'))"

fun replaceImports_pass ::
    "(string, string \<times> string) fmap \<Rightarrow> string list \<Rightarrow> addr list \<Rightarrow> Import list \<Rightarrow> bool
       \<Rightarrow> panic + (addr list \<times> Import list \<times> bool)" where
  "replaceImports_pass m [] arr objs changed = Inr (arr, objs, changed)"
| "replaceImports_pass m (k # ks) arr objs changed =
     (case fmlookup m k of
        None \<Rightarrow> replaceImports_pass m ks arr objs changed
      | Some newImport \<Rightarrow>
          (case replaceImport_loop k newImport arr objs changed of
             Inl e \<Rightarrow> Inl e
           | Inr (arr', objs', changed') \<Rightarrow> replaceImports_pass m ks arr' objs' changed'))"

text \<open>
  \<open>replaceImports\<close>, for the key orders \<open>ks1\<close> of \<open>replacedImportModules\<close> and \<open>ks2\<close> of
  \<open>replacedImports\<close>. The copies \<open>ret\<close> and \<open>replacedImports\<close> are locals until
  \<open>return &ret\<close>, where the new array and the new \<open>Module\<close> are allocated. A range over
  a nil map runs no iteration. The result is the heap after the call and the returned
  pointer, or the panic.
\<close>

definition replaceImports ::
    "string list \<Rightarrow> string list \<Rightarrow> moduleConfig \<Rightarrow> addr \<Rightarrow> 'r heap \<Rightarrow> 'r heap \<times> (panic + addr)" where
  "replaceImports ks1 ks2 c module h =
     (if mc_replacedImportModules c = None \<and> mc_replacedImports c = None then (h, Inr module)
      else if \<not> module < length (h_modules h) then (h, Inl NilDereference)
      else
        (case obj_ImportSection (h_modules h ! module) of
           None \<Rightarrow> (h, Inr module)
         | Some a \<Rightarrow>
             (let replacedImports = h_importArrays h ! a;
                  modulesMap = (case mc_replacedImportModules c of
                                  None \<Rightarrow> fmempty
                                | Some m \<Rightarrow> h_replacedImportModules h ! m);
                  importsMap = (case mc_replacedImports c of
                                  None \<Rightarrow> fmempty
                                | Some m \<Rightarrow> h_replacedImports h ! m) in
              case replaceModules_pass modulesMap ks1 replacedImports (h_imports h) False of
                Inl e \<Rightarrow> (h, Inl e)
              | Inr (arr1, objs1, changed1) \<Rightarrow>
                  (case replaceImports_pass importsMap ks2 arr1 objs1 changed1 of
                     Inl e \<Rightarrow> (h\<lparr> h_imports := objs1 \<rparr>, Inl e)
                   | Inr (arr2, objs2, changed2) \<Rightarrow>
                       if \<not> changed2 then (h\<lparr> h_imports := objs2 \<rparr>, Inr module)
                       else
                         (h\<lparr> h_imports := objs2,
                             h_importArrays := h_importArrays h @ [arr2],
                             h_modules := h_modules h @
                               [(h_modules h ! module)
                                  \<lparr> obj_ImportSection := Some (length (h_importArrays h)) \<rparr>] \<rparr>,
                          Inr (length (h_modules h)))))))"

subsection \<open>Rewriting an import list, in the words of the documentation\<close>

text \<open>What one replacement does to one import.\<close>

definition replace_module :: "string \<Rightarrow> string \<Rightarrow> Import \<Rightarrow> Import" where
  "replace_module oldModule newModule imp =
     (if imp_Module imp = oldModule then imp\<lparr> imp_Module := newModule \<rparr> else imp)"

definition import_matches :: "string \<Rightarrow> Import \<Rightarrow> bool" where
  "import_matches key imp =
     (case IndexByte key NUL of
        None \<Rightarrow> False
      | Some n \<Rightarrow> imp_Module imp = take n key \<and> imp_Name imp = drop (n + 1) key)"

definition replace_import :: "string \<Rightarrow> string \<times> string \<Rightarrow> Import \<Rightarrow> Import" where
  "replace_import key new imp =
     (if import_matches key imp then imp\<lparr> imp_Module := fst new, imp_Name := snd new \<rparr> else imp)"

text \<open>The entries of a map in the order its keys are visited.\<close>

definition entries :: "('k, 'v) fmap \<Rightarrow> 'k list \<Rightarrow> ('k \<times> 'v) list" where
  "entries m ks = List.map_filter (\<lambda>k. map_option (Pair k) (fmlookup m k)) ks"

definition apply_module_replacements :: "(string \<times> string) list \<Rightarrow> Import \<Rightarrow> Import" where
  "apply_module_replacements es imp = foldl (\<lambda>i (old, new). replace_module old new i) imp es"

definition apply_import_replacements ::
    "(string \<times> string \<times> string) list \<Rightarrow> Import \<Rightarrow> Import" where
  "apply_import_replacements es imp = foldl (\<lambda>i (key, new). replace_import key new i) imp es"

text \<open>
  The two orders: whole-module replacements first and then the per-import ones, as the
  documentation of \<open>WithImport\<close> has it, and the reverse.
\<close>

definition modules_then_imports ::
    "(string \<times> string) list \<Rightarrow> (string \<times> string \<times> string) list \<Rightarrow> Import list \<Rightarrow> Import list" where
  "modules_then_imports es1 es2 imps =
     map (\<lambda>imp. apply_import_replacements es2 (apply_module_replacements es1 imp)) imps"

definition imports_then_modules ::
    "(string \<times> string) list \<Rightarrow> (string \<times> string \<times> string) list \<Rightarrow> Import list \<Rightarrow> Import list" where
  "imports_then_modules es1 es2 imps =
     map (\<lambda>imp. apply_module_replacements es1 (apply_import_replacements es2 imp)) imps"

text \<open>
  The \<open>Import\<close> values behind an array of pointers, and whether the pointers are
  allocated.
\<close>

definition deref :: "Import list \<Rightarrow> addr list \<Rightarrow> Import list" where
  "deref objs arr = map (\<lambda>p. objs ! p) arr"

definition allocated :: "Import list \<Rightarrow> addr list \<Rightarrow> bool" where
  "allocated objs arr = list_all (\<lambda>p. p < length objs) arr"

text \<open>Some entry of a list of replacements matches some import of a list.\<close>

definition module_match :: "(string \<times> string) list \<Rightarrow> Import list \<Rightarrow> bool" where
  "module_match es imps = (\<exists>imp\<in>set imps. imp_Module imp \<in> fst ` set es)"

definition import_match :: "(string \<times> string \<times> string) list \<Rightarrow> Import list \<Rightarrow> bool" where
  "import_match es imps = (\<exists>imp\<in>set imps. \<exists>key\<in>fst ` set es. import_matches key imp)"

text \<open>The import list a module pointer leads to, and the maps of a configuration.\<close>

definition Module_imports :: "'r heap \<Rightarrow> addr \<Rightarrow> Import list option" where
  "Module_imports h module =
     (case obj_ImportSection (h_modules h ! module) of
        None \<Rightarrow> None
      | Some a \<Rightarrow> Some (deref (h_imports h) (h_importArrays h ! a)))"

definition replacedImportModules_of :: "'r heap \<Rightarrow> moduleConfig \<Rightarrow> (string, string) fmap" where
  "replacedImportModules_of h c =
     (case mc_replacedImportModules c of None \<Rightarrow> fmempty | Some m \<Rightarrow> h_replacedImportModules h ! m)"

text \<open>
  A module pointer is valid in a heap when it, the backing array of its import section
  and the pointers in that array are allocated.
\<close>

definition valid_module :: "'r heap \<Rightarrow> addr \<Rightarrow> bool" where
  "valid_module h module =
     (module < length (h_modules h)
      \<and> (case obj_ImportSection (h_modules h ! module) of
           None \<Rightarrow> True
         | Some a \<Rightarrow> a < length (h_importArrays h)
                     \<and> allocated (h_imports h) (h_importArrays h ! a)))"

text \<open>Some replacement of the configuration matches some import of the list.\<close>

definition some_replacement_matches ::
    "(string, string) fmap \<Rightarrow> (string, string \<times> string) fmap \<Rightarrow> Import list \<Rightarrow> bool" where
  "some_replacement_matches m1 m2 imps =
     (\<exists>imp\<in>set imps. imp_Module imp \<in> fmdom' m1
                        \<or> (\<exists>key\<in>fmdom' m2. import_matches key imp))"

section \<open>Sample values\<close>

text \<open>
  Concrete inputs on which the model is run. The decoders read the first byte; \<open>int\<close> has
  64 bits, as on every platform the repository is built and tested for.
\<close>

definition sample_codec :: codec where
  "sample_codec =
     \<lparr> DecodeInt32 = (\<lambda>bs. case bs of [] \<Rightarrow> 0 | b # _ \<Rightarrow> ucast b),
       DecodeInt64 = (\<lambda>bs. case bs of [] \<Rightarrow> 0 | b # _ \<Rightarrow> ucast b),
       DecodeFloat32 = (\<lambda>bs. 0),
       DecodeFloat64 = (\<lambda>bs. 0),
       DecodeUint32 = (\<lambda>bs. case bs of [] \<Rightarrow> 0 | b # _ \<Rightarrow> ucast b),
       IntSize = 64 \<rparr>"

definition empty_Module :: Module where
  "empty_Module =
     \<lparr> TypeSection = [], ImportSection = None, FunctionSection = [], ExportSection = [],
       StartSection = None, DataSection = [], HostFunctionSection = None \<rparr>"

text \<open>Everything built outside succeeds and is empty; the start function does nothing.\<close>

definition plain_outcomes :: outcomes where
  "plain_outcomes =
     \<lparr> buildTables_result = Inr [], buildGlobals_result = [], buildMemory_result = None,
       buildFunctions_result = [], NewModuleEngine_result = None,
       Call_result = (\<lambda>f h. (h, None)) \<rparr>"

text \<open>A module \<open>env\<close> that exports one externref table \<open>tbl\<close> of two elements, no max.\<close>

definition externref_table :: TableInstance where
  "externref_table = \<lparr> ti_Type = RefTypeExternref, ti_Min = 2, ti_Max = None \<rparr>"

definition env_Module :: Module where
  "env_Module =
     empty_Module\<lparr> ExportSection :=
       [\<lparr> exp_Type = ExternTypeTable, exp_Name = ''tbl'', exp_Index = 0 \<rparr>] \<rparr>"

definition env_outcomes :: outcomes where
  "env_outcomes = plain_outcomes\<lparr> buildTables_result := Inr [externref_table] \<rparr>"

definition env_Store :: Store where
  "env_Store =
     fst (Instantiate sample_codec sample_String env_outcomes (NewStore 0) [] env_Module ''env'')"

text \<open>A module that imports \<open>env.tbl\<close> as a funcref table of at least one element.\<close>

definition funcref_import :: Import where
  "funcref_import =
     \<lparr> imp_Type = ExternTypeTable, imp_Module = ''env'', imp_Name = ''tbl'', imp_DescFunc = 0,
       imp_DescTable = Some \<lparr> tab_Type = RefTypeFuncref, tab_Min = 1, tab_Max = None \<rparr>,
       imp_DescMem = None, imp_DescGlobal = None \<rparr>"

definition importing_Module :: Module where
  "importing_Module = empty_Module\<lparr> ImportSection := Some [funcref_import] \<rparr>"

text \<open>The same import asking for at least five elements: more than the table has.\<close>

definition oversized_import :: Import where
  "oversized_import =
     funcref_import\<lparr> imp_DescTable := Some \<lparr> tab_Type = RefTypeFuncref, tab_Min = 5, tab_Max = None \<rparr> \<rparr>"

text \<open>The engine fails to compile; everything else succeeds.\<close>

definition failing_engine_outcomes :: outcomes where
  "failing_engine_outcomes = plain_outcomes\<lparr> NewModuleEngine_result := Some (External ''compile'') \<rparr>"

text \<open>A memory of four bytes, an instance that owns it, and two active data segments.\<close>

definition small_heap :: mem_heap where
  "small_heap = [\<lparr> mi_Buffer = [0, 0, 0, 0], mi_Min = 0, mi_Max = 1 \<rparr>]"

definition small_instance :: ModuleInstance where
  "small_instance = (new_ModuleInstance ''m'')\<lparr> mod_Memory := Some 0 \<rparr>"

definition segment_at_1 :: DataSegment where
  "segment_at_1 =
     \<lparr> OffsetExpression = Some \<lparr> ce_Opcode = OpcodeI32Const, ce_Data = [1] \<rparr>, Init = [7, 8] \<rparr>"

definition segment_at_3 :: DataSegment where
  "segment_at_3 =
     \<lparr> OffsetExpression = Some \<lparr> ce_Opcode = OpcodeI32Const, ce_Data = [3] \<rparr>, Init = [9, 9] \<rparr>"

text \<open>
  The configuration \<open>NewModuleConfig().WithImportModule("js", "wasm").WithImport("wasm",
  "increment", "go", "increment")\<close> and a module that imports \<open>js.increment\<close>.
\<close>

definition js_increment :: Import where
  "js_increment =
     \<lparr> imp_Type = ExternTypeFunc, imp_Module = ''js'', imp_Name = ''increment'', imp_DescFunc = 0,
       imp_DescTable = None, imp_DescMem = None, imp_DescGlobal = None \<rparr>"

definition js_config :: "moduleConfig \<times> unit heap" where
  "js_config =
     (case NewModuleConfig empty_heap of (c0, h0) \<Rightarrow>
      case WithImportModule c0 ''js'' ''wasm'' h0 of (c1, h1) \<Rightarrow>
      case WithImport c1 ''wasm'' ''increment'' ''go'' ''increment'' h1 of (c2, h2) \<Rightarrow>
        (c2, h2\<lparr> h_imports := [js_increment], h_importArrays := [[0]],
                  h_modules := [\<lparr> obj_ImportSection = Some 0, obj_rest = () \<rparr>] \<rparr>))"

section \<open>Properties of the runtime configuration\<close>

lemma Features_and_or_same: "((f :: Features) OR feature) AND feature = feature"
  by (rule bit_eqI) (auto simp: bit_and_iff bit_or_iff)

lemma Features_and_or_other:
  "(((f :: Features) OR feature) OR other) AND feature = feature"
  by (rule bit_eqI) (auto simp: bit_and_iff bit_or_iff)

lemma Features_and_or_other2:
  "(((f :: Features) OR other) OR feature) AND feature = feature"
  by (rule bit_eqI) (auto simp: bit_and_iff bit_or_iff)

lemma Features_and_not_same: "((f :: Features) AND NOT feature) AND feature = 0"
  by (rule bit_eqI) (auto simp: bit_and_iff bit_not_iff)

lemma Features_and_not_other:
  "(((f :: Features) AND NOT feature) AND NOT other) AND feature = 0"
  by (rule bit_eqI) (auto simp: bit_and_iff bit_not_iff)

lemma Features_and_not_other2:
  "(((f :: Features) AND NOT other) AND NOT feature) AND feature = 0"
  by (rule bit_eqI) (auto simp: bit_and_iff bit_not_iff)

lemma Features_Get_Set_same:
  "feature \<noteq> 0 \<Longrightarrow> Features_Get (Features_Set f feature v) feature = v"
  by (cases v)
     (simp_all add: Features_Get_def Features_Set_def Features_and_or_same
        Features_and_not_same)

lemma Features_Get_Set_then_Set:
  "feature \<noteq> 0 \<Longrightarrow>
     Features_Get (Features_Set (Features_Set f feature v) other v) feature = v"
  by (cases v)
     (simp_all add: Features_Get_def Features_Set_def Features_and_or_other
        Features_and_not_other)

lemma Features_Get_Set_after_Set:
  "feature \<noteq> 0 \<Longrightarrow>
     Features_Get (Features_Set (Features_Set f other v) feature v) feature = v"
  by (cases v)
     (simp_all add: Features_Get_def Features_Set_def Features_and_or_other2
        Features_and_not_other2)

lemma applyOption_capacity:
  "memoryCapacityPages c \<noteq> None \<Longrightarrow> memoryCapacityPages (applyOption K c opt) \<noteq> None"
  by (cases opt)
     (simp_all add: WithFeatureBulkMemoryOperations_def WithFeatureMultiValue_def
        WithFeatureMutableGlobal_def WithFeatureNonTrappingFloatToIntConversion_def
        WithFeatureReferenceTypes_def WithFeatureSignExtensionOps_def
        WithMemoryCapacityPages_def WithMemoryLimitPages_def WithWasmCore1_def
        WithWasmCore2_def Let_def split: option.splits)

lemma applyOptions_capacity:
  "memoryCapacityPages c \<noteq> None \<Longrightarrow> memoryCapacityPages (applyOptions K c opts) \<noteq> None"
  unfolding applyOptions_def
proof (induction opts arbitrary: c)
  case Nil
  then show ?case by simp
next
  case (Cons opt opts)
  from Cons.prems have "memoryCapacityPages (applyOption K c opt) \<noteq> None"
    by (rule applyOption_capacity)
  then show ?case using Cons.IH by simp
qed

text \<open>
  C6. The bulk-memory-operations and reference-types features are always co-set: after
  \<open>WithFeatureBulkMemoryOperations v\<close>, and after \<open>WithFeatureReferenceTypes v\<close>, both
  features read as \<open>v\<close>, whatever the configuration was before and for \<open>v\<close> true and
  false alike. The two feature masks are only required to be non-empty.
\<close>

theorem feature_coupling:
  assumes "FeatureBulkMemoryOperations K \<noteq> 0" and "FeatureReferenceTypes K \<noteq> 0"
  shows "Features_Get (enabledFeatures (WithFeatureBulkMemoryOperations K c v))
           (FeatureBulkMemoryOperations K) = v
       \<and> Features_Get (enabledFeatures (WithFeatureBulkMemoryOperations K c v))
           (FeatureReferenceTypes K) = v
       \<and> Features_Get (enabledFeatures (WithFeatureReferenceTypes K c v))
           (FeatureBulkMemoryOperations K) = v
       \<and> Features_Get (enabledFeatures (WithFeatureReferenceTypes K c v))
           (FeatureReferenceTypes K) = v"
  using assms
  by (simp add: WithFeatureBulkMemoryOperations_def WithFeatureReferenceTypes_def
        Features_Get_Set_after_Set Features_Get_Set_then_Set)


theorem feature_coupling_witness:
  "FeatureBulkMemoryOperations sample_consts \<noteq> 0 \<and> FeatureReferenceTypes sample_consts \<noteq> 0
   \<and> Features_Get (enabledFeatures (WithFeatureBulkMemoryOperations sample_consts
          (NewRuntimeConfigInterpreter sample_consts) True)) (FeatureReferenceTypes sample_consts)
   \<and> \<not> Features_Get (enabledFeatures (WithFeatureReferenceTypes sample_consts
          (WithWasmCore2 sample_consts (NewRuntimeConfigInterpreter sample_consts)) False))
          (FeatureBulkMemoryOperations sample_consts)"
  using feature_coupling [of sample_consts "NewRuntimeConfigInterpreter sample_consts" True]
    feature_coupling [of sample_consts
      "WithWasmCore2 sample_consts (NewRuntimeConfigInterpreter sample_consts)" False]
  by (simp add: sample_consts_def)

text \<open>
  C10. Every configuration reached from \<open>NewRuntimeConfigInterpreter\<close> or
  \<open>NewRuntimeConfigJIT\<close> by any chain of options has a memory-capacity function (it is
  not nil); the function of the two initial configurations returns the module's min
  pages; and \<open>WithMemoryCapacityPages\<close> with a nil function returns its receiver.
\<close>

theorem capacity_function_never_nil:
  "memoryCapacityPages (applyOptions K (NewRuntimeConfigInterpreter K) opts) \<noteq> None
   \<and> memoryCapacityPages (applyOptions K (NewRuntimeConfigJIT K) opts) \<noteq> None
   \<and> (\<exists>f. memoryCapacityPages (NewRuntimeConfigInterpreter K) = Some f
           \<and> f minPages maxPages = minPages)
   \<and> (\<exists>f. memoryCapacityPages (NewRuntimeConfigJIT K) = Some f
           \<and> f minPages maxPages = minPages)
   \<and> WithMemoryCapacityPages c None = c"
proof -
  have "memoryCapacityPages (NewRuntimeConfigInterpreter K) \<noteq> None"
    and "memoryCapacityPages (NewRuntimeConfigJIT K) \<noteq> None"
    by (simp_all add: NewRuntimeConfigInterpreter_def NewRuntimeConfigJIT_def
          engineLessConfig_def)
  then have "memoryCapacityPages (applyOptions K (NewRuntimeConfigInterpreter K) opts) \<noteq> None"
    and "memoryCapacityPages (applyOptions K (NewRuntimeConfigJIT K) opts) \<noteq> None"
    by (simp_all only: applyOptions_capacity not_False_eq_True)
  then show ?thesis
    by (simp add: NewRuntimeConfigInterpreter_def NewRuntimeConfigJIT_def
          engineLessConfig_def WithMemoryCapacityPages_def)
qed

section \<open>Properties of the store\<close>

subsection \<open>Module names\<close>

lemma deleteModule_after_require:
  assumes "moduleName \<notin> moduleNames s" and "modules s moduleName = None"
  shows "deleteModule (s\<lparr> moduleNames := insert moduleName (moduleNames s) \<rparr>) moduleName = s"
proof -
  have "(modules s)(moduleName := None) = modules s"
    using assms(2) by (simp add: fun_upd_idem)
  moreover have "insert moduleName (moduleNames s) - {moduleName} = moduleNames s"
    using assms(1) by auto
  ultimately show ?thesis by (simp add: deleteModule_def)
qed

text \<open>
  C9. Name reservation round-trips. For a name that is not reserved (absent from
  \<open>moduleNames\<close> and from \<open>modules\<close>), \<open>requireModuleName\<close> succeeds and reserves
  it, and \<open>deleteModule\<close> afterwards gives back the store as it was; \<open>deleteModule\<close>
  of such a name changes nothing. For a reserved name \<open>requireModuleName\<close> fails and
  leaves the store unchanged.
\<close>

theorem name_reservation_roundtrip:
  "(moduleName \<notin> moduleNames s \<and> modules s moduleName = None \<longrightarrow>
      (\<exists>s'. requireModuleName s moduleName = (s', None) \<and> moduleName \<in> moduleNames s'
            \<and> deleteModule s' moduleName = s)
      \<and> deleteModule s moduleName = s)
   \<and> (moduleName \<in> moduleNames s \<longrightarrow>
        requireModuleName s moduleName = (s, Some (ModuleAlreadyInstantiated moduleName)))"
proof (intro conjI impI)
  assume a: "moduleName \<notin> moduleNames s \<and> modules s moduleName = None"
  then have "deleteModule (s\<lparr> moduleNames := insert moduleName (moduleNames s) \<rparr>) moduleName = s"
    by (simp add: deleteModule_after_require)
  with a show "\<exists>s'. requireModuleName s moduleName = (s', None) \<and> moduleName \<in> moduleNames s'
            \<and> deleteModule s' moduleName = s"
    by (simp add: requireModuleName_def)
  have "(modules s)(moduleName := None) = modules s"
    using a by (simp add: fun_upd_idem)
  moreover have "moduleNames s - {moduleName} = moduleNames s" using a by auto
  ultimately show "deleteModule s moduleName = s" by (simp add: deleteModule_def)
next
  assume "moduleName \<in> moduleNames s"
  then show "requireModuleName s moduleName = (s, Some (ModuleAlreadyInstantiated moduleName))"
    by (simp add: requireModuleName_def)
qed

text \<open>
  In a store where every instantiated module's name is reserved, a name outside
  \<open>moduleNames\<close> is absent from \<open>modules\<close> as well.
\<close>

lemma names_inv_unreserved:
  "names_inv s \<Longrightarrow> moduleName \<notin> moduleNames s \<Longrightarrow> modules s moduleName = None"
  by (auto simp: names_inv_def)

theorem name_reservation_roundtrip_witness:
  "''env'' \<notin> moduleNames (NewStore 0) \<and> modules (NewStore 0) ''env'' = None
   \<and> (\<exists>s'. requireModuleName (NewStore 0) ''env'' = (s', None) \<and> ''env'' \<in> moduleNames s'
           \<and> deleteModule s' ''env'' = NewStore 0)
   \<and> deleteModule (NewStore 0) ''env'' = NewStore 0
   \<and> ''env'' \<in> moduleNames (fst (requireModuleName (NewStore 0) ''env''))
   \<and> requireModuleName (fst (requireModuleName (NewStore 0) ''env'')) ''env''
       = (fst (requireModuleName (NewStore 0) ''env''), Some (ModuleAlreadyInstantiated ''env''))"
  using name_reservation_roundtrip [of "''env''" "NewStore 0"]
    name_reservation_roundtrip [of "''env''" "fst (requireModuleName (NewStore 0) ''env'')"]
  by (simp add: NewStore_def requireModuleName_def)


subsection \<open>Function type interning\<close>

lemma unat_maximumFunctionTypes: "unat maximumFunctionTypes = 2 ^ 27"
  by (simp add: maximumFunctionTypes_def)

lemma typeIDs_inv_NewStore: "typeIDs_inv (NewStore f)"
  by (simp add: typeIDs_inv_def NewStore_def fcard_fempty)

lemma unat_word_of_nat_u32: "n \<le> unat (m :: u32) \<Longrightarrow> unat (word_of_nat n :: u32) = n"
  by (rule le_unat_uoi)

lemma getFunctionTypeID_known:
  "fmlookup (typeIDs s) (String t) = Some i \<Longrightarrow> getFunctionTypeID String s t = (s, Inr i)"
  by (simp add: getFunctionTypeID_def)

lemma getFunctionTypeID_full:
  assumes "typeIDs_inv s" and "fmlookup (typeIDs s) (String t) = None"
    and "\<not> fcard (fmdom (typeIDs s)) < unat (functionMaxTypes s)"
  shows "getFunctionTypeID String s t = (s, Inl TooManyFunctionTypes)"
proof -
  let ?n = "fcard (fmdom (typeIDs s))"
  have le: "?n \<le> unat (functionMaxTypes s)" using assms(1) by (simp add: typeIDs_inv_def)
  have "unat (word_of_nat ?n :: u32) = ?n" using le by (rule unat_word_of_nat_u32)
  then have "functionMaxTypes s \<le> (word_of_nat ?n :: u32)"
    using assms(3) by (simp add: word_le_nat_alt)
  then show ?thesis using assms(2) by (simp add: getFunctionTypeID_def)
qed

lemma getFunctionTypeID_new:
  assumes "typeIDs_inv s" and "fmlookup (typeIDs s) (String t) = None"
    and "fcard (fmdom (typeIDs s)) < unat (functionMaxTypes s)"
  shows "getFunctionTypeID String s t =
           (s\<lparr> typeIDs := fmupd (String t) (word_of_nat (fcard (fmdom (typeIDs s)))) (typeIDs s) \<rparr>,
            Inr (word_of_nat (fcard (fmdom (typeIDs s)))))"
proof -
  let ?n = "fcard (fmdom (typeIDs s))"
  have "unat (word_of_nat ?n :: u32) = ?n" using assms(3) by (intro unat_word_of_nat_u32 [of _ "functionMaxTypes s"]) simp
  then have "\<not> functionMaxTypes s \<le> (word_of_nat ?n :: u32)"
    using assms(3) by (simp add: word_le_nat_alt)
  then show ?thesis using assms(2) by (simp add: getFunctionTypeID_def Let_def)
qed

lemma typeIDs_inv_fmupd:
  assumes inv: "typeIDs_inv s" and new: "fmlookup (typeIDs s) key = None"
    and room: "fcard (fmdom (typeIDs s)) < unat (functionMaxTypes s)"
  shows "typeIDs_inv (s\<lparr> typeIDs := fmupd key (word_of_nat (fcard (fmdom (typeIDs s)))) (typeIDs s) \<rparr>)"
proof -
  let ?n = "fcard (fmdom (typeIDs s))"
  have un: "unat (word_of_nat ?n :: u32) = ?n" using room by (intro unat_word_of_nat_u32 [of _ "functionMaxTypes s"]) simp
  have notin: "key |\<notin>| fmdom (typeIDs s)" using new by (simp add: fmdom_notI)
  then have card: "fcard (finsert key (fmdom (typeIDs s))) = Suc ?n"
    by (simp add: fcard_finsert_disjoint)
  have below: "\<And>k i. fmlookup (typeIDs s) k = Some i \<Longrightarrow> unat i < ?n"
    using inv by (auto simp: typeIDs_inv_def)
  have inj: "\<And>k k' i. fmlookup (typeIDs s) k = Some i \<Longrightarrow> fmlookup (typeIDs s) k' = Some i \<Longrightarrow> k = k'"
    using inv unfolding typeIDs_inv_def by blast
  show ?thesis
    unfolding typeIDs_inv_def
  proof (intro conjI allI impI)
    show "fcard (fmdom (typeIDs (s\<lparr>typeIDs := fmupd key (word_of_nat ?n) (typeIDs s)\<rparr>)))
            \<le> unat (functionMaxTypes (s\<lparr>typeIDs := fmupd key (word_of_nat ?n) (typeIDs s)\<rparr>))"
      using room card by simp
  next
    fix k i
    assume "fmlookup (typeIDs (s\<lparr>typeIDs := fmupd key (word_of_nat ?n) (typeIDs s)\<rparr>)) k = Some i"
    then have "(k = key \<and> i = word_of_nat ?n) \<or> fmlookup (typeIDs s) k = Some i"
      by (auto split: if_splits)
    then show "unat i < fcard (fmdom (typeIDs (s\<lparr>typeIDs := fmupd key (word_of_nat ?n) (typeIDs s)\<rparr>)))"
      using un card below by (auto simp: less_Suc_eq)
  next
    fix k k' i
    assume a: "fmlookup (typeIDs (s\<lparr>typeIDs := fmupd key (word_of_nat ?n) (typeIDs s)\<rparr>)) k = Some i
             \<and> fmlookup (typeIDs (s\<lparr>typeIDs := fmupd key (word_of_nat ?n) (typeIDs s)\<rparr>)) k' = Some i"
    show "k = k'"
    proof (cases "k = key"; cases "k' = key")
      assume "k = key" "k' = key" then show ?thesis by simp
    next
      assume k: "k = key" and k': "k' \<noteq> key"
      from a k have "i = word_of_nat ?n" by simp
      moreover from a k' have "fmlookup (typeIDs s) k' = Some i" by simp
      ultimately show ?thesis using below [of k' i] un by simp
    next
      assume k: "k \<noteq> key" and k': "k' = key"
      from a k' have "i = word_of_nat ?n" by simp
      moreover from a k have "fmlookup (typeIDs s) k = Some i" by simp
      ultimately show ?thesis using below [of k i] un by simp
    next
      assume "k \<noteq> key" "k' \<noteq> key"
      with a show ?thesis using inj [of k i k'] by simp
    qed
  qed
qed


lemma card_fmdom': "card (fmdom' m) = fcard (fmdom m)"
  by (simp add: fmdom'_alt_def fcard.rep_eq)

lemma getFunctionTypeID_step:
  assumes inv: "typeIDs_inv s" and run: "getFunctionTypeID String s t = (s', r)"
  shows "typeIDs_inv s' \<and> functionMaxTypes s' = functionMaxTypes s
       \<and> (\<forall>k v. fmlookup (typeIDs s) k = Some v \<longrightarrow> fmlookup (typeIDs s') k = Some v)
       \<and> (case r of
            Inr i \<Rightarrow> fmlookup (typeIDs s') (String t) = Some i
                   \<and> fmdom' (typeIDs s') = insert (String t) (fmdom' (typeIDs s))
          | Inl e \<Rightarrow> e = TooManyFunctionTypes \<and> s' = s \<and> String t \<notin> fmdom' (typeIDs s)
                   \<and> fcard (fmdom (typeIDs s)) = unat (functionMaxTypes s))"
proof (cases "fmlookup (typeIDs s) (String t)")
  case (Some i)
  then have "getFunctionTypeID String s t = (s, Inr i)" by (simp add: getFunctionTypeID_def)
  with run have "s' = s" "r = Inr i" by simp_all
  moreover have "insert (String t) (fmdom' (typeIDs s)) = fmdom' (typeIDs s)"
    using Some by (auto simp: fmdom'I)
  ultimately show ?thesis using inv Some by simp
next
  case None
  show ?thesis
  proof (cases "fcard (fmdom (typeIDs s)) < unat (functionMaxTypes s)")
    case True
    let ?i = "word_of_nat (fcard (fmdom (typeIDs s))) :: u32"
    let ?s = "s\<lparr> typeIDs := fmupd (String t) ?i (typeIDs s) \<rparr>"
    from getFunctionTypeID_new [where String=String and t=t, OF inv None True] run
    have eq: "s' = ?s" "r = Inr ?i" by simp_all
    have "typeIDs_inv ?s" using inv None True by (rule typeIDs_inv_fmupd)
    moreover have "\<forall>k v. fmlookup (typeIDs s) k = Some v \<longrightarrow> fmlookup (typeIDs ?s) k = Some v"
      using None by auto
    ultimately show ?thesis using eq by simp
  next
    case False
    from getFunctionTypeID_full [where String=String and t=t, OF inv None False] run
    have eq: "s' = s" "r = Inl TooManyFunctionTypes" by simp_all
    have "fcard (fmdom (typeIDs s)) \<le> unat (functionMaxTypes s)"
      using inv by (simp add: typeIDs_inv_def)
    with False have "fcard (fmdom (typeIDs s)) = unat (functionMaxTypes s)" by simp
    moreover have "String t \<notin> fmdom' (typeIDs s)" using None by (simp add: fmdom'_notI)
    ultimately show ?thesis using eq inv by simp
  qed
qed

lemma getFunctionTypeIDs_spec:
  assumes "typeIDs_inv s" and "getFunctionTypeIDs String s ts = (s', r)"
  shows "typeIDs_inv s' \<and> functionMaxTypes s' = functionMaxTypes s
       \<and> (\<forall>k v. fmlookup (typeIDs s) k = Some v \<longrightarrow> fmlookup (typeIDs s') k = Some v)
       \<and> (case r of
            Inr ids \<Rightarrow> fmdom' (typeIDs s') = fmdom' (typeIDs s) \<union> String ` set ts
                     \<and> map Some ids = map (\<lambda>t. fmlookup (typeIDs s') (String t)) ts
          | Inl e \<Rightarrow> e = TooManyFunctionTypes
                   \<and> unat (functionMaxTypes s) < card (fmdom' (typeIDs s) \<union> String ` set ts))"
  using assms
proof (induction ts arbitrary: s s' r)
  case Nil
  then show ?case by auto
next
  case (Cons t ts)
  obtain s1 r1 where step: "getFunctionTypeID String s t = (s1, r1)"
    by (cases "getFunctionTypeID String s t")
  note st = getFunctionTypeID_step [OF Cons.prems(1) step]
  show ?case
  proof (cases r1)
    case (Inl e)
    with step Cons.prems(2) have eq: "s' = s1" "r = Inl e" by simp_all
    from st Inl have e: "e = TooManyFunctionTypes" "s1 = s" "String t \<notin> fmdom' (typeIDs s)"
      "fcard (fmdom (typeIDs s)) = unat (functionMaxTypes s)" by simp_all
    have fin: "finite (fmdom' (typeIDs s) \<union> String ` set (t # ts))" by simp
    have "insert (String t) (fmdom' (typeIDs s)) \<subseteq> fmdom' (typeIDs s) \<union> String ` set (t # ts)"
      by auto
    from card_mono [OF fin this] e(3)
    have "Suc (card (fmdom' (typeIDs s))) \<le> card (fmdom' (typeIDs s) \<union> String ` set (t # ts))"
      by simp
    then have "unat (functionMaxTypes s) < card (fmdom' (typeIDs s) \<union> String ` set (t # ts))"
      using e(4) by (simp add: card_fmdom')
    then show ?thesis using eq e Cons.prems(1) by simp
  next
    case (Inr i)
    obtain s2 r2 where rest: "getFunctionTypeIDs String s1 ts = (s2, r2)"
      by (cases "getFunctionTypeIDs String s1 ts")
    from st Inr have s1: "typeIDs_inv s1" "functionMaxTypes s1 = functionMaxTypes s"
      "\<forall>k v. fmlookup (typeIDs s) k = Some v \<longrightarrow> fmlookup (typeIDs s1) k = Some v"
      "fmlookup (typeIDs s1) (String t) = Some i"
      "fmdom' (typeIDs s1) = insert (String t) (fmdom' (typeIDs s))" by simp_all
    note ih = Cons.IH [OF s1(1) rest]
    have dom: "fmdom' (typeIDs s1) \<union> String ` set ts = fmdom' (typeIDs s) \<union> String ` set (t # ts)"
      using s1(5) by auto
    show ?thesis
    proof (cases r2)
      case (Inl e)
      with step Inr rest Cons.prems(2) have eq: "s' = s2" "r = Inl e" by simp_all
      show ?thesis using eq ih Inl s1 dom by simp
    next
      case (Inr ids)
      with step \<open>r1 = Inr i\<close> rest Cons.prems(2) have eq: "s' = s2" "r = Inr (i # ids)" by simp_all
      from ih Inr have "fmlookup (typeIDs s2) (String t) = Some i" using s1(4) by simp
      then show ?thesis using eq ih Inr s1 dom by simp
    qed
  qed
qed


lemma interned_ids_shape:
  assumes inv: "typeIDs_inv s'"
    and dom: "fmdom' (typeIDs s') = String ` set ts"
    and ids: "map Some ids = map (\<lambda>t. fmlookup (typeIDs s') (String t)) ts"
  shows "length ids = length ts
       \<and> (\<forall>i<length ts. \<forall>j<length ts. (ids ! i = ids ! j) = (String (ts ! i) = String (ts ! j)))
       \<and> unat ` set ids = {0..<card (String ` set ts)}"
proof -
  let ?m = "typeIDs s'"
  have len: "length ids = length ts"
    using ids by (metis length_map)
  have at: "fmlookup ?m (String (ts ! i)) = Some (ids ! i)" if "i < length ts" for i
  proof -
    have "map Some ids ! i = map (\<lambda>t. fmlookup ?m (String t)) ts ! i" using ids by simp
    then show ?thesis using that len by simp
  qed
  have inj: "\<And>k k' i. fmlookup ?m k = Some i \<Longrightarrow> fmlookup ?m k' = Some i \<Longrightarrow> k = k'"
    using inv unfolding typeIDs_inv_def by blast
  have below: "\<And>k i. fmlookup ?m k = Some i \<Longrightarrow> unat i < card (String ` set ts)"
    using inv dom by (auto simp: typeIDs_inv_def card_fmdom' [symmetric])
  have iff: "(ids ! i = ids ! j) = (String (ts ! i) = String (ts ! j))"
    if "i < length ts" "j < length ts" for i j
  proof
    assume "ids ! i = ids ! j"
    with at [OF that(1)] at [OF that(2)] show "String (ts ! i) = String (ts ! j)"
      using inj by metis
  next
    assume "String (ts ! i) = String (ts ! j)"
    with at [OF that(1)] at [OF that(2)] show "ids ! i = ids ! j" by simp
  qed
  have sub: "unat ` set ids \<subseteq> {0..<card (String ` set ts)}"
  proof
    fix n assume "n \<in> unat ` set ids"
    then obtain i where i: "i < length ids" "n = unat (ids ! i)"
      by (auto simp: in_set_conv_nth)
    with at [of i] len below show "n \<in> {0..<card (String ` set ts)}" by auto
  qed
  let ?f = "\<lambda>k. unat (the (fmlookup ?m k))"
  have img: "?f ` (String ` set ts) \<subseteq> unat ` set ids"
  proof
    fix n assume "n \<in> ?f ` (String ` set ts)"
    then obtain t where "t \<in> set ts" "n = ?f (String t)" by auto
    then obtain i where i: "i < length ts" "n = ?f (String (ts ! i))"
      by (auto simp: in_set_conv_nth)
    with at [OF i(1)] have "n = unat (ids ! i)" by simp
    moreover have "ids ! i \<in> set ids" using i(1) len by simp
    ultimately show "n \<in> unat ` set ids" by blast
  qed
  have injf: "inj_on ?f (String ` set ts)"
  proof (rule inj_onI)
    fix k k' assume k: "k \<in> String ` set ts" "k' \<in> String ` set ts" and eq: "?f k = ?f k'"
    from k dom have "k \<in> fmdom' ?m" "k' \<in> fmdom' ?m" by simp_all
    then obtain a b where ab: "fmlookup ?m k = Some a" "fmlookup ?m k' = Some b"
      by (auto simp: fmlookup_dom'_iff)
    with eq have "a = b" by (simp add: word_unat_eq_iff)
    with ab inj show "k = k'" by metis
  qed
  have "card (String ` set ts) = card (?f ` (String ` set ts))"
    using injf by (simp add: card_image)
  also have "\<dots> \<le> card (unat ` set ids)"
    using img by (intro card_mono) simp_all
  finally have "card {0..<card (String ` set ts)} \<le> card (unat ` set ids)" by simp
  with sub have "unat ` set ids = {0..<card (String ` set ts)}"
    by (intro card_seteq) simp_all
  with len iff show ?thesis by blast
qed

text \<open>
  C3. Function-type interning assigns identifiers sequentially from zero, keyed on the
  canonical textual form. For every sequence of types interned into a new store: the
  call fails, with the too-many-types error, exactly when the sequence holds more than
  \<open>2^27\<close> distinct textual forms; otherwise it returns one identifier per type, two
  types have the same identifier iff their textual forms are equal, and the identifiers
  are exactly \<open>0 .. n-1\<close> for the \<open>n\<close> distinct forms.
\<close>

theorem function_type_interning:
  "case getFunctionTypeIDs String (NewStore features) ts of
     (s', Inl e) \<Rightarrow> e = TooManyFunctionTypes \<and> 2 ^ 27 < card (String ` set ts)
   | (s', Inr ids) \<Rightarrow>
       card (String ` set ts) \<le> 2 ^ 27
     \<and> length ids = length ts
     \<and> (\<forall>i<length ts. \<forall>j<length ts. (ids ! i = ids ! j) = (String (ts ! i) = String (ts ! j)))
     \<and> unat ` set ids = {0..<card (String ` set ts)}"
proof -
  obtain s' r where run: "getFunctionTypeIDs String (NewStore features) ts = (s', r)"
    by (cases "getFunctionTypeIDs String (NewStore features) ts")
  note spec = getFunctionTypeIDs_spec [OF typeIDs_inv_NewStore run]
  have max: "unat (functionMaxTypes (NewStore features)) = 2 ^ 27"
    by (simp add: NewStore_def unat_maximumFunctionTypes)
  have empty: "fmdom' (typeIDs (NewStore features)) = {}" by (simp add: NewStore_def)
  show ?thesis
  proof (cases r)
    case (Inl e)
    with spec max empty run show ?thesis by simp
  next
    case (Inr ids)
    with spec empty have inv: "typeIDs_inv s'" and dom: "fmdom' (typeIDs s') = String ` set ts"
      and ids: "map Some ids = map (\<lambda>t. fmlookup (typeIDs s') (String t)) ts"
      and m: "functionMaxTypes s' = functionMaxTypes (NewStore features)" by simp_all
    have "card (fmdom' (typeIDs s')) \<le> 2 ^ 27"
      using inv m max by (simp add: typeIDs_inv_def card_fmdom')
    with dom have "card (String ` set ts) \<le> 2 ^ 27" by simp
    with interned_ids_shape [OF inv dom ids] run Inr show ?thesis by simp
  qed
qed



theorem function_type_interning_witness:
  "snd (getFunctionTypeIDs sample_String (NewStore 0)
         [\<lparr>Params = [], Results = []\<rparr>, \<lparr>Params = [ValueTypeI32], Results = []\<rparr>,
          \<lparr>Params = [], Results = []\<rparr>]) = Inr [0, 1, 0]
   \<and> unat ` set [0, 1, 0 :: u32]
       = {0..<card (sample_String ` set [\<lparr>Params = [], Results = []\<rparr>,
               \<lparr>Params = [ValueTypeI32], Results = []\<rparr>, \<lparr>Params = [], Results = []\<rparr>])}
   \<and> card (sample_String ` set [\<lparr>Params = [], Results = []\<rparr>,
               \<lparr>Params = [ValueTypeI32], Results = []\<rparr>, \<lparr>Params = [], Results = []\<rparr>]) \<le> 2 ^ 27"
proof -
  let ?ts = "[\<lparr>Params = [], Results = []\<rparr>, \<lparr>Params = [ValueTypeI32], Results = []\<rparr>,
          \<lparr>Params = [], Results = []\<rparr>]"
  have run: "snd (getFunctionTypeIDs sample_String (NewStore 0) ?ts) = Inr [0, 1, 0]"
    by (simp add: getFunctionTypeID_def NewStore_def sample_String_def maximumFunctionTypes_def
        fcard_finsert_if fcard_fempty word_le_nat_alt)
  obtain s' where "getFunctionTypeIDs sample_String (NewStore 0) ?ts = (s', Inr [0, 1, 0])"
    using run by (cases "getFunctionTypeIDs sample_String (NewStore 0) ?ts") simp
  with function_type_interning [where String = sample_String and features = 0 and ts = ?ts]
  show ?thesis by simp
qed

section \<open>Properties of instantiation\<close>

subsection \<open>Data segments\<close>


lemma int_add_no_wrap:
  "- (2 ^ (bits - 1)) \<le> a + b \<Longrightarrow> a + b < 2 ^ (bits - 1) \<Longrightarrow> int_add bits a b = a + b"
  unfolding int_add_def by (rule signed_take_bit_int_eq_self)

lemma int_add_offset_length:
  fixes w :: u32
  assumes "bits = 64" and "n < 2 ^ 62"
  shows "int_add bits (sint w) (int n) = sint w + int n"
proof (rule int_add_no_wrap)
  have lo: "- (2 ^ 31) \<le> sint w" using sint_ge [of w] by simp
  have hi: "sint w < 2 ^ 31" using sint_lt [of w] by simp
  have n: "int n < 2 ^ 62" using assms(2) by (simp add: of_nat_less_numeral_power_cancel_iff)
  show "- (2 ^ (bits - 1)) \<le> sint w + int n" using lo assms(1) by simp
  show "sint w + int n < 2 ^ (bits - 1)" using hi n assms(1) by simp
qed

lemma validateData_None_iff:
  assumes bits: "IntSize D = 64"
  shows "\<forall>d\<in>set data. data_length_fits d \<Longrightarrow>
     validateData D h m data = None \<longleftrightarrow> (\<forall>d\<in>set data. data_in_bounds D h m d)"
proof (induction data)
  case Nil
  then show ?case by simp
next
  case (Cons d ds)
  then have fit: "length (Init d) < 2 ^ 62"
    and IH: "validateData D h m ds = None \<longleftrightarrow> (\<forall>d\<in>set ds. data_in_bounds D h m d)"
    by (simp_all add: data_length_fits_def)
  show ?case
  proof (cases "OffsetExpression d")
    case None
    then show ?thesis using IH by (simp add: IsPassive_def data_in_bounds_def)
  next
    case (Some expr)
    show ?thesis
    proof (cases "executeConstExpression D (mod_Globals m) expr")
      case (Inl p)
      with Some show ?thesis by (simp add: IsPassive_def data_in_bounds_def)
    next
      case (Inr v)
      show ?thesis
      proof (cases v)
        case (ValueI32 w)
        have sum: "int_add (IntSize D) (sint w) (int (length (Init d))) = sint w + int (length (Init d))"
          using bits fit by (rule int_add_offset_length)
        from ValueI32 Some Inr IH show ?thesis
          by (cases "mod_Memory m") (auto simp: IsPassive_def data_in_bounds_def Let_def sum)
      qed (use Some Inr in \<open>simp_all add: IsPassive_def data_in_bounds_def\<close>)
    qed
  qed
qed

lemma validateData_well_formed:
  "\<forall>d\<in>set data. data_well_formed D h m d \<Longrightarrow>
     validateData D h m data = None \<or> validateData D h m data = Some OutOfBoundsMemoryAccess"
proof (induction data)
  case Nil
  then show ?case by simp
next
  case (Cons d ds)
  then have wf: "data_well_formed D h m d" and rest: "validateData D h m ds = None \<or> validateData D h m ds = Some OutOfBoundsMemoryAccess"
    by simp_all
  show ?case
  proof (cases "OffsetExpression d")
    case None
    then show ?thesis using rest by (simp add: IsPassive_def)
  next
    case (Some expr)
    with wf obtain w a where "executeConstExpression D (mod_Globals m) expr = Inr (ValueI32 w)"
      "mod_Memory m = Some a" "a < length h"
      by (auto simp: data_well_formed_def split: sum.splits const_value.splits option.splits)
    with Some rest show ?thesis by (auto simp: IsPassive_def Let_def)
  qed
qed

lemma copy_at_in_bounds:
  "offset + length src \<le> length buf \<Longrightarrow> copy_at buf offset src = store_bytes buf offset src"
  by (simp add: copy_at_def store_bytes_def min_def)

lemma length_store_bytes:
  "offset + length bs \<le> length buf \<Longrightarrow> length (store_bytes buf offset bs) = length buf"
  by (simp add: store_bytes_def)


lemma data_in_bounds_same_lengths:
  assumes "length h' = length h"
    and "\<forall>a<length h. length (mi_Buffer (h' ! a)) = length (mi_Buffer (h ! a))"
  shows "data_in_bounds D h' m d = data_in_bounds D h m d"
  using assms
  by (auto simp: data_in_bounds_def split: option.splits sum.splits const_value.splits)

lemma applyData_validated:
  "\<forall>d\<in>set data. data_in_bounds D h m d \<Longrightarrow>
     applyData D h m data = (write_segments D m h data, None)"
proof (induction data arbitrary: h)
  case Nil
  then show ?case by simp
next
  case (Cons d ds)
  show ?case
  proof (cases "OffsetExpression d")
    case None
    with Cons show ?thesis by (simp add: IsPassive_def)
  next
    case (Some expr)
    from Cons.prems have "data_in_bounds D h m d" by simp
    with Some obtain w a where ev: "executeConstExpression D (mod_Globals m) expr = Inr (ValueI32 w)"
      and mem: "mod_Memory m = Some a" and a: "a < length h" and lo: "0 \<le> sint w"
      and hi: "sint w + int (length (Init d)) \<le> int (length (mi_Buffer (h ! a)))"
      by (auto simp: data_in_bounds_def split: sum.splits const_value.splits option.splits)
    let ?buf = "mi_Buffer (h ! a)"
    have fit: "nat (sint w) + length (Init d) \<le> length ?buf" using lo hi by linarith
    let ?h1 = "h[a := (h ! a)\<lparr> mi_Buffer := store_bytes ?buf (nat (sint w)) (Init d) \<rparr>]"
    have copy: "copy_at ?buf (nat (sint w)) (Init d) = store_bytes ?buf (nat (sint w)) (Init d)"
      using fit by (rule copy_at_in_bounds)
    have same: "\<forall>b<length h. length (mi_Buffer (?h1 ! b)) = length (mi_Buffer (h ! b))"
      using fit a by (auto simp: nth_list_update length_store_bytes)
    have "\<forall>d\<in>set ds. data_in_bounds D ?h1 m d"
    proof
      fix d' assume "d' \<in> set ds"
      with Cons.prems have "data_in_bounds D h m d'" by simp
      moreover have "data_in_bounds D ?h1 m d' = data_in_bounds D h m d'"
        using same by (intro data_in_bounds_same_lengths) simp_all
      ultimately show "data_in_bounds D ?h1 m d'" by simp
    qed
    then have ih: "applyData D ?h1 m ds = (write_segments D m ?h1 ds, None)" by (rule Cons.IH)
    have range: "\<not> (sint w < 0 \<or> int (length ?buf) < sint w)" using lo hi by linarith
    show ?thesis
      using Some ev mem a range copy ih by (simp add: IsPassive_def Let_def)
  qed
qed

lemma Instantiate_finish_invalid:
  "validateData D h m (DataSection module) = Some err \<Longrightarrow>
     Instantiate_finish D O' s h module name m = (release_on_error s name err, h, Inl err)"
  by (simp add: Instantiate_finish_def)


lemma Instantiate_finish_valid:
  assumes "validateData D h m (DataSection module) = None"
    and "NewModuleEngine_result O' = None"
    and "applyData D h m (DataSection module) = (W, None)"
  shows "Instantiate_finish D O' s h module name m
       = (case StartSection module of
            None \<Rightarrow> (addModule s m, W, Inr m)
          | Some funcIdx \<Rightarrow>
              if unat funcIdx < length (mod_Functions m) then
                (case Call_result O' (mod_Functions m ! unat funcIdx) W of
                   (h', Some err) \<Rightarrow> (deleteModule s name, h', Inl (StartFailed funcIdx err))
                 | (h', None) \<Rightarrow> (addModule s m, h', Inr m))
              else (s, W, Inl (Panic IndexOutOfRange)))"
  using assms by (simp add: Instantiate_finish_def Let_def split: option.splits)

text \<open>
  C5. Every active data segment is checked against the memory buffer before any byte is
  copied. Where \<open>int\<close> has 64 bits and every segment has fewer than \<open>2 ^ 62\<close> bytes (the
  sum \<open>offset + len(init)\<close> of \<open>validateData\<close> does not wrap around):
  \<^item> \<open>validateData\<close> passes exactly when every active segment's range
    \<open>[offset, offset + len(init))\<close> lies in the buffer;
  \<^item> if some active segment is out of bounds (in a validated module: the instance has a
    memory and the offsets are \<open>i32\<close> constants), the rest of \<open>Instantiate\<close> fails with
    the out-of-bounds error, releases the name and leaves the whole heap of memories as
    it was: no byte is copied;
  \<^item> if all are in bounds, \<open>applyData\<close> does not panic and stores every active
    segment's bytes in full;
  \<^item> if all are in bounds and the engine compiles the module, the rest of
    \<open>Instantiate\<close> stores every active segment's bytes in full: the memories it returns
    without a start function, and those it hands to the start function, are the
    memories with all the segments written.
\<close>

theorem data_segments_checked_before_copy:
  assumes "IntSize D = 64"
    and "\<forall>d\<in>set (DataSection module). data_length_fits d"
  shows "(validateData D h m (DataSection module) = None
      \<longleftrightarrow> (\<forall>d\<in>set (DataSection module). data_in_bounds D h m d))
   \<and> ((\<forall>d\<in>set (DataSection module). data_well_formed D h m d)
        \<and> (\<exists>d\<in>set (DataSection module). \<not> data_in_bounds D h m d)
      \<longrightarrow> Instantiate_finish D O' s h module name m
            = (deleteModule s name, h, Inl OutOfBoundsMemoryAccess))
   \<and> ((\<forall>d\<in>set (DataSection module). data_in_bounds D h m d)
      \<longrightarrow> applyData D h m (DataSection module)
            = (write_segments D m h (DataSection module), None))
   \<and> ((\<forall>d\<in>set (DataSection module). data_in_bounds D h m d)
        \<and> NewModuleEngine_result O' = None
      \<longrightarrow> Instantiate_finish D O' s h module name m
            = (case StartSection module of
                 None \<Rightarrow> (addModule s m, write_segments D m h (DataSection module), Inr m)
               | Some funcIdx \<Rightarrow>
                   if unat funcIdx < length (mod_Functions m) then
                     (case Call_result O' (mod_Functions m ! unat funcIdx)
                             (write_segments D m h (DataSection module)) of
                        (h', Some err) \<Rightarrow>
                          (deleteModule s name, h', Inl (StartFailed funcIdx err))
                      | (h', None) \<Rightarrow> (addModule s m, h', Inr m))
                   else (s, write_segments D m h (DataSection module),
                         Inl (Panic IndexOutOfRange))))"
proof (intro conjI impI)
  note iff = validateData_None_iff [OF assms, of h m]
  show "validateData D h m (DataSection module) = None
      \<longleftrightarrow> (\<forall>d\<in>set (DataSection module). data_in_bounds D h m d)"
    by (rule iff)
  {
    assume a: "(\<forall>d\<in>set (DataSection module). data_well_formed D h m d)
          \<and> (\<exists>d\<in>set (DataSection module). \<not> data_in_bounds D h m d)"
    then have "validateData D h m (DataSection module) \<noteq> None"
      by (simp add: iff)
    moreover from a have "validateData D h m (DataSection module) = None
        \<or> validateData D h m (DataSection module) = Some OutOfBoundsMemoryAccess"
      by (intro validateData_well_formed) simp
    ultimately have "validateData D h m (DataSection module) = Some OutOfBoundsMemoryAccess"
      by auto
    then show "Instantiate_finish D O' s h module name m
              = (deleteModule s name, h, Inl OutOfBoundsMemoryAccess)"
      by (simp add: Instantiate_finish_invalid release_on_error_def)
  }
  {
    assume "\<forall>d\<in>set (DataSection module). data_in_bounds D h m d"
    then show "applyData D h m (DataSection module)
              = (write_segments D m h (DataSection module), None)"
      by (rule applyData_validated)
  }
  {
    assume a: "(\<forall>d\<in>set (DataSection module). data_in_bounds D h m d)
        \<and> NewModuleEngine_result O' = None"
    then have v: "validateData D h m (DataSection module) = None" by (simp add: iff)
    from a have w: "applyData D h m (DataSection module)
              = (write_segments D m h (DataSection module), None)"
      by (intro applyData_validated) simp
    from a have e: "NewModuleEngine_result O' = None" by simp
    show "Instantiate_finish D O' s h module name m
            = (case StartSection module of
                 None \<Rightarrow> (addModule s m, write_segments D m h (DataSection module), Inr m)
               | Some funcIdx \<Rightarrow>
                   if unat funcIdx < length (mod_Functions m) then
                     (case Call_result O' (mod_Functions m ! unat funcIdx)
                             (write_segments D m h (DataSection module)) of
                        (h', Some err) \<Rightarrow>
                          (deleteModule s name, h', Inl (StartFailed funcIdx err))
                      | (h', None) \<Rightarrow> (addModule s m, h', Inr m))
                   else (s, write_segments D m h (DataSection module),
                         Inl (Panic IndexOutOfRange)))"
      using v e w by (rule Instantiate_finish_valid)
  }
qed

theorem data_segments_checked_before_copy_witness:
  "IntSize sample_codec = 64
   \<and> data_length_fits segment_at_1 \<and> data_length_fits segment_at_3
   \<and> validateData sample_codec small_heap small_instance [segment_at_1] = None
   \<and> data_in_bounds sample_codec small_heap small_instance segment_at_1
   \<and> applyData sample_codec small_heap small_instance [segment_at_1]
       = ([\<lparr> mi_Buffer = [0, 7, 8, 0], mi_Min = 0, mi_Max = 1 \<rparr>], None)
   \<and> NewModuleEngine_result plain_outcomes = None
   \<and> Instantiate_finish sample_codec plain_outcomes (NewStore 0) small_heap
         (empty_Module\<lparr> DataSection := [segment_at_1] \<rparr>) ''m'' small_instance
       = (addModule (NewStore 0) small_instance,
          [\<lparr> mi_Buffer = [0, 7, 8, 0], mi_Min = 0, mi_Max = 1 \<rparr>], Inr small_instance)
   \<and> \<not> data_in_bounds sample_codec small_heap small_instance segment_at_3
   \<and> data_well_formed sample_codec small_heap small_instance segment_at_1
   \<and> data_well_formed sample_codec small_heap small_instance segment_at_3
   \<and> Instantiate_finish sample_codec plain_outcomes (NewStore 0) small_heap
         (empty_Module\<lparr> DataSection := [segment_at_1, segment_at_3] \<rparr>) ''m'' small_instance
       = (deleteModule (NewStore 0) ''m'', small_heap, Inl OutOfBoundsMemoryAccess)"
  using data_segments_checked_before_copy [of sample_codec
      "empty_Module\<lparr> DataSection := [segment_at_1] \<rparr>" small_heap small_instance
      plain_outcomes "NewStore 0" "''m''"]
    data_segments_checked_before_copy [of sample_codec
      "empty_Module\<lparr> DataSection := [segment_at_1, segment_at_3] \<rparr>" small_heap small_instance
      plain_outcomes "NewStore 0" "''m''"]
  by (simp add: sample_codec_def small_heap_def small_instance_def segment_at_1_def
        segment_at_3_def new_ModuleInstance_def IsPassive_def executeConstExpression_def
        copy_at_def Let_def data_in_bounds_def data_well_formed_def empty_Module_def
        data_length_fits_def plain_outcomes_def store_bytes_def)


subsection \<open>Import resolution\<close>

lemma requireModuleName_modules: "modules (fst (requireModuleName s name)) = modules s"
  by (simp add: requireModuleName_def)

lemma getFunctionTypeID_modules: "modules (fst (getFunctionTypeID String s t)) = modules s"
  by (simp add: getFunctionTypeID_def Let_def split: option.splits)

lemma getFunctionTypeIDs_modules: "modules (fst (getFunctionTypeIDs String s ts)) = modules s"
proof (induction ts arbitrary: s)
  case Nil
  then show ?case by simp
next
  case (Cons t ts)
  obtain s1 r1 where step: "getFunctionTypeID String s t = (s1, r1)"
    by (cases "getFunctionTypeID String s t")
  then have m1: "modules s1 = modules s"
    using getFunctionTypeID_modules [of String s t] by simp
  show ?case
  proof (cases r1)
    case (Inl e)
    with step m1 show ?thesis by simp
  next
    case (Inr i)
    obtain s2 r2 where rest: "getFunctionTypeIDs String s1 ts = (s2, r2)"
      by (cases "getFunctionTypeIDs String s1 ts")
    then have "modules s2 = modules s1" using Cons.IH [of s1] by simp
    with step Inr rest m1 show ?thesis by (cases r2) simp_all
  qed
qed

lemma resolveImport_modules_cong:
  assumes "modules s' = modules s"
  shows "resolveImport s' h module idx i acc = resolveImport s h module idx i acc"
  unfolding resolveImport_def assms by (rule refl)

lemma resolveImports_loop_modules_cong:
  assumes "modules s' = modules s"
  shows "resolveImports_loop s' h module idx is acc = resolveImports_loop s h module idx is acc"
proof (induction "is" arbitrary: idx acc)
  case Nil
  show ?case by simp
next
  case (Cons i rest)
  have "resolveImport s' h module idx i acc = resolveImport s h module idx i acc"
    using assms by (rule resolveImport_modules_cong)
  then show ?case using Cons.IH by (simp split: sum.splits)
qed

lemma resolveImports_modules_cong:
  assumes "modules s' = modules s"
  shows "resolveImports s' h module = resolveImports s h module"
  unfolding resolveImports_def using assms by (rule resolveImports_loop_modules_cong)

lemma resolveImports_loop_success_nth:
  "resolveImports_loop s h module k is acc = Inr r \<Longrightarrow> j < length is \<Longrightarrow>
     \<exists>acc' r'. resolveImport s h module (k + j) (is ! j) acc' = Inr r'"
proof (induction "is" arbitrary: k acc j)
  case Nil
  then show ?case by simp
next
  case (Cons i rest)
  from Cons.prems(1) obtain acc1 where step: "resolveImport s h module k i acc = Inr acc1"
    and loop: "resolveImports_loop s h module (Suc k) rest acc1 = Inr r"
    by (auto split: sum.splits)
  show ?case
  proof (cases j)
    case 0
    with step have "resolveImport s h module (k + j) ((i # rest) ! j) acc = Inr acc1" by simp
    then show ?thesis by blast
  next
    case (Suc j')
    with Cons.prems(2) have "j' < length rest" by simp
    from Cons.IH [OF loop this] Suc show ?thesis by simp
  qed
qed

lemma resolveImports_loop_first_failure:
  "resolveImports_loop s h module k (take j is) acc = Inr acc' \<Longrightarrow> j < length is \<Longrightarrow>
   resolveImport s h module (k + j) (is ! j) acc' = Inl err \<Longrightarrow>
     resolveImports_loop s h module k is acc = Inl err"
proof (induction "is" arbitrary: k acc j)
  case Nil
  then show ?case by simp
next
  case (Cons i rest)
  show ?case
  proof (cases j)
    case 0
    with Cons.prems show ?thesis by simp
  next
    case (Suc j')
    with Cons.prems(1) obtain acc1 where step: "resolveImport s h module k i acc = Inr acc1"
      and loop: "resolveImports_loop s h module (Suc k) (take j' rest) acc1 = Inr acc'"
      by (auto split: sum.splits)
    from Suc Cons.prems(2) have "j' < length rest" by simp
    moreover from Suc Cons.prems(3)
    have "resolveImport s h module (Suc k + j') (rest ! j') acc' = Inl err" by simp
    ultimately have "resolveImports_loop s h module (Suc k) rest acc1 = Inl err"
      using Cons.IH [OF loop] by simp
    with step show ?thesis by simp
  qed
qed

lemma resolveImport_table_unfold:
  assumes "imp_Type i = ExternTypeTable"
    and "modules s (imp_Module i) = Some exporter"
    and "mod_Exports exporter (imp_Name i) = Some e"
    and "ei_Type e = ExternTypeTable"
    and "ei_Table e = Some actual"
    and "imp_DescTable i = Some expected"
  shows "resolveImport s h module idx i (fs, gs, ts, mem) =
           (if tab_Min expected > ti_Min actual
            then Inl (errorMinSizeMismatch i idx (tab_Min expected) (ti_Min actual))
            else
              (case tab_Max expected of
                 Some expectedMax \<Rightarrow>
                   (case ti_Max actual of
                      None \<Rightarrow> Inl (errorNoMax i idx expectedMax)
                    | Some actualMax \<Rightarrow>
                        if expectedMax < actualMax
                        then Inl (errorMaxSizeMismatch i idx expectedMax actualMax)
                        else Inr (fs, gs, ts @ [actual], mem))
               | None \<Rightarrow> Inr (fs, gs, ts @ [actual], mem)))"
  using assms
  by (simp add: resolveImport_def getExport_def split del: if_split
        cong: if_weak_cong option.case_cong_weak)

lemma resolveImport_table:
  assumes "imp_Type i = ExternTypeTable"
    and "modules s (imp_Module i) = Some exporter"
    and "mod_Exports exporter (imp_Name i) = Some e"
    and "ei_Type e = ExternTypeTable"
    and "ei_Table e = Some actual"
    and "imp_DescTable i = Some expected"
  shows "table_limits_match expected actual \<Longrightarrow>
           resolveImport s h module idx i (fs, gs, ts, mem) = Inr (fs, gs, ts @ [actual], mem)"
    and "\<not> table_limits_match expected actual \<Longrightarrow>
           \<exists>err. resolveImport s h module idx i (fs, gs, ts, mem) = Inl err
                 \<and> table_link_error idx i expected actual err"
  unfolding resolveImport_table_unfold [OF assms]
  by (auto simp: table_limits_match_def table_link_error_def
        errorMinSizeMismatch_def errorNoMax_def errorMaxSizeMismatch_def errorInvalidImport_def
        not_le not_less split: option.splits)

lemma resolveImport_table_success:
  assumes "imp_Type i = ExternTypeTable"
    and "modules s (imp_Module i) = Some exporter"
    and "mod_Exports exporter (imp_Name i) = Some e"
    and "ei_Type e = ExternTypeTable"
    and "ei_Table e = Some actual"
    and "imp_DescTable i = Some expected"
    and "resolveImport s h module idx i acc = Inr r"
  shows "table_limits_match expected actual"
proof (rule ccontr)
  assume "\<not> table_limits_match expected actual"
  obtain fs gs ts mem where acc: "acc = (fs, gs, ts, mem)" by (cases acc)
  from resolveImport_table(2) [OF assms(1-6) \<open>\<not> table_limits_match expected actual\<close>, of h module idx fs gs ts mem]
  show False using assms(7) acc by auto
qed

lemma Instantiate_success_resolves:
  assumes "Instantiate D String O' s h module name = (s', h', Inr m')"
  shows "\<exists>r. resolveImports s h module = Inr r"
proof -
  obtain s1 e1 where req: "requireModuleName s name = (s1, e1)" by (cases "requireModuleName s name")
  obtain s2 r2 where ids: "getFunctionTypeIDs String s1 (TypeSection module) = (s2, r2)"
    by (cases "getFunctionTypeIDs String s1 (TypeSection module)")
  have "modules s1 = modules s" using requireModuleName_modules [of s name] req by simp
  moreover have "modules s2 = modules s1"
    using getFunctionTypeIDs_modules [of String s1 "TypeSection module"] ids by simp
  ultimately have "modules s2 = modules s" by simp
  then have cong: "resolveImports s2 h module = resolveImports s h module"
    by (rule resolveImports_modules_cong)
  show ?thesis
  proof (cases "resolveImports s h module")
    case (Inr r)
    then show ?thesis by blast
  next
    case (Inl err)
    with cong have "resolveImports s2 h module = Inl err" by simp
    with req ids have "\<exists>st e. Instantiate_build String O' s h module name = (st, h, Inl e)"
      by (cases e1; cases r2)
         (simp_all add: Instantiate_build_def split del: if_split
            cong: option.case_cong_weak sum.case_cong_weak)
    with assms show ?thesis by (auto simp: Instantiate_def)
  qed
qed


subsection \<open>Instantiate\<close>

lemmas sample_defs = env_Store_def Instantiate_def Instantiate_build_def Instantiate_finish_def
      requireModuleName_def NewStore_def env_Module_def empty_Module_def env_outcomes_def
      plain_outcomes_def resolveImports_def addSections_def buildExports_def new_ModuleInstance_def
      buildDataInstances_def addModule_def externref_table_def Let_def
      importing_Module_def funcref_import_def resolveImport_def getExport_def

lemma env_Store_modules:
  "modules env_Store ''env'' = Some
     \<lparr> mod_Name = ''env'',
       mod_Exports = [''tbl'' \<mapsto> \<lparr> ei_Type = ExternTypeTable, ei_Function = None, ei_Global = None,
                       ei_Memory = None, ei_Table = Some externref_table \<rparr>],
       mod_Functions = [], mod_Globals = [], mod_Memory = None, mod_Tables = [externref_table],
       mod_Types = [], mod_TypeIDs = [], mod_DataInstances = [] \<rparr>"
  by (simp add: sample_defs)

lemma env_Store_names: "moduleNames env_Store = {''env''}"
  by (simp add: sample_defs)

text \<open>
  C4 fails at the element type: the table case of \<open>resolveImports\<close> reads only \<open>Min\<close>
  and \<open>Max\<close> of the declared and of the exported table, where the function case compares
  the signatures and the global case compares mutability and value type. The store
  holds a module \<open>env\<close> whose export \<open>tbl\<close> is an externref table; a module that
  imports \<open>env.tbl\<close> as a funcref table is instantiated without error, where the claim
  has \<open>resolveImports\<close> verify that the element types are equal and instantiation fail
  with a link error.
\<close>

theorem table_element_type_not_compared:
  "imp_DescTable funcref_import = Some \<lparr> tab_Type = RefTypeFuncref, tab_Min = 1, tab_Max = None \<rparr>
   \<and> ti_Type externref_table = RefTypeExternref
   \<and> (\<exists>exporter e. modules env_Store ''env'' = Some exporter
          \<and> mod_Exports exporter ''tbl'' = Some e \<and> ei_Table e = Some externref_table)
   \<and> resolveImports env_Store [] importing_Module = Inr ([], [], [externref_table], None)
   \<and> (\<exists>s' m'. Instantiate sample_codec sample_String plain_outcomes env_Store [] importing_Module ''app''
          = (s', [], Inr m'))"
  by (simp add: sample_defs)

text \<open>
  C1 fails at the creation of the module engine: that error path of \<open>Instantiate\<close>
  returns without calling \<open>deleteModule\<close>. Instantiating the empty module under the
  name \<open>m\<close> in a new store, with an engine that fails to compile, returns the
  compilation error and leaves \<open>m\<close> reserved: the name cannot be instantiated again.
\<close>

theorem engine_failure_keeps_reservation:
  "(case Instantiate sample_codec sample_String failing_engine_outcomes (NewStore 0) [] empty_Module ''m'' of
      (s', h', r) \<Rightarrow>
        r = Inl (CompilationFailed (External ''compile''))
      \<and> ''m'' \<in> moduleNames s'
      \<and> requireModuleName s' ''m'' = (s', Some (ModuleAlreadyInstantiated ''m'')))"
  by (simp add: sample_defs failing_engine_outcomes_def)


lemma Instantiate_link_error:
  assumes "resolveImports s h module = Inl err"
    and "name \<notin> moduleNames s"
    and "getFunctionTypeIDs String (fst (requireModuleName s name)) (TypeSection module) = (s2, Inr ids)"
  shows "Instantiate D String O' s h module name = (release_on_error s2 name err, h, Inl err)"
proof -
  let ?s1 = "s\<lparr> moduleNames := insert name (moduleNames s) \<rparr>"
  have req: "requireModuleName s name = (?s1, None)"
    using assms(2) by (simp add: requireModuleName_def)
  with assms(3) have ids: "getFunctionTypeIDs String ?s1 (TypeSection module) = (s2, Inr ids)"
    by simp
  have "modules s2 = modules ?s1"
    using getFunctionTypeIDs_modules [of String ?s1 "TypeSection module"] ids by simp
  then have "modules s2 = modules s" by simp
  then have "resolveImports s2 h module = resolveImports s h module"
    by (rule resolveImports_modules_cong)
  with assms(1) have res: "resolveImports s2 h module = Inl err" by simp
  have "Instantiate_build String O' s h module name = (release_on_error s2 name err, h, Inl err)"
    using req ids res
    by (simp add: Instantiate_build_def split del: if_split
          cong: option.case_cong_weak sum.case_cong_weak)
  then show ?thesis by (simp add: Instantiate_def)
qed

text \<open>
  The limits of a table import. For a table import whose module and export are found,
  \<open>resolveImports\<close> verifies the limits: the exported table's min is at least the
  declared min and, when a max is declared, the exported table has a max that is at most
  the declared one. If \<open>resolveImports\<close>, or \<open>Instantiate\<close>, succeeds, the limits match.
  If they do not match and the imports before this one resolve, \<open>resolveImports\<close> fails
  with a link error that carries the index and the import, and \<open>Instantiate\<close> (the name
  being free and the types interned) returns that error and releases the name. If they
  match, the import resolves to the exported table, whatever the two element types are.
\<close>

theorem table_import_limits_checked:
  assumes "ImportSection module = Some imports" and "idx < length imports"
    and "imp_Type (imports ! idx) = ExternTypeTable"
    and "modules s (imp_Module (imports ! idx)) = Some exporter"
    and "mod_Exports exporter (imp_Name (imports ! idx)) = Some e"
    and "ei_Type e = ExternTypeTable" and "ei_Table e = Some actual"
    and "imp_DescTable (imports ! idx) = Some expected"
  shows "(\<forall>r. resolveImports s h module = Inr r \<longrightarrow> table_limits_match expected actual)
       \<and> (\<forall>s' h' m'. Instantiate D String O' s h module name = (s', h', Inr m')
             \<longrightarrow> table_limits_match expected actual)
       \<and> (\<not> table_limits_match expected actual \<longrightarrow>
            (\<forall>acc. resolveImports_loop s h module 0 (take idx imports) ([], [], [], None) = Inr acc
               \<longrightarrow> (\<exists>err. resolveImports s h module = Inl err
                        \<and> table_link_error idx (imports ! idx) expected actual err
                        \<and> (\<forall>s2 ids. name \<notin> moduleNames s
                              \<and> getFunctionTypeIDs String (fst (requireModuleName s name))
                                   (TypeSection module) = (s2, Inr ids)
                              \<longrightarrow> Instantiate D String O' s h module name
                                    = (deleteModule s2 name, h, Inl err)))))
       \<and> (table_limits_match expected actual \<longrightarrow>
            (\<forall>fs gs ts mem. resolveImport s h module idx (imports ! idx) (fs, gs, ts, mem)
               = Inr (fs, gs, ts @ [actual], mem)))"
proof (intro conjI allI impI)
  fix r assume ok: "resolveImports s h module = Inr r"
  then have loop: "resolveImports_loop s h module 0 imports ([], [], [], None) = Inr r"
    using assms(1) by (simp add: resolveImports_def)
  from resolveImports_loop_success_nth [OF loop assms(2)]
  obtain acc' r' where "resolveImport s h module idx (imports ! idx) acc' = Inr r'" by auto
  with assms(3-8) show "table_limits_match expected actual"
    by (rule resolveImport_table_success)
next
  fix s' h' m' assume "Instantiate D String O' s h module name = (s', h', Inr m')"
  then obtain r where ok: "resolveImports s h module = Inr r"
    using Instantiate_success_resolves by blast
  then have loop: "resolveImports_loop s h module 0 imports ([], [], [], None) = Inr r"
    using assms(1) by (simp add: resolveImports_def)
  from resolveImports_loop_success_nth [OF loop assms(2)]
  obtain acc' r' where "resolveImport s h module idx (imports ! idx) acc' = Inr r'" by auto
  with assms(3-8) show "table_limits_match expected actual"
    by (rule resolveImport_table_success)
next
  fix acc
  assume bad: "\<not> table_limits_match expected actual"
    and before: "resolveImports_loop s h module 0 (take idx imports) ([], [], [], None) = Inr acc"
  obtain fs gs ts mem where acc: "acc = (fs, gs, ts, mem)" by (cases acc)
  from resolveImport_table(2) [OF assms(3-8) bad, of h module idx fs gs ts mem]
  obtain err where err: "resolveImport s h module idx (imports ! idx) acc = Inl err"
    and link: "table_link_error idx (imports ! idx) expected actual err"
    using acc by auto
  have "resolveImports_loop s h module 0 imports ([], [], [], None) = Inl err"
    using resolveImports_loop_first_failure [OF before assms(2)] err by simp
  then have res: "resolveImports s h module = Inl err"
    using assms(1) by (simp add: resolveImports_def)
  have notpanic: "release_on_error st name err = deleteModule st name" for st
    using link
    by (auto simp: table_link_error_def release_on_error_def split: option.splits)
  have "Instantiate D String O' s h module name = (deleteModule s2 name, h, Inl err)"
    if "name \<notin> moduleNames s \<and> getFunctionTypeIDs String (fst (requireModuleName s name))
                                   (TypeSection module) = (s2, Inr ids)" for s2 ids
    using Instantiate_link_error [OF res, of name String s2 ids D O'] that notpanic by simp
  with res link
  show "\<exists>err. resolveImports s h module = Inl err
                        \<and> table_link_error idx (imports ! idx) expected actual err
                        \<and> (\<forall>s2 ids. name \<notin> moduleNames s
                              \<and> getFunctionTypeIDs String (fst (requireModuleName s name))
                                   (TypeSection module) = (s2, Inr ids)
                              \<longrightarrow> Instantiate D String O' s h module name
                                    = (deleteModule s2 name, h, Inl err))"
    by blast
next
  fix fs gs ts mem
  assume "table_limits_match expected actual"
  with assms(3-8)
  show "resolveImport s h module idx (imports ! idx) (fs, gs, ts, mem)
          = Inr (fs, gs, ts @ [actual], mem)"
    by (rule resolveImport_table(1))
qed


theorem table_import_limits_checked_witness:
  "table_limits_match \<lparr> tab_Type = RefTypeFuncref, tab_Min = 1, tab_Max = None \<rparr> externref_table
   \<and> (\<exists>r. resolveImports env_Store [] importing_Module = Inr r)
   \<and> \<not> table_limits_match \<lparr> tab_Type = RefTypeFuncref, tab_Min = 5, tab_Max = None \<rparr> externref_table
   \<and> resolveImports env_Store [] (empty_Module\<lparr> ImportSection := Some [oversized_import] \<rparr>)
       = Inl (InvalidImport 0 oversized_import (MinimumSizeMismatch 5 2))"
proof -
  let ?e = "\<lparr> ei_Type = ExternTypeTable, ei_Function = None, ei_Global = None,
             ei_Memory = None, ei_Table = Some externref_table \<rparr>"
  let ?exporter = "\<lparr> mod_Name = ''env'', mod_Exports = [''tbl'' \<mapsto> ?e],
       mod_Functions = [], mod_Globals = [], mod_Memory = None, mod_Tables = [externref_table],
       mod_Types = [], mod_TypeIDs = [], mod_DataInstances = [] \<rparr>"
  let ?big = "empty_Module\<lparr> ImportSection := Some [oversized_import] \<rparr>"
  have a1: "ImportSection importing_Module = Some [funcref_import]"
    by (simp add: importing_Module_def empty_Module_def)
  have b1: "ImportSection ?big = Some [oversized_import]" by (simp add: empty_Module_def)
  have a2: "(0::nat) < length [funcref_import]" and b2: "(0::nat) < length [oversized_import]"
    by simp_all
  have a3: "imp_Type ([funcref_import] ! 0) = ExternTypeTable"
    and b3: "imp_Type ([oversized_import] ! 0) = ExternTypeTable"
    by (simp_all add: funcref_import_def oversized_import_def)
  have a4: "modules env_Store (imp_Module ([funcref_import] ! 0)) = Some ?exporter"
    and b4: "modules env_Store (imp_Module ([oversized_import] ! 0)) = Some ?exporter"
    using env_Store_modules by (simp_all add: funcref_import_def oversized_import_def)
  have a5: "mod_Exports ?exporter (imp_Name ([funcref_import] ! 0)) = Some ?e"
    and b5: "mod_Exports ?exporter (imp_Name ([oversized_import] ! 0)) = Some ?e"
    by (simp_all add: funcref_import_def oversized_import_def)
  have a6: "ei_Type ?e = ExternTypeTable" and a7: "ei_Table ?e = Some externref_table" by simp_all
  have a8: "imp_DescTable ([funcref_import] ! 0)
              = Some \<lparr> tab_Type = RefTypeFuncref, tab_Min = 1, tab_Max = None \<rparr>"
    and b8: "imp_DescTable ([oversized_import] ! 0)
              = Some \<lparr> tab_Type = RefTypeFuncref, tab_Min = 5, tab_Max = None \<rparr>"
    by (simp_all add: funcref_import_def oversized_import_def)
  have ok: "\<exists>r. resolveImports env_Store [] importing_Module = Inr r"
    using env_Store_modules
    by (simp add: resolveImports_def importing_Module_def empty_Module_def funcref_import_def
          resolveImport_def getExport_def externref_table_def)
  have bad: "\<not> table_limits_match \<lparr> tab_Type = RefTypeFuncref, tab_Min = 5, tab_Max = None \<rparr> externref_table"
    by (simp add: table_limits_match_def externref_table_def)
  note good = table_import_limits_checked [OF a1 a2 a3 a4 a5 a6 a7 a8,
      of "[]" sample_codec sample_String plain_outcomes "''app''"]
  note viol = table_import_limits_checked [OF b1 b2 b3 b4 b5 a6 a7 b8,
      of "[]" sample_codec sample_String plain_outcomes "''app''"]
  from good ok have "table_limits_match \<lparr> tab_Type = RefTypeFuncref, tab_Min = 1, tab_Max = None \<rparr> externref_table"
    by blast
  moreover from viol bad
  obtain err where "resolveImports env_Store [] ?big = Inl err"
    and "table_link_error 0 ([oversized_import] ! 0) \<lparr> tab_Type = RefTypeFuncref, tab_Min = 5, tab_Max = None \<rparr> externref_table err"
    by auto
  then have "resolveImports env_Store [] ?big = Inl (InvalidImport 0 oversized_import (MinimumSizeMismatch 5 2))"
    by (auto simp: table_link_error_def externref_table_def)
  ultimately show ?thesis using ok bad by simp
qed


subsection \<open>The name reservation through Instantiate\<close>

lemma names_inv_NewStore: "names_inv (NewStore features)"
  by (simp add: names_inv_def NewStore_def)

lemma names_inv_requireModuleName: "names_inv s \<Longrightarrow> names_inv (fst (requireModuleName s n))"
  by (auto simp: names_inv_def requireModuleName_def)

lemma names_inv_deleteModule: "names_inv s \<Longrightarrow> names_inv (deleteModule s n)"
  by (auto simp: names_inv_def deleteModule_def)

lemma names_inv_addModule:
  "names_inv s \<Longrightarrow> mod_Name m \<in> moduleNames s \<Longrightarrow> names_inv (addModule s m)"
  by (auto simp: names_inv_def addModule_def)

lemma names_inv_release: "names_inv s \<Longrightarrow> names_inv (release_on_error s n err)"
  by (cases err) (simp_all add: release_on_error_def names_inv_deleteModule)

lemma getFunctionTypeID_moduleNames:
  "moduleNames (fst (getFunctionTypeID String s t)) = moduleNames s"
  by (simp add: getFunctionTypeID_def Let_def split: option.splits)

lemma getFunctionTypeIDs_moduleNames:
  "moduleNames (fst (getFunctionTypeIDs String s ts)) = moduleNames s"
proof (induction ts arbitrary: s)
  case Nil
  then show ?case by simp
next
  case (Cons t ts)
  obtain s1 r1 where step: "getFunctionTypeID String s t = (s1, r1)"
    by (cases "getFunctionTypeID String s t")
  then have m1: "moduleNames s1 = moduleNames s"
    using getFunctionTypeID_moduleNames [of String s t] by simp
  show ?case
  proof (cases r1)
    case (Inl e)
    with step m1 show ?thesis by simp
  next
    case (Inr i)
    obtain s2 r2 where rest: "getFunctionTypeIDs String s1 ts = (s2, r2)"
      by (cases "getFunctionTypeIDs String s1 ts")
    then have "moduleNames s2 = moduleNames s1" using Cons.IH [of s1] by simp
    with step Inr rest m1 show ?thesis by (cases r2) simp_all
  qed
qed

lemma addSections_Name:
  "addSections m module ifs fs igs gs ts mem imem types ids = Inr m' \<Longrightarrow> mod_Name m' = mod_Name m"
  by (auto simp: addSections_def buildExports_def buildDataInstances_def Let_def
        split: sum.splits if_splits)

lemma release_on_error_cases:
  "(\<exists>p. err = Panic p \<and> release_on_error s n err = s) \<or> release_on_error s n err = deleteModule s n"
  by (cases err) (simp_all add: release_on_error_def)

lemma Instantiate_build_cases:
  assumes run: "Instantiate_build String O' s h module name = (s', h', r)"
  shows "(name \<in> moduleNames s \<and> s' = s \<and> h' = h \<and> r = Inl (ModuleAlreadyInstantiated name))
       \<or> (name \<notin> moduleNames s
          \<and> (\<exists>s2. modules s2 = modules s \<and> moduleNames s2 = insert name (moduleNames s)
                \<and> ((\<exists>e. s' = deleteModule s2 name \<and> h' = h \<and> r = Inl e)
                   \<or> (\<exists>p. s' = s2 \<and> r = Inl (Panic p))
                   \<or> (\<exists>m. s' = s2 \<and> r = Inr m \<and> mod_Name m = name))))"
proof (cases "name \<in> moduleNames s")
  case True
  then have "Instantiate_build String O' s h module name
               = (s, h, Inl (ModuleAlreadyInstantiated name))"
    by (simp add: Instantiate_build_def requireModuleName_def)
  with run True show ?thesis by auto
next
  case False
  let ?s1 = "s\<lparr> moduleNames := insert name (moduleNames s) \<rparr>"
  have req: "requireModuleName s name = (?s1, None)"
    using False by (simp add: requireModuleName_def)
  obtain s2 r2 where ids: "getFunctionTypeIDs String ?s1 (TypeSection module) = (s2, r2)"
    by (cases "getFunctionTypeIDs String ?s1 (TypeSection module)")
  have mods: "modules s2 = modules s"
    using getFunctionTypeIDs_modules [of String ?s1 "TypeSection module"] ids by simp
  have nms: "moduleNames s2 = insert name (moduleNames s)"
    using getFunctionTypeIDs_moduleNames [of String ?s1 "TypeSection module"] ids by simp
  have "(\<exists>e. s' = deleteModule s2 name \<and> h' = h \<and> r = Inl e)
       \<or> (\<exists>p. s' = s2 \<and> r = Inl (Panic p))
       \<or> (\<exists>m. s' = s2 \<and> r = Inr m \<and> mod_Name m = name)"
  proof (cases r2)
    case (Inl e)
    note ids = ids [unfolded Inl]
    have "Instantiate_build String O' s h module name = (deleteModule s2 name, h, Inl e)"
      by (simp only: Instantiate_build_def req ids prod.case option.case sum.case)
    with run show ?thesis by auto
  next
    case ids_ok: (Inr typeIDs')
    note ids = ids [unfolded ids_ok]
    show ?thesis
    proof (cases "resolveImports s2 h module")
      case (Inl e)
      then have "Instantiate_build String O' s h module name = (release_on_error s2 name e, h, Inl e)"
        by (simp only: Instantiate_build_def req ids prod.case option.case sum.case)
      with run release_on_error_cases [of e s2 name] show ?thesis by auto
    next
      case res: (Inr resolved)
      obtain ifs igs its imem where resolved: "resolved = (ifs, igs, its, imem)"
        by (cases resolved)
      show ?thesis
      proof (cases "buildTables_result O'")
        case (Inl e)
        then have "Instantiate_build String O' s h module name = (deleteModule s2 name, h, Inl e)"
          by (simp only: Instantiate_build_def req ids res resolved prod.case option.case sum.case)
        with run show ?thesis by auto
      next
        case tabs: (Inr tables)
        let ?mem = "case buildMemory_result O' of None \<Rightarrow> (None, h)
                         | Some mi \<Rightarrow> (Some (length h), h @ [mi])"
        let ?add = "addSections (new_ModuleInstance name) module ifs (buildFunctions_result O') igs
                       (buildGlobals_result O') tables imem (fst ?mem) (TypeSection module) typeIDs'"
        have unfold: "Instantiate_build String O' s h module name =
            (case ?add of Inl p \<Rightarrow> (s2, snd ?mem, Inl (Panic p)) | Inr m \<Rightarrow> (s2, snd ?mem, Inr m))"
          by (simp only: Instantiate_build_def req ids res resolved tabs
                prod.case option.case sum.case Let_def split_beta fst_conv snd_conv)
        show ?thesis
        proof (cases ?add)
          case (Inl p)
          with unfold run show ?thesis by auto
        next
          case (Inr m)
          then have "mod_Name m = name"
            using addSections_Name [of "new_ModuleInstance name"] by (simp add: new_ModuleInstance_def)
          with unfold Inr run show ?thesis by auto
        qed
      qed
    qed
  qed
  with False mods nms show ?thesis by blast
qed

lemma Instantiate_finish_cases:
  assumes run: "Instantiate_finish D O' s h module name m = (s', h', r)"
  shows "(\<exists>e. s' = deleteModule s name \<and> r = Inl e)
       \<or> (\<exists>p. s' = s \<and> r = Inl (Panic p))
       \<or> (\<exists>e. s' = s \<and> r = Inl (CompilationFailed e))
       \<or> (s' = addModule s m \<and> r = Inr m)"
proof (cases "validateData D h m (DataSection module)")
  case (Some err)
  then have "Instantiate_finish D O' s h module name m = (release_on_error s name err, h, Inl err)"
    by (simp add: Instantiate_finish_def)
  with run release_on_error_cases [of err s name] show ?thesis by auto
next
  case None
  show ?thesis
  proof (cases "NewModuleEngine_result O'")
    case (Some err)
    with None have "Instantiate_finish D O' s h module name m = (s, h, Inl (CompilationFailed err))"
      by (simp add: Instantiate_finish_def)
    with run show ?thesis by auto
  next
    case eng: None
    obtain h1 p1 where ap: "applyData D h m (DataSection module) = (h1, p1)"
      by (cases "applyData D h m (DataSection module)")
    show ?thesis
    proof (cases p1)
      case (Some p)
      with None eng ap have "Instantiate_finish D O' s h module name m = (s, h1, Inl (Panic p))"
        by (simp add: Instantiate_finish_def)
      with run show ?thesis by auto
    next
      case ok: None
      show ?thesis
      proof (cases "StartSection module")
        case None
        with \<open>validateData D h m (DataSection module) = None\<close> eng ap ok
        have "Instantiate_finish D O' s h module name m = (addModule s m, h1, Inr m)"
          by (simp add: Instantiate_finish_def)
        with run show ?thesis by auto
      next
        case (Some funcIdx)
        show ?thesis
        proof (cases "unat funcIdx < length (mod_Functions m)")
          case False
          with \<open>validateData D h m (DataSection module) = None\<close> eng ap ok Some
          have "Instantiate_finish D O' s h module name m = (s, h1, Inl (Panic IndexOutOfRange))"
            by (simp add: Instantiate_finish_def)
          with run show ?thesis by auto
        next
          case True
          obtain h2 e2 where call: "Call_result O' (mod_Functions m ! unat funcIdx) h1 = (h2, e2)"
            by (cases "Call_result O' (mod_Functions m ! unat funcIdx) h1")
          with \<open>validateData D h m (DataSection module) = None\<close> eng ap ok Some True
          have "Instantiate_finish D O' s h module name m =
                  (case e2 of Some err \<Rightarrow> (deleteModule s name, h2, Inl (StartFailed funcIdx err))
                   | None \<Rightarrow> (addModule s m, h2, Inr m))"
            by (simp add: Instantiate_finish_def Let_def)
          with run show ?thesis by (cases e2) auto
        qed
      qed
    qed
  qed
qed

text \<open>
  \<open>Instantiate\<close> keeps every instantiated module's name reserved.
\<close>

lemma Instantiate_names_inv:
  assumes inv: "names_inv s"
  shows "names_inv (fst (Instantiate D String O' s h module name))"
proof -
  obtain s1 h1 r1 where b: "Instantiate_build String O' s h module name = (s1, h1, r1)"
    by (cases "Instantiate_build String O' s h module name")
  note bc = Instantiate_build_cases [OF b]
  have lift: "names_inv s2"
    if "modules s2 = modules s" "moduleNames s2 = insert name (moduleNames s)" for s2
    using inv that by (auto simp: names_inv_def)
  from bc have inv1: "names_inv s1"
    using inv lift by (auto simp: names_inv_deleteModule)
  from bc have nm: "mod_Name m = name \<and> name \<in> moduleNames s1" if "r1 = Inr m" for m
    using that by auto
  show ?thesis
  proof (cases r1)
    case (Inl e)
    with b inv1 show ?thesis by (simp add: Instantiate_def)
  next
    case (Inr m)
    obtain s2 h2 r2 where f: "Instantiate_finish D O' s1 h1 module name m = (s2, h2, r2)"
      by (cases "Instantiate_finish D O' s1 h1 module name m")
    from Instantiate_finish_cases [OF f] inv1 nm [OF Inr]
    have "names_inv s2"
      by (auto simp: names_inv_deleteModule names_inv_addModule)
    with b Inr f show ?thesis by (simp add: Instantiate_def)
  qed
qed

text \<open>
  Every error of \<open>Instantiate\<close> under a free name, other than the compilation error
  and a panic, leaves the name released.
\<close>

lemma Instantiate_releases_name:
  assumes run: "Instantiate D String O' s h module name = (s', h', Inl err)"
    and free: "name \<notin> moduleNames s"
  shows "(\<exists>p. err = Panic p) \<or> (\<exists>e. err = CompilationFailed e)
       \<or> (name \<notin> moduleNames s' \<and> modules s' name = None)"
proof -
  obtain s1 h1 r1 where b: "Instantiate_build String O' s h module name = (s1, h1, r1)"
    by (cases "Instantiate_build String O' s h module name")
  note bc = Instantiate_build_cases [OF b]
  show ?thesis
  proof (cases r1)
    case (Inl e)
    with b run have "s' = s1" "err = e" by (simp_all add: Instantiate_def)
    with bc Inl free show ?thesis by (auto simp: deleteModule_def)
  next
    case (Inr m)
    with b run have f: "Instantiate_finish D O' s1 h1 module name m = (s', h', Inl err)"
      by (simp add: Instantiate_def)
    from Instantiate_finish_cases [OF f] show ?thesis by (auto simp: deleteModule_def)
  qed
qed

section \<open>Properties of the module configuration\<close>

subsection \<open>Options and the receiver\<close>

lemmas config_defs = NewModuleConfig_def zero_moduleConfig_def empty_heap_def WithFS_def
  setFS_def WithEnv_def append2_def environ_of_def preopens_of_def Let_def

text \<open>
  C2 fails for the options of \<open>ModuleConfig\<close> that write to a map or to the environment
  slice: the copy \<open>ret := *c\<close> shares them with the receiver. After
  \<open>c0 := NewModuleConfig()\<close>, the call \<open>c0.WithFS(fs)\<close> puts the file system into the
  preopens of \<open>c0\<close> itself. After \<open>c1 := c0.WithEnv("a", "1")\<close>, the call
  \<open>c1.WithEnv("a", "2")\<close> changes the environment of \<open>c1\<close> to \<open>a, 2\<close>, and
  \<open>c0.WithEnv("a", "2")\<close> panics, since the key map of \<open>c0\<close> now has \<open>a\<close> while its
  environment is empty. This holds for every growth policy of \<open>append\<close>.
\<close>

theorem options_mutate_receiver:
  "(case NewModuleConfig (empty_heap :: unit heap) of (c0, h0) \<Rightarrow>
      preopens_of h0 c0 = fmempty
    \<and> (case WithFS c0 (Some 7) h0 of
         Inl p \<Rightarrow> False
       | Inr (c1, h1) \<Rightarrow>
           preopens_of h1 c0 = fmupd 3 \<lparr> fe_Path = ''/'', fe_FS = Some 7 \<rparr> fmempty
         \<and> preopens_of h1 c0 \<noteq> preopens_of h0 c0)
    \<and> (case WithEnv grow c0 ''a'' ''1'' h0 of
         Inl p \<Rightarrow> False
       | Inr (c1, h1) \<Rightarrow>
           environ_of h1 c1 = [''a'', ''1'']
         \<and> WithEnv grow c0 ''a'' ''2'' h1 = Inl IndexOutOfRange
         \<and> (case WithEnv grow c1 ''a'' ''2'' h1 of
              Inl p \<Rightarrow> False
            | Inr (c2, h2) \<Rightarrow> environ_of h2 c1 = [''a'', ''2''])))"
  by (simp add: config_defs fmupd_lookup)

subsection \<open>replaceImports\<close>

lemma deref_append: "allocated objs arr \<Longrightarrow> deref (objs @ new) arr = deref objs arr"
  by (induction arr) (simp_all add: deref_def allocated_def nth_append)

lemma allocated_append: "allocated objs arr \<Longrightarrow> allocated (objs @ new) arr"
  by (induction arr) (simp_all add: allocated_def)

lemma replaceModule_loop_spec:
  assumes "allocated objs ps"
  shows "\<exists>qs new. replaceModule_loop old nw ps objs ch
             = Inr (qs, objs @ new, ch \<or> (\<exists>imp\<in>set (deref objs ps). imp_Module imp = old))
         \<and> allocated (objs @ new) qs
         \<and> deref (objs @ new) qs = map (replace_module old nw) (deref objs ps)
         \<and> (\<not> (\<exists>imp\<in>set (deref objs ps). imp_Module imp = old) \<longrightarrow> qs = ps \<and> new = [])"
  using assms
proof (induction ps arbitrary: objs ch)
  case Nil
  show ?case by (simp add: deref_def allocated_def)
next
  case (Cons p ps)
  from Cons.prems have p: "p < length objs" and ps: "allocated objs ps"
    by (simp_all add: allocated_def)
  show ?case
  proof (cases "imp_Module (objs ! p) = old")
    case True
    let ?cp = "(objs ! p)\<lparr> imp_Module := nw \<rparr>"
    have "allocated (objs @ [?cp]) ps" using ps by (rule allocated_append)
    from Cons.IH [OF this, of True]
    obtain qs new where run: "replaceModule_loop old nw ps (objs @ [?cp]) True
             = Inr (qs, (objs @ [?cp]) @ new, True)"
      and al: "allocated ((objs @ [?cp]) @ new) qs"
      and co: "deref ((objs @ [?cp]) @ new) qs = map (replace_module old nw) (deref (objs @ [?cp]) ps)"
      by auto
    have d: "deref (objs @ [?cp]) ps = deref objs ps" using ps by (rule deref_append)
    have "replaceModule_loop old nw (p # ps) objs ch = Inr (length objs # qs, objs @ (?cp # new), True)"
      using p True run by simp
    moreover have "allocated (objs @ (?cp # new)) (length objs # qs)"
      using al by (simp add: allocated_def)
    moreover have "deref (objs @ (?cp # new)) (length objs # qs)
                     = map (replace_module old nw) (deref objs (p # ps))"
      using co d True by (simp add: deref_def replace_module_def)
    moreover have "\<exists>imp\<in>set (deref objs (p # ps)). imp_Module imp = old"
      using True by (simp add: deref_def)
    ultimately show ?thesis by (intro exI [of _ "length objs # qs"] exI [of _ "?cp # new"]) simp
  next
    case False
    from Cons.IH [OF ps, of ch]
    obtain qs new where run: "replaceModule_loop old nw ps objs ch
             = Inr (qs, objs @ new, ch \<or> (\<exists>imp\<in>set (deref objs ps). imp_Module imp = old))"
      and al: "allocated (objs @ new) qs"
      and co: "deref (objs @ new) qs = map (replace_module old nw) (deref objs ps)"
      and same: "\<not> (\<exists>imp\<in>set (deref objs ps). imp_Module imp = old) \<longrightarrow> qs = ps \<and> new = []"
      by auto
    have "replaceModule_loop old nw (p # ps) objs ch
            = Inr (p # qs, objs @ new, ch \<or> (\<exists>imp\<in>set (deref objs (p # ps)). imp_Module imp = old))"
      using p False run by (simp add: deref_def)
    moreover have "allocated (objs @ new) (p # qs)"
      using al p by (simp add: allocated_def)
    moreover have "deref (objs @ new) (p # qs) = map (replace_module old nw) (deref objs (p # ps))"
      using co p False by (simp add: deref_def replace_module_def nth_append)
    moreover have "\<not> (\<exists>imp\<in>set (deref objs (p # ps)). imp_Module imp = old) \<longrightarrow> p # qs = p # ps \<and> new = []"
      using same by (simp add: deref_def)
    ultimately show ?thesis by (intro exI [of _ "p # qs"] exI [of _ new]) simp
  qed
qed


lemma import_matches_split:
  "IndexByte key NUL = Some n \<Longrightarrow>
     import_matches key imp = (imp_Module imp = take n key \<and> imp_Name imp = drop (n + 1) key)"
  by (simp add: import_matches_def)

lemma replaceImport_loop_spec:
  assumes "allocated objs ps" and key: "IndexByte key NUL = Some n"
  shows "\<exists>qs new. replaceImport_loop key nw ps objs ch
             = Inr (qs, objs @ new, ch \<or> (\<exists>imp\<in>set (deref objs ps). import_matches key imp))
         \<and> allocated (objs @ new) qs
         \<and> deref (objs @ new) qs = map (replace_import key nw) (deref objs ps)
         \<and> (\<not> (\<exists>imp\<in>set (deref objs ps). import_matches key imp) \<longrightarrow> qs = ps \<and> new = [])"
  using assms(1)
proof (induction ps arbitrary: objs ch)
  case Nil
  show ?case by (simp add: deref_def allocated_def)
next
  case (Cons p ps)
  from Cons.prems have p: "p < length objs" and ps: "allocated objs ps"
    by (simp_all add: allocated_def)
  note m = import_matches_split [OF key]
  show ?case
  proof (cases "import_matches key (objs ! p)")
    case True
    let ?cp = "(objs ! p)\<lparr> imp_Module := fst nw, imp_Name := snd nw \<rparr>"
    have "allocated (objs @ [?cp]) ps" using ps by (rule allocated_append)
    from Cons.IH [OF this, of True]
    obtain qs new where run: "replaceImport_loop key nw ps (objs @ [?cp]) True
             = Inr (qs, (objs @ [?cp]) @ new, True)"
      and al: "allocated ((objs @ [?cp]) @ new) qs"
      and co: "deref ((objs @ [?cp]) @ new) qs = map (replace_import key nw) (deref (objs @ [?cp]) ps)"
      by auto
    have d: "deref (objs @ [?cp]) ps = deref objs ps" using ps by (rule deref_append)
    have ym: "imp_Module (objs ! p) = take n key \<and> imp_Name (objs ! p) = drop (n + 1) key"
      using True m [of "objs ! p"] by simp
    have "replaceImport_loop key nw (p # ps) objs ch = Inr (length objs # qs, objs @ (?cp # new), True)"
      using p ym run key by (simp add: Let_def)
    moreover have "allocated (objs @ (?cp # new)) (length objs # qs)"
      using al by (simp add: allocated_def)
    moreover have "deref (objs @ (?cp # new)) (length objs # qs)
                     = map (replace_import key nw) (deref objs (p # ps))"
      using co d True by (simp add: deref_def replace_import_def)
    moreover have "\<exists>imp\<in>set (deref objs (p # ps)). import_matches key imp"
      using True by (simp add: deref_def)
    ultimately show ?thesis by (intro exI [of _ "length objs # qs"] exI [of _ "?cp # new"]) simp
  next
    case False
    from Cons.IH [OF ps, of ch]
    obtain qs new where run: "replaceImport_loop key nw ps objs ch
             = Inr (qs, objs @ new, ch \<or> (\<exists>imp\<in>set (deref objs ps). import_matches key imp))"
      and al: "allocated (objs @ new) qs"
      and co: "deref (objs @ new) qs = map (replace_import key nw) (deref objs ps)"
      and same: "\<not> (\<exists>imp\<in>set (deref objs ps). import_matches key imp) \<longrightarrow> qs = ps \<and> new = []"
      by auto
    have nm: "\<not> (imp_Module (objs ! p) = take n key \<and> imp_Name (objs ! p) = drop (n + 1) key)"
      using False m [of "objs ! p"] by simp
    have "replaceImport_loop key nw (p # ps) objs ch
            = Inr (p # qs, objs @ new, ch \<or> (\<exists>imp\<in>set (deref objs ps). import_matches key imp))"
      using p nm run key by (auto simp: Let_def)
    then have "replaceImport_loop key nw (p # ps) objs ch
            = Inr (p # qs, objs @ new, ch \<or> (\<exists>imp\<in>set (deref objs (p # ps)). import_matches key imp))"
      using False by (simp add: deref_def)
    moreover have "allocated (objs @ new) (p # qs)"
      using al p by (simp add: allocated_def)
    moreover have "deref (objs @ new) (p # qs) = map (replace_import key nw) (deref objs (p # ps))"
      using co p False by (simp add: deref_def replace_import_def nth_append)
    moreover have "\<not> (\<exists>imp\<in>set (deref objs (p # ps)). import_matches key imp) \<longrightarrow> p # qs = p # ps \<and> new = []"
      using same by (simp add: deref_def)
    ultimately show ?thesis by (intro exI [of _ "p # qs"] exI [of _ new]) simp
  qed
qed

lemma entries_Cons:
  "entries m (k # ks) = (case fmlookup m k of None \<Rightarrow> entries m ks | Some v \<Rightarrow> (k, v) # entries m ks)"
  by (simp add: entries_def List.map_filter_simps split: option.splits)

lemma entries_Nil: "entries m [] = []"
  by (simp add: entries_def List.map_filter_simps)

lemma apply_module_replacements_Cons:
  "apply_module_replacements ((old, nw) # es) imp = apply_module_replacements es (replace_module old nw imp)"
  by (simp add: apply_module_replacements_def)

lemma apply_import_replacements_Cons:
  "apply_import_replacements ((key, nw) # es) imp = apply_import_replacements es (replace_import key nw imp)"
  by (simp add: apply_import_replacements_def)

lemma map_replace_module_id:
  "\<not> (\<exists>imp\<in>set imps. imp_Module imp = old) \<Longrightarrow> map (replace_module old nw) imps = imps"
  by (induction imps) (simp_all add: replace_module_def)

lemma map_replace_import_id:
  "\<not> (\<exists>imp\<in>set imps. import_matches key imp) \<Longrightarrow> map (replace_import key nw) imps = imps"
  by (induction imps) (simp_all add: replace_import_def)

lemma module_match_Cons:
  "module_match ((old, nw) # es) imps
     = ((\<exists>imp\<in>set imps. imp_Module imp = old) \<or> module_match es (map (replace_module old nw) imps))"
proof (cases "\<exists>imp\<in>set imps. imp_Module imp = old")
  case True
  then show ?thesis by (auto simp: module_match_def)
next
  case False
  then have "map (replace_module old nw) imps = imps" by (rule map_replace_module_id)
  with False show ?thesis by (auto simp: module_match_def)
qed

lemma import_match_Cons:
  "import_match ((key, nw) # es) imps
     = ((\<exists>imp\<in>set imps. import_matches key imp) \<or> import_match es (map (replace_import key nw) imps))"
proof (cases "\<exists>imp\<in>set imps. import_matches key imp")
  case True
  then show ?thesis by (auto simp: import_match_def)
next
  case False
  then have "map (replace_import key nw) imps = imps" by (rule map_replace_import_id)
  with False show ?thesis by (auto simp: import_match_def)
qed


lemma replaceModules_pass_spec:
  assumes "allocated objs arr"
  shows "\<exists>arr' new. replaceModules_pass m ks arr objs ch
             = Inr (arr', objs @ new, ch \<or> module_match (entries m ks) (deref objs arr))
         \<and> allocated (objs @ new) arr'
         \<and> deref (objs @ new) arr' = map (apply_module_replacements (entries m ks)) (deref objs arr)
         \<and> (\<not> module_match (entries m ks) (deref objs arr) \<longrightarrow> arr' = arr \<and> new = [])"
  using assms
proof (induction ks arbitrary: arr objs ch)
  case Nil
  then show ?case
    by (simp add: entries_Nil module_match_def apply_module_replacements_def)
next
  case (Cons k ks)
  show ?case
  proof (cases "fmlookup m k")
    case None
    then have e: "entries m (k # ks) = entries m ks" by (simp add: entries_Cons)
    from Cons.IH [OF Cons.prems, of ch] None show ?thesis unfolding e by simp
  next
    case (Some nw)
    then have e: "entries m (k # ks) = (k, nw) # entries m ks" by (simp add: entries_Cons)
    let ?es = "entries m ks"
    let ?M1 = "\<exists>imp\<in>set (deref objs arr). imp_Module imp = k"
    from replaceModule_loop_spec [OF Cons.prems, of k nw ch]
    obtain arr1 new1 where run1: "replaceModule_loop k nw arr objs ch = Inr (arr1, objs @ new1, ch \<or> ?M1)"
      and al1: "allocated (objs @ new1) arr1"
      and co1: "deref (objs @ new1) arr1 = map (replace_module k nw) (deref objs arr)"
      and same1: "\<not> ?M1 \<longrightarrow> arr1 = arr \<and> new1 = []"
      by blast
    from Cons.IH [OF al1, of "ch \<or> ?M1"]
    obtain arr2 new2 where run2: "replaceModules_pass m ks arr1 (objs @ new1) (ch \<or> ?M1)
             = Inr (arr2, (objs @ new1) @ new2,
                    (ch \<or> ?M1) \<or> module_match ?es (deref (objs @ new1) arr1))"
      and al2: "allocated ((objs @ new1) @ new2) arr2"
      and co2: "deref ((objs @ new1) @ new2) arr2
                  = map (apply_module_replacements ?es) (deref (objs @ new1) arr1)"
      and same2: "\<not> module_match ?es (deref (objs @ new1) arr1) \<longrightarrow> arr2 = arr1 \<and> new2 = []"
      by blast
    have flag: "module_match ((k, nw) # ?es) (deref objs arr)
                  = (?M1 \<or> module_match ?es (deref (objs @ new1) arr1))"
      unfolding co1 by (rule module_match_Cons)
    have "replaceModules_pass m (k # ks) arr objs ch
            = Inr (arr2, objs @ (new1 @ new2), ch \<or> module_match ((k, nw) # ?es) (deref objs arr))"
      using Some run1 run2 flag by auto
    moreover have "allocated (objs @ (new1 @ new2)) arr2" using al2 by simp
    moreover have "deref (objs @ (new1 @ new2)) arr2
                     = map (apply_module_replacements ((k, nw) # ?es)) (deref objs arr)"
      using co2 co1 by (simp add: apply_module_replacements_Cons o_def)
    moreover have "\<not> module_match ((k, nw) # ?es) (deref objs arr) \<longrightarrow> arr2 = arr \<and> new1 @ new2 = []"
      using flag same1 same2 by auto
    ultimately show ?thesis
      unfolding e by (intro exI [of _ arr2] exI [of _ "new1 @ new2"]) simp
  qed
qed

lemma IndexByte_Some: "c \<in> set s \<Longrightarrow> \<exists>n. IndexByte s c = Some n"
  by (simp add: IndexByte_def)

lemma replaceImports_pass_spec:
  assumes "allocated objs arr" and keys: "\<forall>key\<in>fmdom' m. NUL \<in> set key"
  shows "\<exists>arr' new. replaceImports_pass m ks arr objs ch
             = Inr (arr', objs @ new, ch \<or> import_match (entries m ks) (deref objs arr))
         \<and> allocated (objs @ new) arr'
         \<and> deref (objs @ new) arr' = map (apply_import_replacements (entries m ks)) (deref objs arr)
         \<and> (\<not> import_match (entries m ks) (deref objs arr) \<longrightarrow> arr' = arr \<and> new = [])"
  using assms(1)
proof (induction ks arbitrary: arr objs ch)
  case Nil
  then show ?case
    by (simp add: entries_Nil import_match_def apply_import_replacements_def)
next
  case (Cons k ks)
  show ?case
  proof (cases "fmlookup m k")
    case None
    then have e: "entries m (k # ks) = entries m ks" by (simp add: entries_Cons)
    from Cons.IH [OF Cons.prems, of ch] None show ?thesis unfolding e by simp
  next
    case (Some nw)
    then have e: "entries m (k # ks) = (k, nw) # entries m ks" by (simp add: entries_Cons)
    from Some have "k \<in> fmdom' m" by (rule fmdom'I)
    with keys obtain n where n: "IndexByte k NUL = Some n" using IndexByte_Some by blast
    let ?es = "entries m ks"
    let ?M1 = "\<exists>imp\<in>set (deref objs arr). import_matches k imp"
    from replaceImport_loop_spec [OF Cons.prems n, of nw ch]
    obtain arr1 new1 where run1: "replaceImport_loop k nw arr objs ch = Inr (arr1, objs @ new1, ch \<or> ?M1)"
      and al1: "allocated (objs @ new1) arr1"
      and co1: "deref (objs @ new1) arr1 = map (replace_import k nw) (deref objs arr)"
      and same1: "\<not> ?M1 \<longrightarrow> arr1 = arr \<and> new1 = []"
      by blast
    from Cons.IH [OF al1, of "ch \<or> ?M1"]
    obtain arr2 new2 where run2: "replaceImports_pass m ks arr1 (objs @ new1) (ch \<or> ?M1)
             = Inr (arr2, (objs @ new1) @ new2,
                    (ch \<or> ?M1) \<or> import_match ?es (deref (objs @ new1) arr1))"
      and al2: "allocated ((objs @ new1) @ new2) arr2"
      and co2: "deref ((objs @ new1) @ new2) arr2
                  = map (apply_import_replacements ?es) (deref (objs @ new1) arr1)"
      and same2: "\<not> import_match ?es (deref (objs @ new1) arr1) \<longrightarrow> arr2 = arr1 \<and> new2 = []"
      by blast
    have flag: "import_match ((k, nw) # ?es) (deref objs arr)
                  = (?M1 \<or> import_match ?es (deref (objs @ new1) arr1))"
      unfolding co1 by (rule import_match_Cons)
    have "replaceImports_pass m (k # ks) arr objs ch
            = Inr (arr2, objs @ (new1 @ new2), ch \<or> import_match ((k, nw) # ?es) (deref objs arr))"
      using Some run1 run2 flag by auto
    moreover have "allocated (objs @ (new1 @ new2)) arr2" using al2 by simp
    moreover have "deref (objs @ (new1 @ new2)) arr2
                     = map (apply_import_replacements ((k, nw) # ?es)) (deref objs arr)"
      using co2 co1 by (simp add: apply_import_replacements_Cons o_def)
    moreover have "\<not> import_match ((k, nw) # ?es) (deref objs arr) \<longrightarrow> arr2 = arr \<and> new1 @ new2 = []"
      using flag same1 same2 by auto
    ultimately show ?thesis
      unfolding e by (intro exI [of _ arr2] exI [of _ "new1 @ new2"]) simp
  qed
qed


lemma entries_fmempty: "entries fmempty ks = []"
  by (induction ks) (simp_all add: entries_Nil entries_Cons)

lemma modules_then_imports_Nil: "modules_then_imports [] [] imps = imps"
  by (simp add: modules_then_imports_def apply_module_replacements_def
        apply_import_replacements_def)

lemma heap_imports_same: "h\<lparr> h_imports := h_imports h @ [] \<rparr> = h"
  by simp

lemma replaceImports_spec:
  assumes valid: "valid_module h module"
    and keys: "\<forall>key\<in>fmdom' (replacedImports_of h c). NUL \<in> set key"
  shows "\<exists>h' module'. replaceImports ks1 ks2 c module h = (h', Inr module')
     \<and> Module_imports h' module'
         = map_option (modules_then_imports (entries (replacedImportModules_of h c) ks1)
                          (entries (replacedImports_of h c) ks2))
             (Module_imports h module)
     \<and> (case Module_imports h module of
          None \<Rightarrow> h' = h \<and> module' = module
        | Some imps \<Rightarrow>
            if module_match (entries (replacedImportModules_of h c) ks1) imps
               \<or> import_match (entries (replacedImports_of h c) ks2) imps
            then module' = length (h_modules h)
               \<and> (\<exists>arr new. h' = h\<lparr> h_imports := h_imports h @ new,
                        h_importArrays := h_importArrays h @ [arr],
                        h_modules := h_modules h @
                          [(h_modules h ! module)
                             \<lparr> obj_ImportSection := Some (length (h_importArrays h)) \<rparr>] \<rparr>)
            else h' = h \<and> module' = module)"
proof -
  let ?m1 = "replacedImportModules_of h c" and ?m2 = "replacedImports_of h c"
  let ?es1 = "entries ?m1 ks1" and ?es2 = "entries ?m2 ks2"
  from valid have inb: "module < length (h_modules h)" by (simp add: valid_module_def)
  show ?thesis
  proof (cases "obj_ImportSection (h_modules h ! module)")
    case None
    then have mi: "Module_imports h module = None" by (simp add: Module_imports_def)
    have "replaceImports ks1 ks2 c module h = (h, Inr module)"
      using None inb by (simp add: replaceImports_def)
    then show ?thesis using mi by simp
  next
    case (Some a)
    let ?arr = "h_importArrays h ! a" and ?objs = "h_imports h"
    let ?imps = "deref ?objs ?arr"
    from valid Some have al: "allocated ?objs ?arr" by (simp add: valid_module_def)
    have mi: "Module_imports h module = Some ?imps" using Some by (simp add: Module_imports_def)
    show ?thesis
    proof (cases "mc_replacedImportModules c = None \<and> mc_replacedImports c = None")
      case True
      then have "?es1 = []" "?es2 = []"
        by (simp_all add: replacedImportModules_of_def replacedImports_of_def entries_fmempty)
      moreover have "replaceImports ks1 ks2 c module h = (h, Inr module)"
        using True by (simp add: replaceImports_def)
      ultimately show ?thesis
        using mi by (simp add: modules_then_imports_Nil module_match_def import_match_def)
    next
      case False
      from replaceModules_pass_spec [OF al, of ?m1 ks1 False]
      obtain arr1 new1 where run1: "replaceModules_pass ?m1 ks1 ?arr ?objs False
               = Inr (arr1, ?objs @ new1, module_match ?es1 ?imps)"
        and al1: "allocated (?objs @ new1) arr1"
        and co1: "deref (?objs @ new1) arr1 = map (apply_module_replacements ?es1) ?imps"
        and same1: "\<not> module_match ?es1 ?imps \<longrightarrow> arr1 = ?arr \<and> new1 = []"
        by auto
      from replaceImports_pass_spec [OF al1 keys, of ks2 "module_match ?es1 ?imps"]
      obtain arr2 new2 where run2: "replaceImports_pass ?m2 ks2 arr1 (?objs @ new1) (module_match ?es1 ?imps)
               = Inr (arr2, (?objs @ new1) @ new2,
                      module_match ?es1 ?imps \<or> import_match ?es2 (deref (?objs @ new1) arr1))"
        and al2: "allocated ((?objs @ new1) @ new2) arr2"
        and co2: "deref ((?objs @ new1) @ new2) arr2
                    = map (apply_import_replacements ?es2) (deref (?objs @ new1) arr1)"
        and same2: "\<not> import_match ?es2 (deref (?objs @ new1) arr1) \<longrightarrow> arr2 = arr1 \<and> new2 = []"
        by auto
      let ?changed = "module_match ?es1 ?imps \<or> import_match ?es2 ?imps"
      have flag: "(module_match ?es1 ?imps \<or> import_match ?es2 (deref (?objs @ new1) arr1)) = ?changed"
        using same1 by auto
      have content: "deref ((?objs @ new1) @ new2) arr2 = modules_then_imports ?es1 ?es2 ?imps"
        using co2 co1 by (simp add: modules_then_imports_def)
      have run2': "replaceImports_pass ?m2 ks2 arr1 (?objs @ new1) (module_match ?es1 ?imps)
               = Inr (arr2, (?objs @ new1) @ new2, ?changed)"
        using run2 flag by simp
      have m1: "(case mc_replacedImportModules c of None \<Rightarrow> fmempty
                   | Some m \<Rightarrow> h_replacedImportModules h ! m) = ?m1"
        by (simp add: replacedImportModules_of_def)
      have m2: "(case mc_replacedImports c of None \<Rightarrow> fmempty
                   | Some m \<Rightarrow> h_replacedImports h ! m) = ?m2"
        by (simp add: replacedImports_of_def)
      have unfold: "replaceImports ks1 ks2 c module h =
          (case replaceModules_pass ?m1 ks1 ?arr ?objs False of
                Inl e \<Rightarrow> (h, Inl e)
              | Inr (arr1, objs1, changed1) \<Rightarrow>
                  (case replaceImports_pass ?m2 ks2 arr1 objs1 changed1 of
                     Inl e \<Rightarrow> (h\<lparr> h_imports := objs1 \<rparr>, Inl e)
                   | Inr (arr2, objs2, changed2) \<Rightarrow>
                       if \<not> changed2 then (h\<lparr> h_imports := objs2 \<rparr>, Inr module)
                       else
                         (h\<lparr> h_imports := objs2,
                             h_importArrays := h_importArrays h @ [arr2],
                             h_modules := h_modules h @
                               [(h_modules h ! module)
                                  \<lparr> obj_ImportSection := Some (length (h_importArrays h)) \<rparr>] \<rparr>,
                          Inr (length (h_modules h)))))"
      proof -
        have c0: "(mc_replacedImportModules c = None \<and> mc_replacedImports c = None) = False"
          using False by simp
        show ?thesis
          unfolding replaceImports_def m1 m2 Let_def c0
          using inb Some by (simp split del: if_split cong: sum.case_cong_weak)
      qed
      have u2: "replaceImports ks1 ks2 c module h =
          (if \<not> ?changed then (h\<lparr> h_imports := (?objs @ new1) @ new2 \<rparr>, Inr module)
           else (h\<lparr> h_imports := (?objs @ new1) @ new2,
                     h_importArrays := h_importArrays h @ [arr2],
                     h_modules := h_modules h @
                       [(h_modules h ! module)\<lparr> obj_ImportSection := Some (length (h_importArrays h)) \<rparr>] \<rparr>,
                 Inr (length (h_modules h))))"
        by (simp only: unfold run1 sum.case prod.case run2')
      show ?thesis
      proof (cases ?changed)
        case True
        let ?h' = "h\<lparr> h_imports := ?objs @ (new1 @ new2),
                     h_importArrays := h_importArrays h @ [arr2],
                     h_modules := h_modules h @
                       [(h_modules h ! module)\<lparr> obj_ImportSection := Some (length (h_importArrays h)) \<rparr>] \<rparr>"
        have r: "replaceImports ks1 ks2 c module h = (?h', Inr (length (h_modules h)))"
          using u2 True by simp
        have "Module_imports ?h' (length (h_modules h)) = Some (modules_then_imports ?es1 ?es2 ?imps)"
          using content by (simp add: Module_imports_def)
        with r mi True show ?thesis by auto
      next
        case False
        with flag same1 same2 have eq: "arr1 = ?arr" "new1 = []" "arr2 = ?arr" "new2 = []" by auto
        have "replaceImports ks1 ks2 c module h = (h\<lparr> h_imports := (?objs @ new1) @ new2 \<rparr>, Inr module)"
          using u2 False by simp
        then have r: "replaceImports ks1 ks2 c module h = (h, Inr module)"
          using eq by simp
        have "modules_then_imports ?es1 ?es2 ?imps = ?imps" using content eq by simp
        with r mi False show ?thesis by simp
      qed
    qed
  qed
qed


lemmas js_defs = js_config_def NewModuleConfig_def zero_moduleConfig_def empty_heap_def
  WithImportModule_def WithImport_def import_key_def NUL_def js_increment_def

text \<open>
  C7, as stated, fails: the whole-module replacements are applied first. With
  \<open>WithImportModule("js", "wasm")\<close> and \<open>WithImport("wasm", "increment", "go",
  "increment")\<close>, the import \<open>js.increment\<close> becomes \<open>go.increment\<close>; with the
  per-import replacements first it would become \<open>wasm.increment\<close>.
\<close>

theorem imports_replaced_after_modules:
  "(case js_config of (c, h) \<Rightarrow>
      Module_imports h 0 = Some [js_increment]
    \<and> entries (replacedImportModules_of h c) [''js''] = [(''js'', ''wasm'')]
    \<and> entries (replacedImports_of h c) [import_key ''wasm'' ''increment'']
        = [(import_key ''wasm'' ''increment'', (''go'', ''increment''))]
    \<and> (case replaceImports [''js''] [import_key ''wasm'' ''increment''] c 0 h of
         (h', Inl p) \<Rightarrow> False
       | (h', Inr module') \<Rightarrow>
           Module_imports h' module' = Some [js_increment\<lparr> imp_Module := ''go'' \<rparr>])
    \<and> imports_then_modules [(''js'', ''wasm'')]
          [(import_key ''wasm'' ''increment'', (''go'', ''increment''))] [js_increment]
        = [js_increment\<lparr> imp_Module := ''wasm'' \<rparr>]
    \<and> js_increment\<lparr> imp_Module := ''go'' \<rparr> \<noteq> js_increment\<lparr> imp_Module := ''wasm'' \<rparr>)"
  by (simp add: js_defs Module_imports_def entries_def replacedImportModules_of_def
        replacedImports_of_def replaceImports_def IndexByte_def deref_def List.map_filter_simps
        imports_then_modules_def apply_module_replacements_def apply_import_replacements_def
        replace_module_def replace_import_def import_matches_def)


lemma fst_set_entries: "fst ` set (entries m ks) = {k \<in> set ks. k \<in> fmdom' m}"
proof (induction ks)
  case Nil
  show ?case by (simp add: entries_Nil)
next
  case (Cons k ks)
  show ?case
  proof (cases "fmlookup m k")
    case None
    then have "k \<notin> fmdom' m" by (simp add: fmdom'_notI)
    with None Cons show ?thesis by (auto simp: entries_Cons)
  next
    case (Some v)
    then have "k \<in> fmdom' m" by (rule fmdom'I)
    with Some Cons show ?thesis by (auto simp: entries_Cons)
  qed
qed

lemma matches_covered:
  assumes "fmdom' m1 \<subseteq> set ks1" and "fmdom' m2 \<subseteq> set ks2"
  shows "(module_match (entries m1 ks1) imps \<or> import_match (entries m2 ks2) imps)
           = some_replacement_matches m1 m2 imps"
proof -
  have "fst ` set (entries m1 ks1) = fmdom' m1" "fst ` set (entries m2 ks2) = fmdom' m2"
    using assms by (auto simp: fst_set_entries)
  then show ?thesis
    by (auto simp: module_match_def import_match_def some_replacement_matches_def)
qed

text \<open>
  C7, amended. \<open>replaceImports\<close> applies the whole-module (\<open>ImportModule\<close>) replacements
  first and the per-import (\<open>Import\<close>) replacements after them: for every valid module
  pointer, every configuration whose import keys hold the NUL delimiter, and every order
  in which the two maps are ranged over, the call returns a module whose import list is
  the input's with, for each import, the module replacements applied and then the
  import replacements.
\<close>

theorem replaceImports_modules_first:
  assumes "valid_module h module"
    and "\<forall>key\<in>fmdom' (replacedImports_of h c). NUL \<in> set key"
  shows "\<exists>h' module'. replaceImports ks1 ks2 c module h = (h', Inr module')
     \<and> Module_imports h' module'
         = map_option (modules_then_imports (entries (replacedImportModules_of h c) ks1)
                          (entries (replacedImports_of h c) ks2))
             (Module_imports h module)"
  using replaceImports_spec [OF assms, of ks1 ks2] by blast

text \<open>
  C8. \<open>replaceImports\<close> never mutates its input. For every valid module pointer and
  every configuration (its import keys hold the NUL delimiter; the two maps are ranged
  over in any order that visits all their keys): every object of the heap is as it was
  (modules, import arrays and imports only gain new objects; the maps are unchanged), so
  the input module and its imports are; when the module has no import section or no
  configured replacement matches any import, the input pointer itself is returned and
  the heap is unchanged; otherwise the result is a newly allocated module, equal to the
  input but for its import section, which is a newly allocated array.
\<close>

theorem replaceImports_frame:
  assumes "valid_module h module"
    and "\<forall>key\<in>fmdom' (replacedImports_of h c). NUL \<in> set key"
    and "fmdom' (replacedImportModules_of h c) \<subseteq> set ks1"
    and "fmdom' (replacedImports_of h c) \<subseteq> set ks2"
  shows "\<exists>h' module'. replaceImports ks1 ks2 c module h = (h', Inr module')
     \<and> take (length (h_modules h)) (h_modules h') = h_modules h
     \<and> take (length (h_importArrays h)) (h_importArrays h') = h_importArrays h
     \<and> take (length (h_imports h)) (h_imports h') = h_imports h
     \<and> h_strings h' = h_strings h \<and> h_environKeys h' = h_environKeys h
     \<and> h_preopens h' = h_preopens h \<and> h_preopenPaths h' = h_preopenPaths h
     \<and> h_replacedImports h' = h_replacedImports h
     \<and> h_replacedImportModules h' = h_replacedImportModules h
     \<and> Module_imports h' module = Module_imports h module
     \<and> (case Module_imports h module of
          None \<Rightarrow> module' = module \<and> h' = h
        | Some imps \<Rightarrow>
            if some_replacement_matches (replacedImportModules_of h c) (replacedImports_of h c) imps
            then module' = length (h_modules h)
               \<and> length (h_modules h') = Suc (length (h_modules h))
               \<and> length (h_importArrays h') = Suc (length (h_importArrays h))
               \<and> h_modules h' ! module'
                   = (h_modules h ! module)\<lparr> obj_ImportSection := Some (length (h_importArrays h)) \<rparr>
            else module' = module \<and> h' = h)"
proof -
  let ?m1 = "replacedImportModules_of h c" and ?m2 = "replacedImports_of h c"
  from replaceImports_spec [OF assms(1,2), of ks1 ks2]
  obtain h' module' where run: "replaceImports ks1 ks2 c module h = (h', Inr module')"
    and shape: "(case Module_imports h module of
          None \<Rightarrow> h' = h \<and> module' = module
        | Some imps \<Rightarrow>
            if module_match (entries ?m1 ks1) imps \<or> import_match (entries ?m2 ks2) imps
            then module' = length (h_modules h)
               \<and> (\<exists>arr new. h' = h\<lparr> h_imports := h_imports h @ new,
                        h_importArrays := h_importArrays h @ [arr],
                        h_modules := h_modules h @
                          [(h_modules h ! module)
                             \<lparr> obj_ImportSection := Some (length (h_importArrays h)) \<rparr>] \<rparr>)
            else h' = h \<and> module' = module)"
    by blast
  note cov = matches_covered [OF assms(3,4)]
  from assms(1) have inb: "module < length (h_modules h)" by (simp add: valid_module_def)
  show ?thesis
  proof (cases "Module_imports h module")
    case None
    with shape run show ?thesis by simp
  next
    case (Some imps)
    then obtain a where a: "obj_ImportSection (h_modules h ! module) = Some a"
      by (auto simp: Module_imports_def split: option.splits)
    with assms(1) have ab: "a < length (h_importArrays h)"
      and al: "allocated (h_imports h) (h_importArrays h ! a)"
      by (simp_all add: valid_module_def)
    show ?thesis
    proof (cases "some_replacement_matches ?m1 ?m2 imps")
      case False
      with shape Some cov [of imps] have "h' = h" "module' = module" by simp_all
      with run Some False show ?thesis by simp
    next
      case True
      with shape Some cov [of imps] obtain arr new where m': "module' = length (h_modules h)"
        and h': "h' = h\<lparr> h_imports := h_imports h @ new,
                        h_importArrays := h_importArrays h @ [arr],
                        h_modules := h_modules h @
                          [(h_modules h ! module)
                             \<lparr> obj_ImportSection := Some (length (h_importArrays h)) \<rparr>] \<rparr>"
        by auto
      have "Module_imports h' module = Module_imports h module"
        using inb a ab al
        by (simp add: h' Module_imports_def nth_append deref_append)
      with run Some True m' show ?thesis by (simp add: h')
    qed
  qed
qed


lemmas js_eval_defs = js_config_def NewModuleConfig_def zero_moduleConfig_def empty_heap_def
  WithImportModule_def WithImport_def import_key_def NUL_def js_increment_def

lemma js_config_valid: "valid_module (snd js_config) 0"
  by (simp add: js_eval_defs valid_module_def allocated_def)

lemma js_config_keys:
  "fmdom' (replacedImports_of (snd js_config) (fst js_config)) = {import_key ''wasm'' ''increment''}"
  "fmdom' (replacedImportModules_of (snd js_config) (fst js_config)) = {''js''}"
  by (simp_all add: js_eval_defs replacedImports_of_def replacedImportModules_of_def)

lemma js_config_run:
  "snd (replaceImports [''js''] [import_key ''wasm'' ''increment''] (fst js_config) 0 (snd js_config))
     = Inr 1"
  by (simp add: js_eval_defs replaceImports_def IndexByte_def)

lemma js_config_imports: "Module_imports (snd js_config) 0 = Some [js_increment]"
  by (simp add: js_eval_defs Module_imports_def deref_def)

theorem replaceImports_modules_first_witness:
  "valid_module (snd js_config) 0
   \<and> fmdom' (replacedImports_of (snd js_config) (fst js_config)) = {import_key ''wasm'' ''increment''}
   \<and> NUL \<in> set (import_key ''wasm'' ''increment'')
   \<and> (\<exists>h'. replaceImports [''js''] [import_key ''wasm'' ''increment''] (fst js_config) 0
               (snd js_config) = (h', Inr 1)
           \<and> Module_imports h' 1 = Some [js_increment\<lparr> imp_Module := ''go'' \<rparr>])"
proof -
  let ?c = "fst js_config" and ?h = "snd js_config"
  let ?key = "import_key ''wasm'' ''increment''"
  have nul: "NUL \<in> set ?key" by (simp add: import_key_def)
  then have keys: "\<forall>key\<in>fmdom' (replacedImports_of ?h ?c). NUL \<in> set key"
    by (simp add: js_config_keys)
  from replaceImports_modules_first [OF js_config_valid keys, of "[''js'']" "[?key]"]
  obtain h' module' where run: "replaceImports [''js''] [?key] ?c 0 ?h = (h', Inr module')"
    and mi: "Module_imports h' module'
         = map_option (modules_then_imports (entries (replacedImportModules_of ?h ?c) [''js''])
                          (entries (replacedImports_of ?h ?c) [?key]))
             (Module_imports ?h 0)"
    by blast
  from run js_config_run have m: "module' = 1" by simp
  have "map_option (modules_then_imports (entries (replacedImportModules_of ?h ?c) [''js''])
                          (entries (replacedImports_of ?h ?c) [?key]))
             (Module_imports ?h 0) = Some [js_increment\<lparr> imp_Module := ''go'' \<rparr>]"
    unfolding js_config_imports
    by (simp add: js_eval_defs entries_def List.map_filter_simps replacedImportModules_of_def
          replacedImports_of_def modules_then_imports_def apply_module_replacements_def
          apply_import_replacements_def replace_module_def replace_import_def
          import_matches_def IndexByte_def)
  with mi m run show ?thesis using js_config_valid js_config_keys(1) nul by auto
qed

theorem replaceImports_frame_witness:
  "valid_module (snd js_config) 0
   \<and> fmdom' (replacedImports_of (snd js_config) (fst js_config)) = {import_key ''wasm'' ''increment''}
   \<and> NUL \<in> set (import_key ''wasm'' ''increment'')
   \<and> fmdom' (replacedImportModules_of (snd js_config) (fst js_config)) = {''js''}
   \<and> some_replacement_matches (replacedImportModules_of (snd js_config) (fst js_config))
         (replacedImports_of (snd js_config) (fst js_config)) [js_increment]
   \<and> (\<exists>h'. replaceImports [''js''] [import_key ''wasm'' ''increment''] (fst js_config) 0
               (snd js_config) = (h', Inr 1)
           \<and> Module_imports h' 0 = Some [js_increment]
           \<and> h_modules h' ! 0 = \<lparr> obj_ImportSection = Some 0, obj_rest = () \<rparr>
           \<and> h_modules h' ! 1 = \<lparr> obj_ImportSection = Some 1, obj_rest = () \<rparr>)"
proof -
  let ?c = "fst js_config" and ?h = "snd js_config"
  let ?key = "import_key ''wasm'' ''increment''"
  have nul: "NUL \<in> set ?key" by (simp add: import_key_def)
  then have keys: "\<forall>key\<in>fmdom' (replacedImports_of ?h ?c). NUL \<in> set key"
    by (simp add: js_config_keys)
  have k1: "fmdom' (replacedImportModules_of ?h ?c) \<subseteq> set [''js'']"
    and k2: "fmdom' (replacedImports_of ?h ?c) \<subseteq> set [?key]"
    by (simp_all add: js_config_keys)
  have match: "some_replacement_matches (replacedImportModules_of ?h ?c)
         (replacedImports_of ?h ?c) [js_increment]"
    by (simp add: some_replacement_matches_def js_config_keys js_increment_def)
  have len: "length (h_modules ?h) = 1" "length (h_importArrays ?h) = 1"
    "h_modules ?h ! 0 = \<lparr> obj_ImportSection = Some 0, obj_rest = () \<rparr>"
    by (simp_all add: js_eval_defs)
  from replaceImports_frame [OF js_config_valid keys k1 k2]
  obtain h' module' where run: "replaceImports [''js''] [?key] ?c 0 ?h = (h', Inr module')"
    and pre: "take (length (h_modules ?h)) (h_modules h') = h_modules ?h"
    and same: "Module_imports h' 0 = Module_imports ?h 0"
    and shape: "(case Module_imports ?h 0 of
          None \<Rightarrow> module' = 0 \<and> h' = ?h
        | Some imps \<Rightarrow>
            if some_replacement_matches (replacedImportModules_of ?h ?c) (replacedImports_of ?h ?c) imps
            then module' = length (h_modules ?h)
               \<and> length (h_modules h') = Suc (length (h_modules ?h))
               \<and> length (h_importArrays h') = Suc (length (h_importArrays ?h))
               \<and> h_modules h' ! module'
                   = (h_modules ?h ! 0)\<lparr> obj_ImportSection := Some (length (h_importArrays ?h)) \<rparr>
            else module' = 0 \<and> h' = ?h)"
    by blast
  from shape match have m: "module' = 1"
    and new: "h_modules h' ! 1 = \<lparr> obj_ImportSection = Some 1, obj_rest = () \<rparr>"
    and l: "length (h_modules h') = 2"
    by (auto simp: js_config_imports len)
  from pre len l have "h_modules h' ! 0 = \<lparr> obj_ImportSection = Some 0, obj_rest = () \<rparr>"
  proof -
    from pre len have "take 1 (h_modules h') = h_modules ?h" by simp
    then have "h_modules ?h ! 0 = take 1 (h_modules h') ! 0" by simp
    also have "\<dots> = h_modules h' ! 0" by simp
    finally show ?thesis using len by simp
  qed
  with run m new same js_config_imports match nul js_config_valid js_config_keys
  show ?thesis by auto
qed

end
